(* ===== verification/Go_Prelude.thy ===== *)
theory Go_Prelude
  imports Main "HOL-Library.Word"
begin

text \<open>
  Shared vocabulary of the development: Go's error values and the outcome of a Go call
  (a value, a panic, or a goroutine that blocks for ever), decimal formatting, and the list
  and map lemmas that several components use. The collections \<open>go_defs\<close> (definitional
  unfolding of the small helpers) and \<open>go_invs\<close> (one preservation lemma per operation) are
  the hints the component theories hand to \<open>simp\<close> and \<open>auto\<close>.
\<close>

named_theorems go_defs \<open>unfolding of the small Go helpers\<close>
named_theorems go_invs \<open>preservation lemmas: one per operation\<close>

section \<open>Errors\<close>

text \<open>
  Go errors are interface values. \<open>ErrText\<close> is \<open>errors.New\<close> or a formatted text,
  \<open>ErrStatus reason msg\<close> an API status error returned by the Kubernetes client,
  \<open>ErrV pre e\<close> is \<open>fmt.Errorf(pre + "%v", e)\<close>, which flattens \<open>e\<close> into its text,
  \<open>ErrW pre e\<close> is \<open>fmt.Errorf(pre + "%w", e)\<close>, which keeps \<open>e\<close> reachable for
  \<open>errors.As\<close>. \<open>ErrAnd\<close> is the \<open>"%v and %v"\<close> of util.AddError, \<open>ErrJoin\<close> is
  \<open>errors.Join\<close>, and \<open>ErrRunCleanup\<close> the \<open>"failed to run: %v; cleanup: %v"\<close>
  of the executors, whose second operand may be nil. A nil error is \<open>None\<close>.
\<close>

datatype gerror =
    ErrText string
  | ErrStatus string string
  | ErrV string gerror
  | ErrW string gerror
  | ErrAnd gerror gerror
  | ErrJoin "gerror list"
  | ErrRunCleanup gerror "gerror option"

fun join_with :: "string \<Rightarrow> string list \<Rightarrow> string" where
  "join_with sep [] = ''''"
| "join_with sep [x] = x"
| "join_with sep (x # xs) = x @ sep @ join_with sep xs"

fun err_text :: "gerror \<Rightarrow> string" where
  "err_text (ErrText s) = s"
| "err_text (ErrStatus r m) = m"
| "err_text (ErrV pre e) = pre @ err_text e"
| "err_text (ErrW pre e) = pre @ err_text e"
| "err_text (ErrAnd a b) = err_text a @ '' and '' @ err_text b"
| "err_text (ErrJoin es) = join_with [CHR 0x0A] (map err_text es)"
| "err_text (ErrRunCleanup e None) = ''failed to run: '' @ err_text e @ ''; cleanup: <nil>''"
| "err_text (ErrRunCleanup e (Some c)) = ''failed to run: '' @ err_text e @ ''; cleanup: '' @ err_text c"

text \<open>\<open>errors.Join\<close>: nil arguments are dropped, and the result is nil if all are.\<close>

definition errors_Join :: "gerror option list \<Rightarrow> gerror option" where
  "errors_Join es = (let xs = List.map_filter (\<lambda>e. e) es in if xs = [] then None else Some (ErrJoin xs))"

section \<open>Outcomes\<close>

text \<open>
  A Go call either returns, panics, or blocks for ever on a channel that nobody will close.
\<close>

datatype 'a outcome = Returns 'a | Panics string | Blocks

primrec obind :: "'a outcome \<Rightarrow> ('a \<Rightarrow> 'b outcome) \<Rightarrow> 'b outcome" where
  "obind (Returns x) f = f x"
| "obind (Panics m) f = Panics m"
| "obind Blocks f = Blocks"

lemma obind_Returns_iff: "obind m f = Returns y \<longleftrightarrow> (\<exists>x. m = Returns x \<and> f x = Returns y)"
  by (cases m) auto

lemma obind_assoc: "obind (obind m f) g = obind m (\<lambda>x. obind (f x) g)"
  by (cases m) auto

lemma obind_cong [fundef_cong]:
  "m = m' \<Longrightarrow> (\<And>x. m' = Returns x \<Longrightarrow> f x = g x) \<Longrightarrow> obind m f = obind m' g"
  by (cases m') auto

section \<open>Decimal formatting\<close>

text \<open>\<open>%d\<close> of a non-negative integer and its inverse (the reading of decimal digits).\<close>

definition digit_char :: "nat \<Rightarrow> char" where
  "digit_char d = char_of (48 + d)"

definition char_digit :: "char \<Rightarrow> nat" where
  "char_digit c = of_char c - 48"

fun itoa :: "nat \<Rightarrow> string" where
  "itoa n = (if n < 10 then [digit_char n] else itoa (n div 10) @ [digit_char (n mod 10)])"

declare itoa.simps [simp del]

definition atoi :: "string \<Rightarrow> nat" where
  "atoi s = foldl (\<lambda>n c. 10 * n + char_digit c) 0 s"

lemma char_digit_digit_char: "d < 10 \<Longrightarrow> char_digit (digit_char d) = d"
  by (simp add: char_digit_def digit_char_def take_bit_nat_eq_self)

lemma atoi_snoc [simp]: "atoi (s @ [c]) = 10 * atoi s + char_digit c"
  by (simp add: atoi_def)

lemma atoi_itoa [simp]: "atoi (itoa n) = n"
proof (induction n rule: itoa.induct)
  case (1 n)
  show ?case
  proof (cases "n < 10")
    case True
    then show ?thesis
      by (subst itoa.simps) (simp add: atoi_def char_digit_digit_char)
  next
    case False
    with 1 have "atoi (itoa (n div 10)) = n div 10" by simp
    with False show ?thesis
      by (subst itoa.simps) (simp add: char_digit_digit_char)
  qed
qed

lemma itoa_inject [simp]: "itoa m = itoa n \<longleftrightarrow> m = n"
  by (metis atoi_itoa)

lemma digit_char_in_range:
  assumes "d < 10"
  shows "of_char (digit_char d) = 48 + d"
  using assms by (simp add: digit_char_def take_bit_nat_eq_self)

lemma itoa_chars: "c \<in> set (itoa n) \<Longrightarrow> 48 \<le> (of_char c :: nat) \<and> (of_char c :: nat) < 58"
proof (induction n rule: itoa.induct)
  case (1 n)
  show ?case
  proof (cases "n < 10")
    case True
    with 1 show ?thesis
      by (subst (asm) (2) itoa.simps) (simp add: digit_char_in_range)
  next
    case False
    with 1 have "c \<in> set (itoa (n div 10)) \<or> c = digit_char (n mod 10)"
      by (subst (asm) (2) itoa.simps) auto
    with 1 False show ?thesis by (auto simp: digit_char_in_range)
  qed
qed

lemma itoa_no_dot: "CHR ''.'' \<notin> set (itoa n)"
  using itoa_chars [of "CHR ''.''" n] by auto

lemma itoa_no_dash: "CHR ''-'' \<notin> set (itoa n)"
  using itoa_chars [of "CHR ''-''" n] by auto

lemma itoa_nonempty [simp]: "itoa n \<noteq> []"
  by (subst itoa.simps) simp

section \<open>Splitting at a separator\<close>

lemma append_sep_cancel:
  assumes "c \<notin> set a" and "c \<notin> set a'" and "a @ c # b = a' @ c # b'"
  shows "a = a' \<and> b = b'"
  using assms
proof (induction a arbitrary: a')
  case Nil
  then show ?case by (cases a') auto
next
  case (Cons x a)
  then show ?case by (cases a') auto
qed

lemma append_sep_cancel_right:
  assumes "c \<notin> set b" and "c \<notin> set b'" and "a @ c # b = a' @ c # b'"
  shows "a = a' \<and> b = b'"
proof -
  have "rev b @ c # rev a = rev b' @ c # rev a'"
    using arg_cong [OF assms(3), of rev] by simp
  then have "rev b = rev b' \<and> rev a = rev a'"
    using append_sep_cancel assms(1,2) by (metis set_rev)
  then show ?thesis by simp
qed

section \<open>Lists\<close>

lemma map_filter_append [simp]:
  "List.map_filter f (xs @ ys) = List.map_filter f xs @ List.map_filter f ys"
  by (simp add: List.map_filter_def)

lemma map_filter_rev [simp]: "List.map_filter f (rev xs) = rev (List.map_filter f xs)"
  by (induction xs) (auto simp: List.map_filter_simps split: option.splits)

text \<open>Removing a key from a Go set held as a list without duplicates.\<close>

lemma distinct_removeAll [simp]: "distinct xs \<Longrightarrow> distinct (removeAll x xs)"
  by (induction xs) auto

lemma length_removeAll_member:
  "x \<in> set xs \<Longrightarrow> length (removeAll x xs) < length xs"
  by (induction xs) (auto intro: le_imp_less_Suc length_removeAll_less_eq)

lemma in_set_update: "x \<in> set xs \<Longrightarrow> x \<noteq> xs ! k \<Longrightarrow> x \<in> set (xs[k := a])"
  by (metis in_set_conv_nth length_list_update nth_list_update_neq)

section \<open>Invariants of a step relation\<close>

text \<open>
  What every state machine of the development promises: a step keeps the invariant, wherever what the machine
  relies on (\<open>ok\<close>) is documented. Then whatever is reached from a state in which it holds has it too.
\<close>

locale step_invariant =
  fixes step :: "'s \<Rightarrow> 's \<Rightarrow> bool" and inv :: "'s \<Rightarrow> bool" and ok :: bool
  assumes step_inv: "ok \<Longrightarrow> step s s' \<Longrightarrow> inv s \<Longrightarrow> inv s'"
begin

lemma star_inv:
  assumes ok and "step\<^sup>*\<^sup>* s s'"
  shows "inv s \<Longrightarrow> inv s'"
  using assms(2) by induction (auto intro: step_inv [OF assms(1)])

end

end
