(* ===== verification/Kube_Objects.thy ===== *)
theory Kube_Objects
  imports Go_Prelude
begin

text \<open>
  The Kubernetes objects the program builds and reads, as records with the fields it sets or
  looks at. Label, annotation and selector maps are partial functions; a nil and an empty map
  are the same value (the API does not tell them apart).
\<close>

type_synonym smap = "string \<rightharpoonup> string"

definition labels_of :: "(string \<times> string) list \<Rightarrow> smap" where
  "labels_of kvs = map_of kvs"

section \<open>Pods\<close>

record envvar =
  ev_name :: string
  ev_value :: string

record container =
  c_name :: string
  c_image :: string
  c_args :: "string list"
  c_env :: "envvar list"

record toleration =
  tol_key :: string
  tol_operator :: string
  tol_effect :: string

record podspec =
  ps_terminationGracePeriodSeconds :: "int option"
  ps_serviceAccountName :: string
  ps_containers :: "container list"
  ps_nodeName :: string
  ps_nodeSelector :: smap
  ps_tolerations :: "toleration list"

definition empty_podspec :: podspec where
  "empty_podspec = \<lparr>ps_terminationGracePeriodSeconds = None, ps_serviceAccountName = [],
     ps_containers = [], ps_nodeName = [], ps_nodeSelector = Map.empty, ps_tolerations = []\<rparr>"

record podcondition =
  cond_type :: string
  cond_status :: string
  cond_lastTransitionTime :: int

text \<open>Container state: Running with its start, or Terminated with start and finish.\<close>

record containerstatus =
  cs_name :: string
  cs_running :: "int option"
  cs_terminated :: "(int \<times> int) option"
  cs_ready :: bool
  cs_image :: string

record podstatus =
  st_phase :: string
  st_conditions :: "podcondition list"
  st_podIP :: string
  st_initContainerStatuses :: "containerstatus list"
  st_containerStatuses :: "containerstatus list"

definition empty_podstatus :: podstatus where
  "empty_podstatus = \<lparr>st_phase = [], st_conditions = [], st_podIP = [],
     st_initContainerStatuses = [], st_containerStatuses = []\<rparr>"

section \<open>Services, gateways and Istio configuration\<close>

record serviceport =
  sp_name :: string
  sp_appProtocol :: "string option"
  sp_port :: int
  sp_targetPort :: "int option"

record servicespec =
  sv_ports :: "serviceport list"
  sv_type :: string
  sv_selector :: smap
  sv_clusterIP :: string
  sv_clusterIPs :: "string list"

record gwlistener =
  gl_name :: string
  gl_port :: int
  gl_protocol :: string
  gl_hostname :: "string option"
  gl_allowedFrom :: "string option"
  gl_tls :: "(string \<times> (string \<times> string) list) option"

record gatewayspec =
  gw_addresses :: "(string \<times> string) list"
  gw_className :: string
  gw_listeners :: "gwlistener list"

record sentryport =
  se_number :: int
  se_name :: string
  se_protocol :: string
  se_targetPort :: int

record serviceentryspec =
  se_hosts :: "string list"
  se_location :: string
  se_ports :: "sentryport list"
  se_resolution :: string
  se_workloadSelector :: "smap option"

record workloadentryspec =
  we_address :: string
  we_weight :: nat
  we_ports :: "string \<rightharpoonup> nat"
  we_labels :: smap

record workloadgroupspec =
  wg_metadataLabels :: smap
  wg_template :: workloadentryspec

section \<open>Nodes, leases and endpoints\<close>

record taint =
  tn_key :: string
  tn_value :: string
  tn_effect :: string

record nodecondition =
  ncd_type :: string
  ncd_reason :: string
  ncd_message :: string
  ncd_status :: string
  ncd_lastHeartbeatTime :: int
  ncd_lastTransitionTime :: int

record nodestatus =
  nd_capacity :: "string \<rightharpoonup> int"
  nd_allocatable :: "string \<rightharpoonup> int"
  nd_phase :: string
  nd_conditions :: "nodecondition list"
  nd_nodeInfo :: smap

record ownerref =
  ow_apiVersion :: string
  ow_kind :: string
  ow_name :: string
  ow_uid :: string

record leasespec =
  ls_owner :: ownerref
  ls_holderIdentity :: string
  ls_durationSeconds :: int
  ls_renewTime :: int

record endpointaddress =
  ep_ip :: string
  ep_targetRef :: "string option"

section \<open>Objects\<close>

text \<open>
  \<open>RawSpec\<close> stands for the fields of an object that came from a template or a YAML file and
  that the program only passes on.
\<close>

datatype kspec =
    PodSpec podspec
  | ServiceSpec servicespec
  | GatewaySpec gatewayspec
  | ServiceEntrySpec serviceentryspec
  | WorkloadEntrySpec workloadentryspec
  | WorkloadGroupSpec workloadgroupspec
  | NodeSpec "taint list"
  | LeaseSpec leasespec
  | NamespaceSpec
  | ServiceAccountSpec
  | EndpointsSpec "endpointaddress list list"
  | RawSpec string

datatype kstatusval =
    PodStatus podstatus
  | NodeStatus nodestatus
  | NamespaceStatus string
  | RawStatus string

text \<open>
  The \<open>Status\<close> field of a Go object as reflection sees it: no such field, the zero value,
  or something else.
\<close>

datatype kstatus = NoStatusField | ZeroStatus | Status kstatusval

text \<open>
  \<open>o_type\<close> is the Go type of the object, \<open>o_gvk\<close> its TypeMeta (group, version, kind),
  empty for most objects built in Go.
\<close>

record kobj =
  o_type :: string
  o_gvk :: "string \<times> string \<times> string"
  o_name :: string
  o_namespace :: string
  o_labels :: smap
  o_annotations :: smap
  o_resourceVersion :: string
  o_managedFields :: "string list"
  o_creationTimestamp :: int
  o_deletionTimestamp :: "int option"
  o_finalizers :: "string list"
  o_uid :: string
  o_spec :: kspec
  o_status :: kstatus

definition new_object :: "string \<Rightarrow> kspec \<Rightarrow> kobj" where
  "new_object t sp = \<lparr>o_type = t, o_gvk = ([], [], []), o_name = [], o_namespace = [],
     o_labels = Map.empty, o_annotations = Map.empty, o_resourceVersion = [], o_managedFields = [],
     o_creationTimestamp = 0, o_deletionTimestamp = None, o_finalizers = [], o_uid = [],
     o_spec = sp, o_status = NoStatusField\<rparr>"

text \<open>The reflection test of kube.go: is there a Status field with a non-zero value?\<close>

definition hasStatusInternal :: "kobj \<Rightarrow> bool" where
  "hasStatusInternal o1 =
     (case o_status o1 of NoStatusField \<Rightarrow> False | ZeroStatus \<Rightarrow> False | Status v \<Rightarrow> True)"

text \<open>An object's identity: resource, namespace and name.\<close>

type_synonym key = "string \<times> string \<times> string"

definition obj_key :: "string \<Rightarrow> kobj \<Rightarrow> key" where
  "obj_key r o1 = (r, o_namespace o1, o_name o1)"

lemma obj_key_resourceVersion [simp]: "obj_key r (o1\<lparr>o_resourceVersion := v\<rparr>) = obj_key r o1"
  by (simp add: obj_key_def)

end
