(* ===== verification/Reader.thy ===== *)
theory Reader
  imports Kube_Objects
begin

text \<open>
  Reading a stream of YAML documents into objects (pkg/reader/yaml.go). The YAML and scheme
  libraries are the parameter \<open>decoder\<close>.
\<close>

type_synonym gvk = "string \<times> string \<times> string"

text \<open>
  \<open>dc_chunks\<close> splits the input at the document separators; \<open>dc_interpret\<close> reads the TypeMeta of a
  chunk; \<open>dc_alias\<close> finds the normalised schema of a kind (its GVK and API version);
  \<open>dc_unmarshal\<close> and \<open>dc_decode\<close> build the object.
\<close>

record decoder =
  dc_chunks :: "string \<Rightarrow> string list"
  dc_interpret :: "string \<Rightarrow> gerror + gvk"
  dc_alias :: "gvk \<Rightarrow> gvk option"
  dc_unmarshal :: "gvk \<Rightarrow> string \<Rightarrow> gerror + kobj"
  dc_decode :: "gvk \<Rightarrow> string \<Rightarrow> gerror + kobj"

definition is_space :: "char \<Rightarrow> bool" where
  "is_space c \<longleftrightarrow> c = CHR '' '' \<or> c = CHR 0x09 \<or> c = CHR 0x0A \<or> c = CHR 0x0B \<or> c = CHR 0x0C \<or> c = CHR 0x0D"

text \<open>\<open>bytes.TrimSpace\<close> leaves nothing exactly when every character is white space.\<close>

definition blank :: "string \<Rightarrow> bool" where
  "blank s \<longleftrightarrow> list_all is_space s"

definition parse_chunk :: "decoder \<Rightarrow> string \<Rightarrow> gerror + kobj" where
  "parse_chunk dc chunk =
     (case dc_interpret dc chunk of
        Inl err \<Rightarrow> Inl err
      | Inr gvk0 \<Rightarrow>
          (case dc_alias dc gvk0 of
             Some gvk1 \<Rightarrow>
               (case dc_unmarshal dc gvk1 chunk of
                  Inl err \<Rightarrow> Inl err
                | Inr raw \<Rightarrow> Inr (raw\<lparr>o_gvk := gvk1\<rparr>))
           | None \<Rightarrow>
               (case dc_decode dc gvk0 chunk of
                  Inl err \<Rightarrow> Inl (ErrV ''cannot parse message: '' err)
                | Inr obj \<Rightarrow> Inr (obj\<lparr>o_gvk := gvk0\<rparr>))))"

fun parse_chunks :: "decoder \<Rightarrow> string list \<Rightarrow> kobj list \<Rightarrow> gerror + kobj list" where
  "parse_chunks dc [] resp = Inr resp"
| "parse_chunks dc (chunk # chunks) resp =
     (if blank chunk then parse_chunks dc chunks resp
      else (case parse_chunk dc chunk of
              Inl err \<Rightarrow> Inl err
            | Inr obj \<Rightarrow> parse_chunks dc chunks (resp @ [obj])))"

definition ParseYaml :: "decoder \<Rightarrow> string \<Rightarrow> gerror + kobj list" where
  "ParseYaml dc input = parse_chunks dc (dc_chunks dc input) []"

definition ParseYamlFile :: "decoder \<Rightarrow> (string \<Rightarrow> gerror + string) \<Rightarrow> string \<Rightarrow> gerror + kobj list" where
  "ParseYamlFile dc read_file inputFile =
     (case read_file inputFile of Inl err \<Rightarrow> Inl err | Inr s \<Rightarrow> ParseYaml dc s)"

lemma parse_chunks_spec:
  "parse_chunks dc chunks resp = Inr objs \<Longrightarrow>
     \<exists>os. objs = resp @ os \<and> list_all2 (\<lambda>c ob. parse_chunk dc c = Inr ob) (filter (\<lambda>c. \<not> blank c) chunks) os"
proof (induction chunks arbitrary: resp)
  case (Cons chunk chunks)
  show ?case
  proof (cases "blank chunk")
    case True
    then show ?thesis using Cons by simp
  next
    case False
    then obtain ob where ob: "parse_chunk dc chunk = Inr ob" and rest: "parse_chunks dc chunks (resp @ [ob]) = Inr objs"
      using Cons.prems by (auto split: sum.splits)
    obtain os where "objs = (resp @ [ob]) @ os"
      "list_all2 (\<lambda>c ob. parse_chunk dc c = Inr ob) (filter (\<lambda>c. \<not> blank c) chunks) os"
      using Cons.IH [OF rest] by blast
    then show ?thesis using False ob by (intro exI [of _ "ob # os"]) simp
  qed
qed simp


text \<open>A decoder for documents that are the name of an object of kind K.\<close>

definition name_decoder :: decoder where
  "name_decoder = \<lparr>dc_chunks = (\<lambda>s. [s, '' '', s @ ''2'']), dc_interpret = (\<lambda>s. Inr ('''', ''v1'', ''K'')),
     dc_alias = (\<lambda>g. None), dc_unmarshal = (\<lambda>g s. Inl (ErrText ''no'')),
     dc_decode = (\<lambda>g s. Inr ((new_object ''K'' (RawSpec s))\<lparr>o_name := s\<rparr>))\<rparr>"


end
