(* ===== verification/Util.thy ===== *)
theory Util
  imports Go_Prelude
begin

unbundle bit_operations_syntax

text \<open>
  The package \<open>pkg/simulation/util\<close>: error combination, defaults, random and stable
  identifiers, and the process-wide IP counter. Randomness is a tape of raw draws with a
  read position (\<open>rng\<close>), so that a lemma about every tape is a lemma about every run of
  \<open>math/rand\<close>; the IP counter is the 4-byte form of \<open>nextIp\<close>.
\<close>

section \<open>AddError and StringDefault\<close>

definition AddError :: "gerror option \<Rightarrow> gerror option \<Rightarrow> gerror option" where
  "AddError e1 e2 =
     (case e1 of None \<Rightarrow> e2
      | Some a \<Rightarrow> (case e2 of None \<Rightarrow> e1 | Some b \<Rightarrow> Some (ErrAnd a b)))"

lemma AddError_None_iff [simp]: "AddError a b = None \<longleftrightarrow> a = None \<and> b = None"
  by (auto simp: AddError_def split: option.splits)

lemma AddError_None_left [simp]: "AddError None b = b"
  by (simp add: AddError_def)

definition StringDefault :: "string \<Rightarrow> string \<Rightarrow> string" where
  "StringDefault s def = (if s \<noteq> [] then s else def)"

section \<open>Random identifiers\<close>

record rng =
  tape :: "nat \<Rightarrow> nat"
  pos :: nat

text \<open>
  \<open>rand.Intn(n)\<close> yields a value in \<open>[0, n)\<close> and panics on \<open>n \<le> 0\<close>; every value
  in range is the next draw of some tape.
\<close>

definition Intn :: "nat \<Rightarrow> rng \<Rightarrow> nat \<times> rng" where
  "Intn n r = (tape r (pos r) mod n, r\<lparr>pos := pos r + 1\<rparr>)"

lemma Intn_less: "0 < n \<Longrightarrow> fst (Intn n r) < n"
  by (simp add: Intn_def)

definition chars :: string where
  "chars = ''abcdefghijklmnopqrstuvwxyz''"

lemma length_chars [simp]: "length chars = 26"
  by (simp add: chars_def)

fun write_runes :: "nat \<Rightarrow> rng \<Rightarrow> string \<times> rng" where
  "write_runes 0 r = ([], r)"
| "write_runes (Suc k) r =
     (let (i, r1) = Intn (length chars) r; (b, r2) = write_runes k r1
      in (chars ! i # b, r2))"

definition GenUID :: "rng \<Rightarrow> string \<times> rng" where
  "GenUID r = write_runes 8 r"

definition GenUIDOrStableIdentifier :: "bool \<Rightarrow> nat \<Rightarrow> nat \<Rightarrow> rng \<Rightarrow> string \<times> rng" where
  "GenUIDOrStableIdentifier stbl index replica r =
     (if \<not> stbl then GenUID r else (itoa index @ ''-'' @ itoa replica, r))"

lemma write_runes_spec:
  "write_runes k r = (s, r') \<Longrightarrow> length s = k \<and> set s \<subseteq> set chars \<and> tape r' = tape r \<and> pos r' = pos r + k"
proof (induction k arbitrary: r s r')
  case 0
  then show ?case by simp
next
  case (Suc k)
  obtain i r1 where i: "Intn (length chars) r = (i, r1)" by fastforce
  obtain b r2 where b: "write_runes k r1 = (b, r2)" by fastforce
  have "i < length chars"
    using Intn_less [of "length chars" r] i by simp
  moreover have "tape r1 = tape r \<and> pos r1 = pos r + 1"
    using i by (auto simp: Intn_def)
  ultimately show ?case
    using Suc.prems i b Suc.IH [OF b] by auto
qed

lemma stable_identifier_inj:
  "fst (GenUIDOrStableIdentifier True i k r) = fst (GenUIDOrStableIdentifier True i' k' r')
     \<longleftrightarrow> i = i' \<and> k = k'"
proof
  assume "fst (GenUIDOrStableIdentifier True i k r) = fst (GenUIDOrStableIdentifier True i' k' r')"
  then have "itoa i @ CHR ''-'' # itoa k = itoa i' @ CHR ''-'' # itoa k'"
    by (simp add: GenUIDOrStableIdentifier_def)
  then have "itoa i = itoa i' \<and> itoa k = itoa k'"
    by (rule append_sep_cancel [OF itoa_no_dash itoa_no_dash])
  then show "i = i' \<and> k = k'" by simp
qed (simp add: GenUIDOrStableIdentifier_def)

lemma stable_identifier_draws_nothing:
  "snd (GenUIDOrStableIdentifier True i k r) = r"
  by (simp add: GenUIDOrStableIdentifier_def)

section \<open>The IP counter\<close>

type_synonym byte = "8 word"
type_synonym ip4 = "byte \<times> byte \<times> byte \<times> byte"

text \<open>\<open>net.ParseIP("10.0.0.10")\<close>, and \<open>net.IP.String\<close> of a 4-byte address.\<close>

definition initialIp :: ip4 where
  "initialIp = (10, 0, 0, 10)"

fun ip_string :: "ip4 \<Rightarrow> string" where
  "ip_string (a, b, c, d) =
     itoa (unat a) @ ''.'' @ itoa (unat b) @ ''.'' @ itoa (unat c) @ ''.'' @ itoa (unat d)"

text \<open>The counter step, with Go's 64-bit \<open>uint\<close> and its shifts and masks.\<close>

fun ip_uint :: "ip4 \<Rightarrow> 64 word" where
  "ip_uint (a, b, c, d) =
     push_bit 24 (ucast a) + push_bit 16 (ucast b) + push_bit 8 (ucast c) + ucast d"

definition bytes_of_uint :: "64 word \<Rightarrow> ip4" where
  "bytes_of_uint v =
     (ucast (drop_bit 24 v AND 0xFF), ucast (drop_bit 16 v AND 0xFF),
      ucast (drop_bit 8 v AND 0xFF), ucast (v AND 0xFF))"

definition GetIP :: "ip4 \<Rightarrow> string \<times> ip4" where
  "GetIP nextIp = (let i = nextIp; ret = ip_string i; v = ip_uint i + 1 in (ret, bytes_of_uint v))"

text \<open>The value of an address as a number below \<open>2 ^ 32\<close>.\<close>

fun ip_nat :: "ip4 \<Rightarrow> nat" where
  "ip_nat (a, b, c, d) = unat a * 2 ^ 24 + unat b * 2 ^ 16 + unat c * 2 ^ 8 + unat d"


lemma byte_less: "unat (b :: byte) < 256"
  using unsigned_less [of b, where ?'a = nat] by simp

lemma ip_nat_less: "ip_nat i < 2 ^ 32"
proof (cases i)
  case (fields a b c d)
  have "unat a < 256" "unat b < 256" "unat c < 256" "unat d < 256"
    by (rule byte_less)+
  then show ?thesis by (simp add: fields)
qed

lemma unat_ucast_byte: "unat (ucast (b :: byte) :: 64 word) = unat b"
  using byte_less [of b] by (simp add: unsigned_ucast_eq take_bit_nat_eq_self)

lemma byte_shift:
  assumes "n \<le> 24"
  shows "unat (push_bit n (ucast (b :: byte) :: 64 word)) = unat b * 2 ^ n"
proof -
  have "unat b < 2 ^ 8" using byte_less [of b] by simp
  then have "unat b * 2 ^ n < 2 ^ 8 * 2 ^ n" by simp
  also have "\<dots> \<le> 2 ^ 8 * 2 ^ 24"
    using assms by (intro mult_le_mono2 power_increasing) auto
  finally have "unat b * 2 ^ n < 2 ^ 64" by simp
  then show ?thesis
    by (simp only: unsigned_push_bit_eq unat_ucast_byte) (simp add: push_bit_eq_mult take_bit_nat_eq_self)
qed

lemma unat_ip_uint: "unat (ip_uint i) = ip_nat i"
proof (cases i)
  case (fields a b c d)
  have lt: "unat a < 256" "unat b < 256" "unat c < 256" "unat d < 256"
    by (rule byte_less)+
  then show ?thesis
    by (simp add: fields unat_word_ariths byte_shift unat_ucast_byte)
qed


lemma low_byte: "unat (ucast (w AND 0xFF :: 64 word) :: byte) = unat w mod 256"
proof -
  have "w AND 0xFF = take_bit 8 w"
    by (simp add: take_bit_eq_mask mask_eq_exp_minus_1)
  then show ?thesis
    by (simp add: unsigned_ucast_eq unsigned_take_bit_eq) (simp add: take_bit_eq_mod)
qed

lemma unat_drop: "unat (drop_bit n (v :: 64 word)) = unat v div 2 ^ n"
  by (subst unat_drop_bit_eq) (simp add: drop_bit_eq_div)

lemma next_byte: "n mod (m * 256) = n div m mod 256 * m + n mod (m :: nat)"
  by (simp add: mod_mult2_eq mult.commute)

lemma ip_nat_bytes_of_uint: "ip_nat (bytes_of_uint v) = unat v mod 2 ^ 32"
proof -
  let ?n = "unat v"
  have "ip_nat (bytes_of_uint v) =
      (?n div 2 ^ 24) mod 256 * 2 ^ 24 + (?n div 2 ^ 16) mod 256 * 2 ^ 16
        + (?n div 2 ^ 8) mod 256 * 2 ^ 8 + ?n mod 256"
    by (simp add: bytes_of_uint_def low_byte unat_drop)
  also have "\<dots> = ?n mod 2 ^ 32"
    using next_byte [of ?n "2 ^ 24"] next_byte [of ?n "2 ^ 16"] next_byte [of ?n "2 ^ 8"] by simp
  finally show ?thesis .
qed

lemma last_byte_eq:
  assumes "(x :: nat) * 256 + b = y * 256 + b'" and "b < 256" and "b' < 256"
  shows "x = y \<and> b = b'"
  using assms(2,3) arg_cong [OF assms(1), of "\<lambda>z. z div 256"] arg_cong [OF assms(1), of "\<lambda>z. z mod 256"]
  by simp

lemma ip_nat_inject: "ip_nat i = ip_nat j \<Longrightarrow> i = j"
proof (cases i, cases j)
  fix a b c d a' b' c' d'
  assume eq: "ip_nat i = ip_nat j" and i: "i = (a, b, c, d)" and j: "j = (a', b', c', d')"
  have "unat a < 256" "unat b < 256" "unat c < 256" "unat d < 256"
    "unat a' < 256" "unat b' < 256" "unat c' < 256" "unat d' < 256"
    by (rule byte_less)+
  note lt = this
  have "((unat a * 256 + unat b) * 256 + unat c) * 256 + unat d
      = ((unat a' * 256 + unat b') * 256 + unat c') * 256 + unat d'"
    using eq by (simp add: i j)
  then have "unat a = unat a' \<and> unat b = unat b' \<and> unat c = unat c' \<and> unat d = unat d'"
    using lt last_byte_eq by metis
  then show "i = j" by (simp add: i j word_unat_eq_iff)
qed

lemma ip_string_inject: "ip_string i = ip_string j \<Longrightarrow> i = j"
proof (cases i, cases j)
  fix a b c d a' b' c' d'
  assume eq: "ip_string i = ip_string j" and i: "i = (a, b, c, d)" and j: "j = (a', b', c', d')"
  note split = append_sep_cancel [OF itoa_no_dot itoa_no_dot]
  from eq i j have "itoa (unat a) @ CHR ''.'' # (itoa (unat b) @ CHR ''.'' # (itoa (unat c) @ CHR ''.'' # itoa (unat d)))
      = itoa (unat a') @ CHR ''.'' # (itoa (unat b') @ CHR ''.'' # (itoa (unat c') @ CHR ''.'' # itoa (unat d')))"
    by simp
  then have a: "itoa (unat a) = itoa (unat a')"
    and r1: "itoa (unat b) @ CHR ''.'' # (itoa (unat c) @ CHR ''.'' # itoa (unat d))
      = itoa (unat b') @ CHR ''.'' # (itoa (unat c') @ CHR ''.'' # itoa (unat d'))"
    using split by blast+
  from r1 have b: "itoa (unat b) = itoa (unat b')"
    and r2: "itoa (unat c) @ CHR ''.'' # itoa (unat d) = itoa (unat c') @ CHR ''.'' # itoa (unat d')"
    using split by blast+
  from r2 have c: "itoa (unat c) = itoa (unat c')" and d: "itoa (unat d) = itoa (unat d')"
    using split by blast+
  from a b c d show "i = j" by (simp add: i j word_unat_eq_iff)
qed

lemma GetIP_advances: "ip_nat (snd (GetIP i)) = (ip_nat i + 1) mod 2 ^ 32"
proof -
  have "unat (ip_uint i + 1) = ip_nat i + 1"
    using ip_nat_less [of i] by (simp add: unat_word_ariths unat_ip_uint)
  then show ?thesis
    by (simp add: GetIP_def Let_def ip_nat_bytes_of_uint)
qed

lemma GetIP_fst: "fst (GetIP i) = ip_string i"
  by (simp add: GetIP_def Let_def)

section \<open>Sources of identifiers\<close>

text \<open>
  What a caller that labels objects with drawn identifiers relies on: a source with a state
  counter modulo \<open>period\<close>, that each draw advances by one, and whose draws at different
  counters differ. Inside the locale: the first \<open>period\<close> draws are pairwise distinct.
\<close>

fun draws :: "('s \<Rightarrow> 'a \<times> 's) \<Rightarrow> nat \<Rightarrow> 's \<Rightarrow> 'a list" where
  "draws f 0 s = []"
| "draws f (Suc n) s = fst (f s) # draws f n (snd (f s))"

lemma length_draws [simp]: "length (draws f n s) = n"
  by (induction n arbitrary: s) auto

locale id_source =
  fixes draw :: "'s \<Rightarrow> 'a \<times> 's"
    and count :: "'s \<Rightarrow> nat"
    and period :: nat
  assumes draw_advances: "count (snd (draw s)) = (count s + 1) mod period"
    and draw_inj: "fst (draw s) = fst (draw t) \<Longrightarrow> count s = count t"
    and count_less: "count s < period"
begin

lemma draws_member:
  "x \<in> set (draws draw n s) \<Longrightarrow> \<exists>k t. k < n \<and> x = fst (draw t) \<and> count t = (count s + k) mod period"
proof (induction n arbitrary: s)
  case 0
  then show ?case by simp
next
  case (Suc n)
  consider (first) "x = fst (draw s)" | (later) "x \<in> set (draws draw n (snd (draw s)))"
    using Suc.prems by auto
  then show ?case
  proof cases
    case first
    then show ?thesis
      by (intro exI [of _ 0] exI [of _ s]) (simp add: mod_less count_less)
  next
    case later
    then obtain k t where "k < n" "x = fst (draw t)"
      "count t = (count (snd (draw s)) + k) mod period"
      using Suc.IH by blast
    then show ?thesis
      by (intro exI [of _ "Suc k"] exI [of _ t]) (simp add: draw_advances mod_add_left_eq)
  qed
qed

lemma distinct_draws: "n \<le> period \<Longrightarrow> distinct (draws draw n s)"
proof (induction n arbitrary: s)
  case 0
  then show ?case by simp
next
  case (Suc n)
  have "fst (draw s) \<notin> set (draws draw n (snd (draw s)))"
  proof
    assume "fst (draw s) \<in> set (draws draw n (snd (draw s)))"
    then obtain k t where k: "k < n" and eq: "fst (draw s) = fst (draw t)"
      and t: "count t = (count (snd (draw s)) + k) mod period"
      using draws_member by blast
    have "count s = (count s + Suc k) mod period"
      using draw_inj [OF eq] t by (simp add: draw_advances mod_add_left_eq)
    moreover have "Suc k < period" using k Suc.prems by simp
    ultimately show False
      using count_less [of s]
      by (cases "count s + Suc k < period") (auto simp: le_mod_geq mod_less)
  qed
  then show ?case using Suc by simp
qed

end

interpretation ips: id_source GetIP ip_nat "2 ^ 32"
proof
  show "ip_nat (snd (GetIP s)) = (ip_nat s + 1) mod 2 ^ 32" for s
    by (rule GetIP_advances)
  show "fst (GetIP s) = fst (GetIP t) \<Longrightarrow> ip_nat s = ip_nat t" for s t
    by (auto simp only: GetIP_fst dest: ip_string_inject)
  show "ip_nat s < 2 ^ 32" for s
    by (rule ip_nat_less)
qed

end
