(* ===== verification/Sim_Model.thy ===== *)
theory Sim_Model
  imports Util
begin

text \<open>
  The package \<open>pkg/simulation/model\<close>: application types, the \<open>Simulation\<close> interface and
  the aggregate simulation that runs and cleans up a list of them, in sequence or in
  parallel. The world \<open>'w\<close> is everything outside the simulation objects (API server,
  clock, context); a simulation object is a value that its own operations return updated.
\<close>

section \<open>Application types\<close>

type_synonym AppType = string

definition PlainType :: AppType where "PlainType = ''plain''"
definition SidecarType :: AppType where "SidecarType = ''sidecar''"
definition AmbientType :: AppType where "AmbientType = ''ambient''"
definition WaypointType :: AppType where "WaypointType = ''waypoint''"
definition GatewayType :: AppType where "GatewayType = ''gateway''"
definition ExternalType :: AppType where "ExternalType = ''external''"
definition ZtunnelType :: AppType where "ZtunnelType = ''ztunnel''"
definition VMType :: AppType where "VMType = ''vm''"

lemmas app_type_defs [go_defs] = PlainType_def SidecarType_def AmbientType_def WaypointType_def
  GatewayType_def ExternalType_def ZtunnelType_def VMType_def

definition HasProxy :: "AppType \<Rightarrow> bool" where
  "HasProxy p \<longleftrightarrow> p = SidecarType \<or> p = GatewayType \<or> p = WaypointType"

section \<open>The context\<close>

text \<open>
  The clock and the cancellation of a \<open>context.Context\<close> live in the world. \<open>ctx_done\<close> is
  util.IsDone (a non-blocking look at \<open>ctx.Done()\<close>); \<open>ctx_sleep d\<close> is util.ContextSleep,
  which returns after \<open>d\<close> or as soon as the context is cancelled.
\<close>

record 'w runtime =
  ctx_done :: "'w \<Rightarrow> bool"
  ctx_sleep :: "int \<Rightarrow> 'w \<Rightarrow> 'w"

definition IsDone :: "'w runtime \<Rightarrow> 'w \<Rightarrow> bool" where
  "IsDone rt w = ctx_done rt w"

definition ContextSleep :: "'w runtime \<Rightarrow> int \<Rightarrow> 'w \<Rightarrow> 'w" where
  "ContextSleep rt dur w = ctx_sleep rt dur w"

section \<open>The Simulation interface and its aggregate\<close>

type_synonym ('sim, 'w) action = "'sim \<Rightarrow> 'w \<Rightarrow> ('sim \<times> 'w \<times> gerror option) outcome"

record 'sim AggregateSimulation =
  Simulations :: "'sim list"
  Delay :: int

text \<open>
  ReverseSimulations swaps in place, index by index; \<open>reverse_loop n i\<close> is the loop from
  index \<open>i\<close> with \<open>n\<close> iterations left.
\<close>

fun reverse_loop :: "nat \<Rightarrow> nat \<Rightarrow> 'a list \<Rightarrow> 'a list" where
  "reverse_loop 0 i sims = sims"
| "reverse_loop (Suc n) i sims =
     (let j = length sims - i - 1
      in reverse_loop n (i + 1) (sims[i := sims ! j, j := sims ! i]))"

definition ReverseSimulations :: "'a list \<Rightarrow> 'a list" where
  "ReverseSimulations sims = reverse_loop (length sims div 2) 0 sims"

text \<open>
  \<open>Run\<close> stops before the next simulation once the context is done (returning nil), and at
  the first error; otherwise it waits \<open>Delay\<close> and goes on. \<open>tn\<close> is the type name that
  \<open>%T\<close> prints.
\<close>

fun run_seq :: "'w runtime \<Rightarrow> ('sim \<Rightarrow> string) \<Rightarrow> ('sim, 'w) action \<Rightarrow> int \<Rightarrow>
    'sim list \<Rightarrow> 'w \<Rightarrow> ('sim list \<times> 'w \<times> gerror option) outcome" where
  "run_seq rt tn run d [] w = Returns ([], w, None)"
| "run_seq rt tn run d (s # ss) w =
     (if IsDone rt w then Returns (s # ss, w, None)
      else obind (run s w) (\<lambda>(s', w', e).
        case e of
          Some err \<Rightarrow>
            Returns (s' # ss, w', Some (ErrV (''failed running simulation '' @ tn s' @ '': '') err))
        | None \<Rightarrow>
            obind (run_seq rt tn run d ss (ContextSleep rt d w'))
              (\<lambda>(ss', w'', e'). Returns (s' # ss', w'', e'))))"

definition agg_Run :: "'w runtime \<Rightarrow> ('sim \<Rightarrow> string) \<Rightarrow> ('sim, 'w) action \<Rightarrow>
    ('sim AggregateSimulation, 'w) action" where
  "agg_Run rt tn run a w =
     obind (run_seq rt tn run (Delay a) (Simulations a) w)
       (\<lambda>(ss, w', e). Returns (a\<lparr>Simulations := ss\<rparr>, w', e))"

text \<open>\<open>Cleanup\<close> goes through all simulations, whatever fails, and combines the errors.\<close>

fun cleanup_seq :: "('sim \<Rightarrow> string) \<Rightarrow> ('sim, 'w) action \<Rightarrow> 'sim list \<Rightarrow> 'w \<Rightarrow>
    gerror option \<Rightarrow> ('sim list \<times> 'w \<times> gerror option) outcome" where
  "cleanup_seq tn cleanup [] w errs = Returns ([], w, errs)"
| "cleanup_seq tn cleanup (s # ss) w errs =
     obind (cleanup s w) (\<lambda>(s', w', e).
       let errs' = (case e of None \<Rightarrow> errs
           | Some err \<Rightarrow>
               AddError errs (Some (ErrV (''failed cleaning simulation '' @ tn s' @ '': '') err)))
       in obind (cleanup_seq tn cleanup ss w' errs')
            (\<lambda>(ss', w'', e'). Returns (s' # ss', w'', e')))"

definition agg_Cleanup :: "('sim \<Rightarrow> string) \<Rightarrow> ('sim, 'w) action \<Rightarrow>
    ('sim AggregateSimulation, 'w) action" where
  "agg_Cleanup tn cleanup a w =
     obind (cleanup_seq tn cleanup (Simulations a) w None)
       (\<lambda>(ss, w', e). Returns (a\<lparr>Simulations := ss\<rparr>, w', e))"


section \<open>Parallel aggregation\<close>

text \<open>
  The parallel variants start one goroutine per simulation and wait for all of them. A run is
  described by its schedule: \<open>Launch\<close> is one turn of the starting loop (start the next
  goroutine, and for RunParallel sleep \<open>Delay\<close>), \<open>Exec i\<close> is the effect of the i-th
  goroutine's call. A schedule is possible when goroutines execute only once and only after
  their launch, when at most \<open>lim\<close> launched goroutines are unfinished (the errgroup's
  SetLimit), and when at its end all have been launched and have finished (Wait).
\<close>

datatype par_event = Launch | Exec nat

fun possible :: "nat option \<Rightarrow> nat \<Rightarrow> nat \<Rightarrow> nat list \<Rightarrow> par_event list \<Rightarrow> bool" where
  "possible lim n l d [] \<longleftrightarrow> l = n \<and> length d = n"
| "possible lim n l d (Launch # es) \<longleftrightarrow>
     l < n \<and> (case lim of None \<Rightarrow> True | Some k \<Rightarrow> l - length d < k) \<and> possible lim n (Suc l) d es"
| "possible lim n l d (Exec i # es) \<longleftrightarrow> i < l \<and> i \<notin> set d \<and> possible lim n l (i # d) es"

text \<open>Wait returns the first error, in the order in which the goroutines failed.\<close>

fun run_par :: "string \<Rightarrow> ('sim \<Rightarrow> string) \<Rightarrow> ('sim, 'w) action \<Rightarrow> ('w \<Rightarrow> 'w) \<Rightarrow> par_event list \<Rightarrow>
    'sim list \<Rightarrow> 'w \<Rightarrow> gerror option \<Rightarrow> ('sim list \<times> 'w \<times> gerror option) outcome" where
  "run_par what tn act pause [] sims w err = Returns (sims, w, err)"
| "run_par what tn act pause (Launch # es) sims w err =
     run_par what tn act pause es sims (pause w) err"
| "run_par what tn act pause (Exec i # es) sims w err =
     obind (act (sims ! i) w) (\<lambda>(s', w', e).
       run_par what tn act pause es (sims[i := s']) w'
         (case err of Some _ \<Rightarrow> err
          | None \<Rightarrow> map_option (ErrV (what @ tn s' @ '': '')) e))"

definition agg_RunParallel :: "par_event list \<Rightarrow> 'w runtime \<Rightarrow> ('sim \<Rightarrow> string) \<Rightarrow> ('sim, 'w) action \<Rightarrow>
    ('sim AggregateSimulation, 'w) action" where
  "agg_RunParallel es rt tn run a w =
     obind (run_par ''failed running simulation '' tn run (ContextSleep rt (Delay a)) es
              (Simulations a) w None)
       (\<lambda>(ss, w', e). Returns (a\<lparr>Simulations := ss\<rparr>, w', e))"

definition agg_CleanupParallel :: "par_event list \<Rightarrow> ('sim \<Rightarrow> string) \<Rightarrow> ('sim, 'w) action \<Rightarrow>
    ('sim AggregateSimulation, 'w) action" where
  "agg_CleanupParallel es tn cleanup a w =
     obind (run_par ''failed cleaning simulation '' tn cleanup (\<lambda>w. w) es (Simulations a) w None)
       (\<lambda>(ss, w', e). Returns (a\<lparr>Simulations := ss\<rparr>, w', e))"

definition RunParallel_possible :: "nat \<Rightarrow> par_event list \<Rightarrow> bool" where
  "RunParallel_possible n es \<longleftrightarrow> possible None n 0 [] es"

definition CleanupParallel_possible :: "nat \<Rightarrow> par_event list \<Rightarrow> bool" where
  "CleanupParallel_possible n es \<longleftrightarrow> possible (Some 100) n 0 [] es"

section \<open>Reversal\<close>

lemma reverse_loop_nth:
  "i + n \<le> length xs div 2 \<Longrightarrow>
   length (reverse_loop n i xs) = length xs \<and>
   (\<forall>k < length xs. reverse_loop n i xs ! k =
      (if (i \<le> k \<and> k < i + n) \<or> (i \<le> length xs - 1 - k \<and> length xs - 1 - k < i + n)
       then xs ! (length xs - 1 - k) else xs ! k))"
proof (induction n arbitrary: i xs)
  case 0
  then show ?case by auto
next
  case (Suc n)
  define j where "j = length xs - i - 1"
  define ys where "ys = xs[i := xs ! j, j := xs ! i]"
  have len: "length ys = length xs" by (simp add: ys_def)
  have ij: "i < j" "j < length xs" using Suc.prems by (auto simp: j_def)
  have "i + 1 + n \<le> length ys div 2" using Suc.prems len by simp
  from Suc.IH [OF this] have IH: "length (reverse_loop n (i + 1) ys) = length xs"
    "\<And>k. k < length xs \<Longrightarrow> reverse_loop n (i + 1) ys ! k =
      (if (i + 1 \<le> k \<and> k < i + 1 + n) \<or> (i + 1 \<le> length xs - 1 - k \<and> length xs - 1 - k < i + 1 + n)
       then ys ! (length xs - 1 - k) else ys ! k)"
    by (auto simp: len)
  have step: "reverse_loop (Suc n) i xs = reverse_loop n (i + 1) ys"
    by (simp add: ys_def j_def Let_def)
  have ysn: "ys ! k = (if k = i then xs ! j else if k = j then xs ! i else xs ! k)" if "k < length xs" for k
    using ij that by (auto simp: ys_def nth_list_update)
  have jk: "length xs - 1 - k = i \<longleftrightarrow> k = j" if "k < length xs" for k
    using ij that by (auto simp: j_def)
  have kj: "length xs - 1 - i = j" by (simp add: j_def)
  show ?case
    unfolding step
  proof (intro conjI allI impI)
    show "length (reverse_loop n (i + 1) ys) = length xs" by (rule IH)
    fix k assume k: "k < length xs"
    have k': "length xs - 1 - k < length xs" using k by simp
    consider "k = i" | "k = j" | "k \<noteq> i" "k \<noteq> j" by blast
    then show "reverse_loop n (i + 1) ys ! k =
      (if (i \<le> k \<and> k < i + Suc n) \<or> (i \<le> length xs - 1 - k \<and> length xs - 1 - k < i + Suc n)
       then xs ! (length xs - 1 - k) else xs ! k)"
    proof cases
      case 1
      then show ?thesis
        using IH(2) [OF k] ysn [OF k] ysn [OF k'] jk [OF k] ij Suc.prems by (auto simp: j_def)
    next
      case 2
      then show ?thesis
        using IH(2) [OF k] ysn [OF k] ysn [OF k'] jk [OF k] ij Suc.prems by (auto simp: j_def)
    next
      case 3
      have "length xs - 1 - k \<noteq> j" using 3 kj k k' ij by (auto simp: j_def)
      then show ?thesis
        using 3 IH(2) [OF k] ysn [OF k] ysn [OF k'] jk [OF k] by auto
    qed
  qed
qed

lemma ReverseSimulations_rev [simp]: "ReverseSimulations xs = rev xs"
proof (rule nth_equalityI)
  note loop = reverse_loop_nth [of 0 "length xs div 2" xs, simplified]
  show "length (ReverseSimulations xs) = length (rev xs)"
    using loop by (simp add: ReverseSimulations_def)
  fix k assume "k < length (ReverseSimulations xs)"
  then have k: "k < length xs" using loop by (simp add: ReverseSimulations_def)
  then have "length xs - 1 - k < length xs div 2 \<or> k < length xs div 2 \<or> length xs - 1 - k = k"
    by arith
  then show "ReverseSimulations xs ! k = rev xs ! k"
    using loop k by (auto simp: ReverseSimulations_def rev_nth)
qed


section \<open>Schedules\<close>

fun execs :: "par_event list \<Rightarrow> nat list" where
  "execs [] = []"
| "execs (Launch # es) = execs es"
| "execs (Exec i # es) = i # execs es"

lemma possible_execs:
  "possible lim n l d es \<Longrightarrow> distinct d \<Longrightarrow> set d \<subseteq> {..<l} \<Longrightarrow> l \<le> n \<Longrightarrow>
     distinct (execs es) \<and> set (execs es) \<inter> set d = {} \<and> set (execs es) \<union> set d = {..<n}"
proof (induction lim n l d es rule: possible.induct)
  case (1 lim n l d)
  have "card (set d) = n" using 1 by (simp add: distinct_card)
  moreover have "set d \<subseteq> {..<n}" using 1 by auto
  ultimately have "set d = {..<n}" by (simp add: card_subset_eq)
  then show ?case by simp
next
  case (2 lim n l d es)
  have "set d \<subseteq> {..<Suc l}" using "2.prems"(3) by auto
  then show ?case using 2 by simp
next
  case (3 lim n l d i es)
  have p: "possible lim n l (i # d) es" and i: "i < l" "i \<notin> set d"
    using "3.prems"(1) by auto
  have "distinct (i # d)" and "set (i # d) \<subseteq> {..<l}" using i "3.prems"(2,3) by auto
  from "3.IH" [OF p this "3.prems"(4)] i show ?case by auto
qed

lemma RunParallel_execs:
  "RunParallel_possible n es \<Longrightarrow> distinct (execs es) \<and> set (execs es) = {..<n}"
  using possible_execs [of None n 0 "[]" es] by (simp add: RunParallel_possible_def)

lemma CleanupParallel_execs:
  "CleanupParallel_possible n es \<Longrightarrow> distinct (execs es) \<and> set (execs es) = {..<n}"
  using possible_execs [of "Some 100" n 0 "[]" es] by (simp add: CleanupParallel_possible_def)

lemma run_par_length:
  "run_par what tn act pause es sims w err = Returns (sims', w', e) \<Longrightarrow> length sims' = length sims"
proof (induction what tn act pause es sims w err arbitrary: sims' w' e rule: run_par.induct)
  case (3 what tn act pause i es sims w err)
  then show ?case by (fastforce simp: obind_Returns_iff)
qed auto

text \<open>What every call keeps of an object, the whole parallel run keeps.\<close>

lemma run_par_all2:
  assumes "\<And>s w s' w' e. act s w = Returns (s', w', e) \<Longrightarrow> P s s'" and "reflp P" and "transp P"
  shows "run_par what tn act pause es sims w err = Returns (sims', w', e) \<Longrightarrow> list_all2 P sims sims'"
proof (induction es arbitrary: sims w err)
  case Nil
  then show ?case using assms(2) by (simp add: list.rel_refl reflpD)
next
  case (Cons ev es)
  show ?case
  proof (cases ev)
    case Launch
    then show ?thesis using Cons by auto
  next
    case (Exec i)
    obtain s1 w1 e1 where r: "act (sims ! i) w = Returns (s1, w1, e1)"
      using Cons.prems Exec by (auto simp: obind_Returns_iff)
    then have rest: "list_all2 P (sims[i := s1]) sims'"
      using Cons Exec by (auto simp: obind_Returns_iff)
    have "list_all2 P sims (sims[i := s1])"
    proof (cases "i < length sims")
      case True
      then show ?thesis using assms(1) [OF r] assms(2)
        by (auto simp: list_all2_conv_all_nth nth_list_update dest: reflpD)
    next
      case False
      then show ?thesis using assms(2) by (simp add: list.rel_refl reflpD list_update_beyond)
    qed
    then show ?thesis using list_all2_trans [of P P P sims "sims[i := s1]" sims'] rest assms(3)
      by (meson transpE)
  qed
qed

lemma run_seq_all2:
  assumes "\<And>s w s' w' e. run s w = Returns (s', w', e) \<Longrightarrow> P s s'" and "reflp P"
  shows "run_seq rt tn run d ss w = Returns (ss', w', e) \<Longrightarrow> list_all2 P ss ss'"
proof (induction ss arbitrary: w ss' w' e)
  case (Cons s ss)
  note refl = list.rel_refl [of P, OF reflpD [OF assms(2)]]
  show ?case
  proof (cases "IsDone rt w")
    case True
    then show ?thesis using Cons.prems refl assms(2) by (auto dest: reflpD)
  next
    case False
    then obtain s1 w1 e1 where r: "run s w = Returns (s1, w1, e1)"
      using Cons.prems by (auto simp: obind_Returns_iff)
    show ?thesis
    proof (cases e1)
      case None
      then show ?thesis using Cons False r assms(1) [OF r] by (auto simp: obind_Returns_iff)
    next
      case (Some err)
      then show ?thesis using Cons.prems False r assms(1) [OF r] refl by auto
    qed
  qed
qed simp

lemma cleanup_seq_all2:
  assumes "\<And>s w s' w' e. cleanup s w = Returns (s', w', e) \<Longrightarrow> P s s'"
  shows "cleanup_seq tn cleanup ss w errs = Returns (ss', w', e) \<Longrightarrow> list_all2 P ss ss'"
proof (induction ss arbitrary: w errs ss' w' e)
  case (Cons s ss)
  then show ?case using assms by (auto simp: obind_Returns_iff Let_def)
qed simp

section \<open>The interface\<close>

text \<open>
  What Cleanup alone promises: it adds nothing, forgets nothing, and after a Cleanup without an error
  nothing the object owns is left.
\<close>

locale cleanable =
  fixes cleanup :: "('sim, 'w) action"
    and owned :: "'sim \<Rightarrow> 'k set"
    and live :: "'w \<Rightarrow> 'k set"
    and env_ok :: bool
  assumes clean_live: "env_ok \<Longrightarrow> cleanup s w = Returns (s', w', e) \<Longrightarrow> live w' \<subseteq> live w"
    and clean_removes: "env_ok \<Longrightarrow> cleanup s w = Returns (s', w', None) \<Longrightarrow> live w' \<inter> owned s = {}"
    and clean_owned: "env_ok \<Longrightarrow> cleanup s w = Returns (s', w', e) \<Longrightarrow> owned s' = owned s"
begin

abbreviation all_owned :: "'sim list \<Rightarrow> 'k set" where
  "all_owned ss \<equiv> \<Union> (owned ` set ss)"

lemma cleanup_seq_live:
  assumes env_ok
  shows "cleanup_seq tn cleanup ss w errs = Returns (ss', w', e) \<Longrightarrow>
     live w' \<subseteq> live w \<and> all_owned ss' = all_owned ss \<and>
     (e = None \<longrightarrow> errs = None \<and> live w' \<inter> all_owned ss = {})"
proof (induction ss arbitrary: w errs ss' w' e)
  case Nil
  then show ?case by simp
next
  case (Cons s ss)
  from Cons.prems obtain s1 w1 e1 where c: "cleanup s w = Returns (s1, w1, e1)"
    by (auto simp: obind_Returns_iff)
  define errs1 where "errs1 = (case e1 of None \<Rightarrow> errs
    | Some err \<Rightarrow> AddError errs (Some (ErrV (''failed cleaning simulation '' @ tn s1 @ '': '') err)))"
  from Cons.prems c obtain ss2 where rest: "cleanup_seq tn cleanup ss w1 errs1 = Returns (ss2, w', e)"
    and ss': "ss' = s1 # ss2"
    by (auto simp: obind_Returns_iff errs1_def Let_def)
  have IH: "live w' \<subseteq> live w1 \<and> all_owned ss2 = all_owned ss \<and>
      (e = None \<longrightarrow> errs1 = None \<and> live w' \<inter> all_owned ss = {})"
    using Cons.IH [OF rest] .
  have "live w1 \<subseteq> live w" and "owned s1 = owned s"
    using clean_live [OF assms(1) c] clean_owned [OF assms(1) c] .
  moreover have "errs = None \<and> live w1 \<inter> owned s = {}" if "errs1 = None"
    using that c clean_removes [OF assms(1), of s w s1 w1] by (cases e1) (auto simp: errs1_def)
  ultimately show ?case using IH ss' by (auto 4 3)
qed

lemma agg_Cleanup_live:
  "env_ok \<Longrightarrow> agg_Cleanup tn cleanup a w = Returns (a', w', e) \<Longrightarrow>
     live w' \<subseteq> live w \<and> (e = None \<longrightarrow> live w' \<inter> all_owned (Simulations a) = {})"
  by (auto simp: agg_Cleanup_def obind_Returns_iff dest!: cleanup_seq_live [rotated])

end

text \<open>
  What a caller of a \<open>Simulation\<close> relies on. \<open>owned s\<close> is what the simulation object has
  created and would remove; \<open>live w\<close> is what exists in the world. Run adds at most what the
  object then owns; Cleanup adds nothing, forgets nothing, and after a Cleanup without an
  error nothing the object owns is left. Waiting adds nothing. \<open>env_ok\<close> is the documented behaviour
  of the environment that a provider's laws may depend on.
\<close>

locale simulation =
  fixes run cleanup :: "('sim, 'w) action"
    and owned :: "'sim \<Rightarrow> 'k set"
    and live :: "'w \<Rightarrow> 'k set"
    and rt :: "'w runtime"
    and env_ok :: bool
  assumes run_live: "env_ok \<Longrightarrow> run s w = Returns (s', w', e) \<Longrightarrow> live w' \<subseteq> live w \<union> owned s'"
    and cleanup_live: "env_ok \<Longrightarrow> cleanup s w = Returns (s', w', e) \<Longrightarrow> live w' \<subseteq> live w"
    and cleanup_removes: "env_ok \<Longrightarrow> cleanup s w = Returns (s', w', None) \<Longrightarrow> live w' \<inter> owned s = {}"
    and cleanup_owned: "env_ok \<Longrightarrow> cleanup s w = Returns (s', w', e) \<Longrightarrow> owned s' = owned s"
    and sleep_live: "env_ok \<Longrightarrow> live (ctx_sleep rt d w) \<subseteq> live w"

sublocale simulation \<subseteq> cleanable cleanup owned live env_ok
  by unfold_locales (use cleanup_live cleanup_removes cleanup_owned in blast)+

context simulation
begin

lemma run_seq_live:
  assumes env_ok
  shows "run_seq rt tn run d ss w = Returns (ss', w', e) \<Longrightarrow> live w' \<subseteq> live w \<union> all_owned ss'"
proof (induction ss arbitrary: w ss' w' e)
  case Nil
  then show ?case by simp
next
  case (Cons s ss)
  show ?case
  proof (cases "IsDone rt w")
    case True
    with Cons.prems show ?thesis by auto
  next
    case False
    then obtain s1 w1 e1 where r: "run s w = Returns (s1, w1, e1)"
      using Cons.prems by (auto simp: obind_Returns_iff)
    note live1 = run_live [OF assms(1) r]
    show ?thesis
    proof (cases e1)
      case None
      then obtain ss2 where rest: "run_seq rt tn run d ss (ContextSleep rt d w1) = Returns (ss2, w', e)"
        and ss': "ss' = s1 # ss2"
        using Cons.prems False r by (auto simp: obind_Returns_iff)
      have "live w' \<subseteq> live w1 \<union> all_owned ss2"
        using Cons.IH [OF rest] sleep_live [OF assms(1), of d w1] by (auto simp: ContextSleep_def)
      then show ?thesis using live1 ss' by auto
    next
      case (Some err)
      then show ?thesis using Cons.prems False r live1 by auto
    qed
  qed
qed

lemma agg_Run_live:
  "env_ok \<Longrightarrow> agg_Run rt tn run a w = Returns (a', w', e) \<Longrightarrow> live w' \<subseteq> live w \<union> all_owned (Simulations a')"
  by (auto simp: agg_Run_def obind_Returns_iff dest!: run_seq_live [rotated])

text \<open>Run, with or without an error, then a clean Cleanup: nothing of what Run made is left.\<close>

lemma run_then_cleanup_seq:
  assumes ok: env_ok and "agg_Run rt tn run a w = Returns (a1, w1, e1)"
    and "agg_Cleanup tn cleanup a1 w1 = Returns (a2, w2, None)"
  shows "live w2 \<subseteq> live w"
  using agg_Run_live [OF ok assms(2)] agg_Cleanup_live [OF ok assms(3)] by blast

lemma run_par_live:
  assumes env_ok and "\<And>v. live (pause v) \<subseteq> live v"
  shows "run_par what tn run pause es sims w err = Returns (sims', w', e) \<Longrightarrow>
    distinct (execs es) \<Longrightarrow> set (execs es) \<subseteq> {..<length sims} \<Longrightarrow>
    live w' \<subseteq> live w \<union> all_owned sims' \<and> (\<forall>i. i \<notin> set (execs es) \<longrightarrow> sims' ! i = sims ! i)"
proof (induction es arbitrary: sims w err sims' w' e)
  case Nil
  then show ?case by auto
next
  case (Cons ev es)
  show ?case
  proof (cases ev)
    case Launch
    have "run_par what tn run pause es sims (pause w) err = Returns (sims', w', e)"
      using Cons.prems(1) Launch by simp
    moreover have "distinct (execs es)" "set (execs es) \<subseteq> {..<length sims}"
      using Cons.prems(2,3) Launch by auto
    ultimately show ?thesis using Cons.IH assms(2) [of w] Launch by fastforce
  next
    case (Exec i)
    obtain s1 w1 e1 where r: "run (sims ! i) w = Returns (s1, w1, e1)"
      using Cons.prems(1) Exec by (auto simp: obind_Returns_iff)
    then obtain err1 where rest: "run_par what tn run pause es (sims[i := s1]) w1 err1 = Returns (sims', w', e)"
      using Cons.prems(1) Exec by (auto simp: obind_Returns_iff)
    have es: "distinct (execs es)" "set (execs es) \<subseteq> {..<length (sims[i := s1])}" "i \<notin> set (execs es)"
      and i: "i < length sims"
      using Cons.prems(2,3) Exec by auto
    note IH = Cons.IH [OF rest es(1,2)]
    have len: "length sims' = length sims" using run_par_length [OF rest] by simp
    have "sims' ! i = s1" using IH es(3) i by auto
    then have "owned s1 \<subseteq> all_owned sims'" using i len by (metis UN_upper nth_mem)
    then have "live w' \<subseteq> live w \<union> all_owned sims'" using IH run_live [OF assms(1) r] by auto
    then show ?thesis using IH Exec by auto
  qed
qed

lemma cleanup_par_live:
  assumes env_ok and "\<And>v. live (pause v) \<subseteq> live v"
  shows "run_par what tn cleanup pause es sims w err = Returns (sims', w', e) \<Longrightarrow>
    distinct (execs es) \<Longrightarrow> set (execs es) \<subseteq> {..<length sims} \<Longrightarrow>
    live w' \<subseteq> live w \<and> map owned sims' = map owned sims \<and>
    (e = None \<longrightarrow> err = None \<and> (\<forall>i \<in> set (execs es). live w' \<inter> owned (sims ! i) = {}))"
proof (induction es arbitrary: sims w err sims' w' e)
  case Nil
  then show ?case by auto
next
  case (Cons ev es)
  show ?case
  proof (cases ev)
    case Launch
    have "run_par what tn cleanup pause es sims (pause w) err = Returns (sims', w', e)"
      using Cons.prems(1) Launch by simp
    moreover have "distinct (execs es)" "set (execs es) \<subseteq> {..<length sims}"
      using Cons.prems(2,3) Launch by auto
    ultimately show ?thesis using Cons.IH assms(2) [of w] Launch by fastforce
  next
    case (Exec i)
    obtain s1 w1 e1 where r: "cleanup (sims ! i) w = Returns (s1, w1, e1)"
      using Cons.prems(1) Exec by (auto simp: obind_Returns_iff)
    define err1 where "err1 = (case err of Some _ \<Rightarrow> err
      | None \<Rightarrow> map_option (ErrV (what @ tn s1 @ '': '')) e1)"
    have rest: "run_par what tn cleanup pause es (sims[i := s1]) w1 err1 = Returns (sims', w', e)"
      using Cons.prems(1) Exec r by (simp add: err1_def)
    have es: "distinct (execs es)" "set (execs es) \<subseteq> {..<length (sims[i := s1])}" "i \<notin> set (execs es)"
      and i: "i < length sims"
      using Cons.prems(2,3) Exec by auto
    note IH = Cons.IH [OF rest es(1,2)]
    have own: "map owned (sims[i := s1]) = map owned sims"
      using cleanup_owned [OF assms(1) r] i by (simp add: map_update list_update_same_conv)
    have none: "err = None \<and> e1 = None" if "err1 = None"
      using that by (auto simp: err1_def split: option.splits)
    have keep: "sims[i := s1] ! k = sims ! k" if "k \<in> set (execs es)" for k
      using that es(3) by (metis nth_list_update_neq)
    show ?thesis
      using IH own none keep cleanup_live [OF assms(1) r] cleanup_removes [OF assms(1), of "sims ! i" w s1 w1] r Exec
      by (auto 4 3)
  qed
qed

lemma agg_RunParallel_live:
  assumes ok: env_ok and "agg_RunParallel es rt tn run a w = Returns (a', w', e)"
    and "RunParallel_possible (length (Simulations a)) es"
  shows "live w' \<subseteq> live w \<union> all_owned (Simulations a')"
proof -
  obtain ss' where r: "run_par ''failed running simulation '' tn run (ContextSleep rt (Delay a)) es
      (Simulations a) w None = Returns (ss', w', e)" and a': "a' = a\<lparr>Simulations := ss'\<rparr>"
    using assms(2) by (auto simp: agg_RunParallel_def obind_Returns_iff)
  have "live (ContextSleep rt (Delay a) v) \<subseteq> live v" for v
    using sleep_live [OF ok] by (simp add: ContextSleep_def)
  then have "live w' \<subseteq> live w \<union> all_owned ss'"
    using run_par_live [OF ok _ r] RunParallel_execs [OF assms(3)] by auto
  then show ?thesis by (simp add: a')
qed

lemma agg_CleanupParallel_live:
  assumes ok: env_ok and "agg_CleanupParallel es tn cleanup a w = Returns (a', w', e)"
    and "CleanupParallel_possible (length (Simulations a)) es"
  shows "live w' \<subseteq> live w \<and> (e = None \<longrightarrow> live w' \<inter> all_owned (Simulations a) = {})"
proof -
  obtain ss' where r: "run_par ''failed cleaning simulation '' tn cleanup (\<lambda>w. w) es (Simulations a) w None
      = Returns (ss', w', e)"
    using assms(2) by (auto simp: agg_CleanupParallel_def obind_Returns_iff)
  note ex = CleanupParallel_execs [OF assms(3)]
  have "live w' \<subseteq> live w" and
    none: "e = None \<Longrightarrow> \<forall>i < length (Simulations a). live w' \<inter> owned (Simulations a ! i) = {}"
    using cleanup_par_live [OF ok _ r] ex by auto
  moreover have "live w' \<inter> all_owned (Simulations a) = {}" if "e = None"
    using none [OF that] by (fastforce simp: in_set_conv_nth)
  ultimately show ?thesis by blast
qed

lemma run_then_cleanup_par:
  assumes ok: env_ok and "agg_RunParallel es rt tn run a w = Returns (a1, w1, e1)"
    and "RunParallel_possible (length (Simulations a)) es"
    and "agg_CleanupParallel es' tn cleanup (a1\<lparr>Simulations := rev (Simulations a1)\<rparr>) w1 = Returns (a2, w2, None)"
    and "CleanupParallel_possible (length (Simulations a1)) es'"
  shows "live w2 \<subseteq> live w"
proof -
  have "live w1 \<subseteq> live w \<union> all_owned (Simulations a1)"
    by (rule agg_RunParallel_live [OF ok assms(2,3)])
  moreover have "live w2 \<subseteq> live w1 \<and> live w2 \<inter> all_owned (Simulations a1) = {}"
    using agg_CleanupParallel_live [OF ok assms(4)] assms(5) by simp
  ultimately show ?thesis by blast
qed

end

text \<open>
  A simulation whose Cleanup returns once its Run has returned: no caller that cleans up what
  it has run can hang. \<open>ready s w\<close> says that the object \<open>s\<close> has what its Cleanup waits for; what
  other simulations of the kind do in the meantime does not take it away.
\<close>

locale stoppable_simulation =
  fixes run cleanup :: "('sim, 'w) action"
    and ready :: "'sim \<Rightarrow> 'w \<Rightarrow> bool"
    and rt :: "'w runtime"
  assumes run_ready: "run s w = Returns (s', w', e) \<Longrightarrow> ready s' w'"
    and run_keeps: "run s w = Returns (s', w', e) \<Longrightarrow> ready t w \<Longrightarrow> ready t w'"
    and cleanup_keeps: "cleanup s w = Returns (s', w', e) \<Longrightarrow> ready t w \<Longrightarrow> ready t w'"
    and sleep_keeps: "ready t w \<Longrightarrow> ready t (ctx_sleep rt d w)"
    and cleanup_returns: "ready s w \<Longrightarrow> \<exists>s' w' e. cleanup s w = Returns (s', w', e)"
begin

text \<open>\<open>run_seq\<close> with no error and without the context ending early has made every object ready.\<close>

lemma run_seq_keeps:
  "run_seq rt tn run d ss w = Returns (ss', w', e) \<Longrightarrow> ready t w \<Longrightarrow> ready t w'"
proof (induction ss arbitrary: w ss' w' e)
  case (Cons s ss)
  show ?case
  proof (cases "IsDone rt w")
    case True
    then show ?thesis using Cons.prems by simp
  next
    case False
    then obtain s1 w1 e1 where r: "run s w = Returns (s1, w1, e1)"
      using Cons.prems by (auto simp: obind_Returns_iff)
    note keep = run_keeps [OF r Cons.prems(2)]
    show ?thesis
    proof (cases e1)
      case None
      then obtain ss2 where "run_seq rt tn run d ss (ContextSleep rt d w1) = Returns (ss2, w', e)"
        using Cons.prems False r by (auto simp: obind_Returns_iff)
      then show ?thesis using Cons.IH sleep_keeps [OF keep] by (simp add: ContextSleep_def)
    next
      case (Some err)
      then show ?thesis using Cons.prems False r keep by simp
    qed
  qed
qed simp

lemma run_seq_ready:
  "run_seq rt tn run d ss w = Returns (ss', w', None) \<Longrightarrow> \<not> IsDone rt w' \<Longrightarrow>
   (\<And>v d. IsDone rt v \<Longrightarrow> IsDone rt (ctx_sleep rt d v)) \<Longrightarrow>
   (\<And>v s s' v' e. IsDone rt v \<Longrightarrow> run s v = Returns (s', v', e) \<Longrightarrow> IsDone rt v') \<Longrightarrow>
   \<forall>s \<in> set ss'. ready s w'"
proof (induction ss arbitrary: w ss')
  case (Cons s ss)
  show ?case
  proof (cases "IsDone rt w")
    case True
    then show ?thesis using Cons.prems by simp
  next
    case False
    then obtain s1 w1 e1 where r: "run s w = Returns (s1, w1, e1)"
      using Cons.prems by (auto simp: obind_Returns_iff)
    then obtain ss2 where rest: "run_seq rt tn run d ss (ContextSleep rt d w1) = Returns (ss2, w', None)"
      and ss': "ss' = s1 # ss2"
      using Cons.prems(1) False by (auto simp: obind_Returns_iff split: option.splits)
    have "ready s1 w'"
      using run_seq_keeps [OF rest] sleep_keeps [OF run_ready [OF r]] by (simp add: ContextSleep_def)
    then show ?thesis using Cons.IH [OF rest] Cons.prems ss' by simp
  qed
qed simp

lemma cleanup_seq_returns:
  "\<forall>s \<in> set ss. ready s w \<Longrightarrow> \<exists>r. cleanup_seq tn cleanup ss w errs = Returns r"
proof (induction ss arbitrary: w errs)
  case (Cons s ss)
  then obtain s1 w1 e1 where c: "cleanup s w = Returns (s1, w1, e1)"
    using cleanup_returns [of s w] by auto
  have "\<forall>t \<in> set ss. ready t w1" using cleanup_keeps [OF c] Cons.prems by simp
  then show ?case
    using Cons.IH c by (auto simp: obind_Returns_iff Let_def) (metis prod_cases3)
qed simp

lemma agg_Cleanup_returns:
  "\<forall>s \<in> set (Simulations a). ready s w \<Longrightarrow> \<exists>a' w' e. agg_Cleanup tn cleanup a w = Returns (a', w', e)"
  using cleanup_seq_returns [of "Simulations a" w tn None]
  by (auto simp: agg_Cleanup_def obind_Returns_iff)

lemma agg_Run_then_Cleanup_returns:
  assumes "agg_Run rt tn run a w = Returns (a1, w1, None)" and "\<not> IsDone rt w1"
    and "\<And>v d. IsDone rt v \<Longrightarrow> IsDone rt (ctx_sleep rt d v)"
    and "\<And>v s s' v' e. IsDone rt v \<Longrightarrow> run s v = Returns (s', v', e) \<Longrightarrow> IsDone rt v'"
  shows "\<exists>a2 w2 e. agg_Cleanup tn cleanup a1 w1 = Returns (a2, w2, e)"
proof (rule agg_Cleanup_returns)
  obtain ss where "run_seq rt tn run (Delay a) (Simulations a) w = Returns (ss, w1, None)"
    and "a1 = a\<lparr>Simulations := ss\<rparr>"
    using assms(1) by (auto simp: agg_Run_def obind_Returns_iff)
  then show "\<forall>s \<in> set (Simulations a1). ready s w1"
    using run_seq_ready [OF _ assms(2,3,4)] by simp
qed

end

end
