(* ===== verification/Xds_Messages.thy ===== *)
theory Xds_Messages
  imports Go_Prelude
begin

text \<open>
  The parts of the Envoy and xDS messages that the program reads or rewrites, and the
  decoding of \<open>anypb.Any\<close> values, which belongs to the protobuf library and is the
  parameter \<open>codec\<close>. Type URLs are compared for equality only, so the constants are the
  constructors of a datatype and every other URL is \<open>OtherType\<close>.
\<close>

datatype type_url =
    ListenerType | ClusterType | EndpointType | RouteType | SecretType | ExtensionConfigType
  | AddressType | WorkloadType | WorkloadAuthorizationType
  | HttpConnectionManagerType | DownstreamTlsType | QuicDownstreamType | UpstreamTlsType
  | OtherType string

record any =
  any_url :: type_url
  any_value :: string

section \<open>Transport sockets\<close>

text \<open>A config source: a file path, or something the program does not look into.\<close>

datatype configsource = PathSource string | OtherSource string

record sdsconfig =
  sds_name :: string
  sds_config :: "configsource option"

text \<open>The validation oneof of CommonTlsContext.\<close>

datatype validation =
    NoValidation
  | ValidationSds sdsconfig
  | CombinedValidation "sdsconfig option"

record commontls =
  tls_certSds :: "sdsconfig list"
  tls_validation :: validation

record transportsocket =
  ts_typedConfig :: "any option"

section \<open>Listeners and filters\<close>

record extconfigsource =
  ec_source :: "configsource option"
  ec_defaultConfig :: "any option"
  ec_applyWithoutWarming :: bool
  ec_typeUrls :: "string list"

datatype filterconfig = NoConfig | TypedConfig any | ConfigDiscovery extconfigsource

record netfilter =
  f_name :: string
  f_config :: filterconfig

record filterchain =
  fc_filters :: "netfilter list"
  fc_transportSocket :: "transportsocket option"

record listener =
  l_name :: string
  l_filterChains :: "filterchain list"
  l_defaultFilterChain :: "filterchain option"
  l_listenerFilters :: "netfilter list"

text \<open>HTTP connection manager: route specifier (Rds with its config name, or another).\<close>

datatype routespec = NoRouteSpec | RdsSpec "configsource option" string | OtherRouteSpec string

record hcm =
  h_routeSpecifier :: routespec
  h_httpFilters :: "netfilter list"

fun GetTypedConfig :: "filterconfig \<Rightarrow> any option" where
  "GetTypedConfig (TypedConfig x) = Some x"
| "GetTypedConfig _ = None"

fun GetConfigDiscovery :: "filterconfig \<Rightarrow> extconfigsource option" where
  "GetConfigDiscovery (ConfigDiscovery x) = Some x"
| "GetConfigDiscovery _ = None"

definition is_hcm :: "netfilter \<Rightarrow> bool" where
  "is_hcm f = (case GetTypedConfig (f_config f) of None \<Rightarrow> False
     | Some x \<Rightarrow> any_url x = HttpConnectionManagerType)"

text \<open>\<open>hcm.GetRds().GetRouteConfigName()\<close>.\<close>

fun rds_route_name :: "routespec \<Rightarrow> string" where
  "rds_route_name (RdsSpec src n) = n"
| "rds_route_name _ = []"

section \<open>Clusters and the other resources\<close>

text \<open>ClusterDiscoveryType: the standard type (EDS or another), a custom type, or unset.\<close>

datatype discoverytype = StdType bool | CustomType | NoDiscoveryType

record cluster =
  cl_name :: string
  cl_discovery :: discoverytype
  cl_transportSocket :: "transportsocket option"
  cl_socketMatches :: "transportsocket option list"
  cl_edsConfig :: "configsource option option"

record named =
  n_name :: string
  n_body :: string

datatype message =
    MListener listener
  | MCluster cluster
  | MEndpoint named
  | MRoute named
  | MSecret named
  | MExtension named

section \<open>Decoding\<close>

text \<open>
  \<open>proto.Unmarshal\<close> and \<open>UnmarshalTo\<close> with their error ignored: whatever the library left
  in the target message.
\<close>

record codec =
  dec_listener :: "string \<Rightarrow> listener"
  dec_cluster :: "string \<Rightarrow> cluster"
  dec_endpoint :: "string \<Rightarrow> named"
  dec_route :: "string \<Rightarrow> named"
  dec_secret :: "string \<Rightarrow> named"
  dec_extension :: "string \<Rightarrow> named"
  dec_hcm :: "any option \<Rightarrow> hcm"
  dec_downstream :: "any option \<Rightarrow> commontls option"

text \<open>
  \<open>getFilterChains\<close> of adsc.go (and \<open>filterChains\<close> of dump.go): the default chain last.
\<close>

definition getFilterChains :: "listener \<Rightarrow> filterchain list" where
  "getFilterChains l =
     (let chains = l_filterChains l in
      case l_defaultFilterChain l of None \<Rightarrow> chains | Some d \<Rightarrow> chains @ [d])"

section \<open>A small instance\<close>

text \<open>
  Decoders for a toy encoding, used to evaluate the model on concrete input: a cluster is an EDS
  cluster of the encoded name, a listener has one HTTP connection manager whose route is \<open>''r''\<close>.
\<close>

definition small_codec :: codec where
  "small_codec =
     \<lparr>dec_listener = (\<lambda>s. \<lparr>l_name = s,
        l_filterChains = [\<lparr>fc_filters = [\<lparr>f_name = ''hcm'',
           f_config = TypedConfig \<lparr>any_url = HttpConnectionManagerType, any_value = ''r''\<rparr>\<rparr>],
           fc_transportSocket = None\<rparr>],
        l_defaultFilterChain = None, l_listenerFilters = []\<rparr>),
      dec_cluster = (\<lambda>s. \<lparr>cl_name = s, cl_discovery = StdType True, cl_transportSocket = None,
        cl_socketMatches = [], cl_edsConfig = None\<rparr>),
      dec_endpoint = (\<lambda>s. \<lparr>n_name = s, n_body = []\<rparr>), dec_route = (\<lambda>s. \<lparr>n_name = s, n_body = []\<rparr>),
      dec_secret = (\<lambda>s. \<lparr>n_name = s, n_body = []\<rparr>), dec_extension = (\<lambda>s. \<lparr>n_name = s, n_body = []\<rparr>),
      dec_hcm = (\<lambda>x. \<lparr>h_routeSpecifier = (case x of None \<Rightarrow> NoRouteSpec | Some y \<Rightarrow> RdsSpec None (any_value y)),
        h_httpFilters = []\<rparr>),
      dec_downstream = (\<lambda>x. None)\<rparr>"

end
