(* ===== verification/Adsc_Sotw.thy ===== *)
theory Adsc_Sotw
  imports Xds_Messages "HOL-Library.List_Lexorder" "HOL-Library.Char_ord"
begin

text \<open>
  The state-of-the-world ADS client (adsc/adsc.go): its watches, stored responses, update
  channel and the requests it sends. A received message is one step of the receive loop,
  \<open>handle_msg\<close>; a receive error ends it (\<open>handle_recv_error\<close>). The channel \<open>updates\<close> has
  100 places; the consumer's reads are the step \<open>take_update\<close>.
\<close>

section \<open>State\<close>

record Watch =
  resources :: "string list"
  lastNonce :: string
  lastVersion :: string

definition no_watch :: Watch where
  "no_watch = \<lparr>resources = [], lastNonce = [], lastVersion = []\<rparr>"

record Responses =
  r_clusters :: "string \<rightharpoonup> message"
  r_listeners :: "string \<rightharpoonup> message"
  r_routes :: "string \<rightharpoonup> message"
  r_endpoints :: "string \<rightharpoonup> message"
  r_extensions :: "string \<rightharpoonup> message"
  r_secrets :: "string \<rightharpoonup> message"

record DiscoveryRequest =
  dr_nonce :: string
  dr_type :: type_url
  dr_node :: string
  dr_version :: string
  dr_names :: "string list"

datatype reason = ReasonAck | ReasonRequest | ReasonInit

record ADSC =
  a_node :: string
  a_initialLoad :: bool
  a_responses :: Responses
  a_updates :: "string list"
  a_watches :: "type_url \<rightharpoonup> Watch"
  a_store :: bool
  a_sent :: "(reason \<times> DiscoveryRequest) list"
  a_closed :: bool

record DiscoveryResponse =
  m_type :: type_url
  m_nonce :: string
  m_version :: string
  m_resources :: "any list"

definition no_responses :: Responses where
  "no_responses = \<lparr>r_clusters = Map.empty, r_listeners = Map.empty, r_routes = Map.empty,
     r_endpoints = Map.empty, r_extensions = Map.empty, r_secrets = Map.empty\<rparr>"

definition new_adsc :: "string \<Rightarrow> bool \<Rightarrow> ADSC" where
  "new_adsc node st = \<lparr>a_node = node, a_initialLoad = False, a_responses = no_responses,
     a_updates = [], a_watches = Map.empty, a_store = st, a_sent = [], a_closed = False\<rparr>"

section \<open>Sending\<close>

definition send :: "ADSC \<Rightarrow> DiscoveryRequest \<Rightarrow> reason \<Rightarrow> ADSC" where
  "send a dr why = a\<lparr>a_sent := a_sent a @ [(why, dr)]\<rparr>"

text \<open>A read of a missing map entry gives the zero Watch.\<close>

definition get_watch :: "ADSC \<Rightarrow> type_url \<Rightarrow> Watch" where
  "get_watch a t = (case a_watches a t of None \<Rightarrow> no_watch | Some x \<Rightarrow> x)"

definition request :: "ADSC \<Rightarrow> type_url \<Rightarrow> Watch \<Rightarrow> ADSC" where
  "request a typeUrl watch =
     send a \<lparr>dr_nonce = lastNonce watch, dr_type = typeUrl, dr_node = a_node a,
             dr_version = lastVersion watch, dr_names = resources watch\<rparr> ReasonRequest"

definition ack :: "ADSC \<Rightarrow> DiscoveryResponse \<Rightarrow> string list \<Rightarrow> ADSC" where
  "ack a msg names =
     (let watch = (get_watch a (m_type msg))\<lparr>lastNonce := m_nonce msg, lastVersion := m_version msg\<rparr>;
          a1 = a\<lparr>a_watches := (a_watches a)(m_type msg \<mapsto> watch)\<rparr>;
          names1 = (if m_type msg = EndpointType then resources watch else names)
      in send a1 \<lparr>dr_nonce = m_nonce msg, dr_type = m_type msg, dr_node = a_node a,
                  dr_version = m_version msg, dr_names = names1\<rparr> ReasonAck)"

definition Watch_initial :: "ADSC \<Rightarrow> ADSC" where
  "Watch_initial a =
     send a \<lparr>dr_nonce = [], dr_type = ClusterType, dr_node = a_node a, dr_version = [], dr_names = []\<rparr> ReasonInit"

section \<open>The update channel\<close>

definition chan_cap :: nat where
  "chan_cap = 100"

text \<open>A send in a select with a default: dropped when the channel is full.\<close>

definition notify :: "ADSC \<Rightarrow> string \<Rightarrow> ADSC" where
  "notify a u = (if length (a_updates a) < chan_cap then a\<lparr>a_updates := a_updates a @ [u]\<rparr> else a)"

definition WaitClear :: "ADSC \<Rightarrow> ADSC" where
  "WaitClear a = a\<lparr>a_updates := []\<rparr>"

definition Close :: "ADSC \<Rightarrow> ADSC" where
  "Close a = a\<lparr>a_closed := True\<rparr>"

definition take_update :: "ADSC \<Rightarrow> (string \<times> ADSC) option" where
  "take_update a = (case a_updates a of [] \<Rightarrow> None | u # us \<Rightarrow> Some (u, a\<lparr>a_updates := us\<rparr>))"

section \<open>Resource subscriptions\<close>

fun list_equal_from :: "string list \<Rightarrow> string list \<Rightarrow> nat \<Rightarrow> nat \<Rightarrow> bool" where
  "list_equal_from a b i 0 = True"
| "list_equal_from a b i (Suc n) = (if a ! i \<noteq> b ! i then False else list_equal_from a b (i + 1) n)"

definition listEqual :: "string list \<Rightarrow> string list \<Rightarrow> bool" where
  "listEqual a b = (if length a \<noteq> length b then False else list_equal_from a b 0 (length a))"

definition handleResourceUpdate :: "ADSC \<Rightarrow> type_url \<Rightarrow> string list \<Rightarrow> ADSC" where
  "handleResourceUpdate a typeUrl rs =
     (if \<not> listEqual (resources (get_watch a typeUrl)) rs
      then let watch = (get_watch a typeUrl)\<lparr>resources := rs\<rparr>
           in request (a\<lparr>a_watches := (a_watches a)(typeUrl \<mapsto> watch)\<rparr>) typeUrl watch
      else a)"

text \<open>\<open>sets.SortedList\<close> of the elements of a list.\<close>

definition sorted_set :: "string list \<Rightarrow> string list" where
  "sorted_set xs = sort (remdups xs)"

section \<open>Handlers\<close>

text \<open>Routes and discovered extensions of one listener's filters, in the order of the loops.\<close>

definition filter_routes :: "codec \<Rightarrow> netfilter \<Rightarrow> string list" where
  "filter_routes c f =
     (if is_hcm f then
        (let r = rds_route_name (h_routeSpecifier (dec_hcm c (GetTypedConfig (f_config f))))
         in if r \<noteq> [] then [r] else [])
      else [])"

definition filter_extensions :: "codec \<Rightarrow> netfilter \<Rightarrow> string list" where
  "filter_extensions c f =
     (if is_hcm f then
        map f_name (filter (\<lambda>g. GetConfigDiscovery (f_config g) \<noteq> None)
          (h_httpFilters (dec_hcm c (GetTypedConfig (f_config f)))))
      else []) @
     (if GetConfigDiscovery (f_config f) \<noteq> None then [f_name f] else [])"

definition listener_routes :: "codec \<Rightarrow> listener \<Rightarrow> string list" where
  "listener_routes c l =
     concat (map (\<lambda>fc. concat (map (filter_routes c) (fc_filters fc))) (getFilterChains l))"

definition listener_extensions :: "codec \<Rightarrow> listener \<Rightarrow> string list" where
  "listener_extensions c l =
     concat (map (\<lambda>fc. concat (map (filter_extensions c) (fc_filters fc))) (getFilterChains l))"

definition opt_list :: "'a option \<Rightarrow> 'a list" where
  "opt_list x = (case x of None \<Rightarrow> [] | Some y \<Rightarrow> [y])"

definition listener_sockets :: "listener \<Rightarrow> transportsocket list" where
  "listener_sockets l =
     concat (map (\<lambda>fc. opt_list (fc_transportSocket fc)) (getFilterChains l)) @
     (case l_defaultFilterChain l of None \<Rightarrow> [] | Some fc \<Rightarrow> opt_list (fc_transportSocket fc))"

text \<open>The secrets a downstream TLS context names; a missing context names the empty string.\<close>

definition combined_name :: "commontls \<Rightarrow> string" where
  "combined_name t =
     (case tls_validation t of CombinedValidation (Some s) \<Rightarrow> sds_name s | _ \<Rightarrow> [])"

definition socket_secrets :: "codec \<Rightarrow> transportsocket \<Rightarrow> string list" where
  "socket_secrets c s =
     (case dec_downstream c (ts_typedConfig s) of
        None \<Rightarrow> [[]]
      | Some t \<Rightarrow> combined_name t # map sds_name (tls_certSds t))"

definition listed_secrets :: "codec \<Rightarrow> listener list \<Rightarrow> string list" where
  "listed_secrets c ll =
     filter (\<lambda>n. n \<noteq> [] \<and> n \<noteq> ''ROOTCA'' \<and> n \<noteq> ''default'')
       (concat (map (socket_secrets c) (concat (map listener_sockets ll))))"

definition handleLDS :: "codec \<Rightarrow> listener list \<Rightarrow> ADSC \<Rightarrow> ADSC" where
  "handleLDS c ll a =
     (let routes = sort (concat (map (listener_routes c) ll));
          extensions = concat (map (listener_extensions c) ll);
          secrets = listed_secrets c ll;
          a1 = (if secrets \<noteq> [] then handleResourceUpdate a SecretType (sorted_set secrets) else a);
          a2 = (if extensions \<noteq> [] then handleResourceUpdate a1 ExtensionConfigType (sorted_set extensions) else a1);
          a3 = handleResourceUpdate a2 RouteType routes
      in notify a3 ''lds'')"

definition eds_clusters :: "cluster list \<Rightarrow> string list" where
  "eds_clusters ll = map cl_name (filter (\<lambda>c. cl_discovery c \<noteq> StdType False) ll)"

definition handleCDS :: "cluster list \<Rightarrow> ADSC \<Rightarrow> ADSC" where
  "handleCDS ll a =
     (let a1 = handleResourceUpdate a EndpointType (sort (eds_clusters ll));
          a2 = (if \<not> a_initialLoad a1
                then (send a1 \<lparr>dr_nonce = [], dr_type = ListenerType, dr_node = a_node a1,
                               dr_version = [], dr_names = []\<rparr> ReasonInit)\<lparr>a_initialLoad := True\<rparr>
                else a1)
      in notify a2 ''cds'')"

text \<open>
  The four other handlers only report their update; the maps they build are used for debug output alone.
\<close>

definition handleEDS :: "ADSC \<Rightarrow> ADSC" where [simp]:
  "handleEDS a = notify a ''eds''"

definition handleRDS :: "ADSC \<Rightarrow> ADSC" where [simp]:
  "handleRDS a = notify a ''rds''"

definition handleSDS :: "ADSC \<Rightarrow> ADSC" where [simp]:
  "handleSDS a = notify a ''sds''"

definition handleECDS :: "ADSC \<Rightarrow> ADSC" where [simp]:
  "handleECDS a = notify a ''ecds''"

section \<open>The receive loop\<close>

record batch =
  b_listeners :: "listener list"
  b_clusters :: "cluster list"
  b_names :: "string list"
  b_resp :: "string \<rightharpoonup> message"

definition keep :: "bool \<Rightarrow> string \<Rightarrow> message \<Rightarrow> (string \<rightharpoonup> message) \<Rightarrow> (string \<rightharpoonup> message)" where
  "keep st n m r = (if st then r(n \<mapsto> m) else r)"

definition decode_one :: "codec \<Rightarrow> bool \<Rightarrow> any \<Rightarrow> batch \<Rightarrow> batch" where
  "decode_one c st rsc b =
     (case any_url rsc of
        ListenerType \<Rightarrow>
          (let ll = dec_listener c (any_value rsc)
           in b\<lparr>b_listeners := b_listeners b @ [ll], b_resp := keep st (l_name ll) (MListener ll) (b_resp b)\<rparr>)
      | ClusterType \<Rightarrow>
          (let ll = dec_cluster c (any_value rsc)
           in b\<lparr>b_clusters := b_clusters b @ [ll], b_resp := keep st (cl_name ll) (MCluster ll) (b_resp b)\<rparr>)
      | EndpointType \<Rightarrow>
          (let ll = dec_endpoint c (any_value rsc)
           in b\<lparr>b_names := b_names b @ [n_name ll], b_resp := keep st (n_name ll) (MEndpoint ll) (b_resp b)\<rparr>)
      | RouteType \<Rightarrow>
          (let ll = dec_route c (any_value rsc)
           in b\<lparr>b_names := b_names b @ [n_name ll], b_resp := keep st (n_name ll) (MRoute ll) (b_resp b)\<rparr>)
      | SecretType \<Rightarrow>
          (let ll = dec_secret c (any_value rsc)
           in b\<lparr>b_names := b_names b @ [n_name ll], b_resp := keep st (n_name ll) (MSecret ll) (b_resp b)\<rparr>)
      | ExtensionConfigType \<Rightarrow>
          (let ll = dec_extension c (any_value rsc)
           in b\<lparr>b_names := b_names b @ [n_name ll], b_resp := keep st (n_name ll) (MExtension ll) (b_resp b)\<rparr>)
      | _ \<Rightarrow> b)"

definition decode_all :: "codec \<Rightarrow> bool \<Rightarrow> any list \<Rightarrow> batch" where
  "decode_all c st rs =
     fold (decode_one c st) rs \<lparr>b_listeners = [], b_clusters = [], b_names = [], b_resp = Map.empty\<rparr>"

definition store_response :: "type_url \<Rightarrow> (string \<rightharpoonup> message) \<Rightarrow> Responses \<Rightarrow> Responses" where
  "store_response t resp r =
     (case t of
        ListenerType \<Rightarrow> r\<lparr>r_listeners := resp\<rparr>
      | ClusterType \<Rightarrow> r\<lparr>r_clusters := resp\<rparr>
      | EndpointType \<Rightarrow> r\<lparr>r_endpoints := resp\<rparr>
      | RouteType \<Rightarrow> r\<lparr>r_routes := resp\<rparr>
      | SecretType \<Rightarrow> r\<lparr>r_secrets := resp\<rparr>
      | ExtensionConfigType \<Rightarrow> r\<lparr>r_extensions := resp\<rparr>
      | _ \<Rightarrow> r)"

definition handle_msg :: "codec \<Rightarrow> DiscoveryResponse \<Rightarrow> ADSC \<Rightarrow> ADSC" where
  "handle_msg c msg a =
     (let b = decode_all c (a_store a) (m_resources msg);
          a1 = a\<lparr>a_responses := store_response (m_type msg) (b_resp b) (a_responses a)\<rparr>;
          a2 = ack a1 msg (b_names b)
      in case m_type msg of
           ListenerType \<Rightarrow> handleLDS c (b_listeners b) a2
         | ClusterType \<Rightarrow> handleCDS (b_clusters b) a2
         | EndpointType \<Rightarrow> handleEDS a2
         | RouteType \<Rightarrow> handleRDS a2
         | SecretType \<Rightarrow> handleSDS a2
         | ExtensionConfigType \<Rightarrow> handleECDS a2
         | _ \<Rightarrow> a2)"

definition handle_recv_error :: "ADSC \<Rightarrow> ADSC" where
  "handle_recv_error a = (let a1 = WaitClear (Close a) in a1\<lparr>a_updates := a_updates a1 @ [''close'']\<rparr>)"

text \<open>One step of the client seen from outside.\<close>

datatype adsc_event = Received DiscoveryResponse | RecvFailed | Taken

fun adsc_step :: "codec \<Rightarrow> ADSC \<Rightarrow> adsc_event \<Rightarrow> ADSC" where
  "adsc_step c a (Received msg) = (if a_closed a then a else handle_msg c msg a)"
| "adsc_step c a RecvFailed = (if a_closed a then a else handle_recv_error a)"
| "adsc_step c a Taken = (case take_update a of None \<Rightarrow> a | Some (u, a') \<Rightarrow> a')"

definition adsc_run :: "codec \<Rightarrow> ADSC \<Rightarrow> adsc_event list \<Rightarrow> ADSC" where
  "adsc_run c = foldl (adsc_step c)"


section \<open>Basic facts\<close>

lemma list_equal_from_iff:
  "list_equal_from a b i n \<longleftrightarrow> (\<forall>k. i \<le> k \<and> k < i + n \<longrightarrow> a ! k = b ! k)"
proof (induction n arbitrary: i)
  case 0
  then show ?case by auto
next
  case (Suc n)
  have "i \<le> k \<and> k < i + Suc n \<longleftrightarrow> k = i \<or> (i + 1 \<le> k \<and> k < i + 1 + n)" for k
    by arith
  then show ?case using Suc.IH [of "i + 1"] by (auto simp del: One_nat_def)
qed

lemma listEqual_iff [simp]: "listEqual a b \<longleftrightarrow> a = b"
  by (auto simp: listEqual_def list_equal_from_iff intro: nth_equalityI)

lemma set_sorted_set [simp]: "set (sorted_set xs) = set xs"
  by (simp add: sorted_set_def)

lemma sorted_sorted_set: "sorted (sorted_set xs) \<and> distinct (sorted_set xs)"
  by (simp add: sorted_set_def)

text \<open>What a subscription change sends: one request with the new names, or nothing.\<close>

definition update_request :: "ADSC \<Rightarrow> type_url \<Rightarrow> string list \<Rightarrow> (reason \<times> DiscoveryRequest) list" where
  "update_request a t rs =
     (if resources (get_watch a t) = rs then []
      else [(ReasonRequest, \<lparr>dr_nonce = lastNonce (get_watch a t), dr_type = t, dr_node = a_node a,
               dr_version = lastVersion (get_watch a t), dr_names = rs\<rparr>)])"

lemma handleResourceUpdate_sent:
  "a_sent (handleResourceUpdate a t rs) = a_sent a @ update_request a t rs"
  by (simp add: handleResourceUpdate_def update_request_def request_def send_def Let_def)

lemma handleResourceUpdate_frame [simp]:
  "a_node (handleResourceUpdate a t rs) = a_node a"
  "a_initialLoad (handleResourceUpdate a t rs) = a_initialLoad a"
  "a_updates (handleResourceUpdate a t rs) = a_updates a"
  "a_responses (handleResourceUpdate a t rs) = a_responses a"
  "a_store (handleResourceUpdate a t rs) = a_store a"
  "a_closed (handleResourceUpdate a t rs) = a_closed a"
  by (simp_all add: handleResourceUpdate_def request_def send_def Let_def)

lemma handleResourceUpdate_watch:
  "get_watch (handleResourceUpdate a t rs) u =
     (if u = t then (get_watch a t)\<lparr>resources := rs\<rparr> else get_watch a u)"
  by (auto simp: handleResourceUpdate_def request_def send_def get_watch_def Let_def)

lemma notify_frame [simp]:
  "a_node (notify a u) = a_node a" "a_initialLoad (notify a u) = a_initialLoad a"
  "a_sent (notify a u) = a_sent a" "a_watches (notify a u) = a_watches a"
  "a_responses (notify a u) = a_responses a" "a_store (notify a u) = a_store a"
  "a_closed (notify a u) = a_closed a"
  by (simp_all add: notify_def)

lemma get_watch_notify [simp]: "get_watch (notify a u) t = get_watch a t"
  by (simp add: get_watch_def)

lemma notify_bound: "length (a_updates a) \<le> chan_cap \<Longrightarrow> length (a_updates (notify a u)) \<le> chan_cap"
  by (simp add: notify_def)

section \<open>The nonces of requests\<close>

text \<open>The nonce of the last acknowledgement of a type in a send history.\<close>

fun last_nonce :: "type_url \<Rightarrow> (reason \<times> DiscoveryRequest) list \<Rightarrow> string" where
  "last_nonce t xs = foldl (\<lambda>n (why, dr). if why = ReasonAck \<and> dr_type dr = t then dr_nonce dr else n) [] xs"

text \<open>Every subscription request carries the nonce of the last acknowledged response of its type.\<close>

definition fresh_requests :: "(reason \<times> DiscoveryRequest) list \<Rightarrow> bool" where
  "fresh_requests xs \<longleftrightarrow>
     (\<forall>n < length xs. fst (xs ! n) = ReasonRequest \<longrightarrow>
        dr_nonce (snd (xs ! n)) = last_nonce (dr_type (snd (xs ! n))) (take n xs))"

lemma last_nonce_snoc [simp]:
  "last_nonce t (xs @ [(why, dr)]) =
     (if why = ReasonAck \<and> dr_type dr = t then dr_nonce dr else last_nonce t xs)"
  by simp

declare last_nonce.simps [simp del]

lemma last_nonce_Nil [simp]: "last_nonce t [] = []"
  by (simp add: last_nonce.simps)

lemma fresh_requests_snoc:
  "fresh_requests (xs @ [(why, dr)]) \<longleftrightarrow>
     fresh_requests xs \<and> (why = ReasonRequest \<longrightarrow> dr_nonce dr = last_nonce (dr_type dr) xs)"
proof -
  have "fresh_requests (xs @ [(why, dr)]) \<longleftrightarrow>
      (\<forall>n < length xs. fst (xs ! n) = ReasonRequest \<longrightarrow>
        dr_nonce (snd (xs ! n)) = last_nonce (dr_type (snd (xs ! n))) (take n xs)) \<and>
      (why = ReasonRequest \<longrightarrow> dr_nonce dr = last_nonce (dr_type dr) xs)"
    by (simp add: fresh_requests_def less_Suc_eq all_conj_distrib nth_append imp_conjR conj_commute
        cong: conj_cong imp_cong)
  then show ?thesis by (simp add: fresh_requests_def)
qed

lemma fresh_requests_Nil [simp]: "fresh_requests []"
  by (simp add: fresh_requests_def)

definition count_init :: "type_url \<Rightarrow> (reason \<times> DiscoveryRequest) list \<Rightarrow> nat" where
  "count_init t xs = length (filter (\<lambda>(why, dr). why = ReasonInit \<and> dr_type dr = t) xs)"

text \<open>
  The client invariant: the channel is within its capacity, all requests carry the node, every
  watch remembers the nonce of the last acknowledgement of its type, requests are fresh, and
  the listener subscription has been opened exactly if \<open>InitialLoad\<close> is set.
\<close>

definition adsc_inv :: "ADSC \<Rightarrow> bool" where
  "adsc_inv a \<longleftrightarrow>
     length (a_updates a) \<le> chan_cap \<and>
     (\<forall>(why, dr) \<in> set (a_sent a). dr_node dr = a_node a) \<and>
     (\<forall>t. lastNonce (get_watch a t) = last_nonce t (a_sent a)) \<and>
     fresh_requests (a_sent a) \<and>
     count_init ListenerType (a_sent a) = (if a_initialLoad a then 1 else 0)"

lemma adsc_inv_new: "adsc_inv (new_adsc node st)"
  by (simp add: adsc_inv_def new_adsc_def get_watch_def no_watch_def count_init_def)

lemma adsc_inv_notify [go_invs]: "adsc_inv a \<Longrightarrow> adsc_inv (notify a u)"
  by (simp add: adsc_inv_def notify_bound)

lemma adsc_inv_handleResourceUpdate [go_invs]:
  assumes "adsc_inv a"
  shows "adsc_inv (handleResourceUpdate a t rs)"
  using assms
  by (auto simp: adsc_inv_def handleResourceUpdate_sent handleResourceUpdate_watch update_request_def
      fresh_requests_snoc count_init_def)

lemma adsc_inv_responses: "adsc_inv (a\<lparr>a_responses := r\<rparr>) = adsc_inv a"
  by (simp add: adsc_inv_def get_watch_def)

lemma adsc_inv_ack [go_invs]: "adsc_inv a \<Longrightarrow> adsc_inv (ack a msg names)"
  by (auto simp: adsc_inv_def ack_def send_def Let_def get_watch_def fresh_requests_snoc count_init_def)

lemma adsc_inv_Watch_initial [go_invs]: "adsc_inv a \<Longrightarrow> adsc_inv (Watch_initial a)"
  by (auto simp: adsc_inv_def Watch_initial_def send_def get_watch_def fresh_requests_snoc count_init_def)

lemma adsc_inv_open_listeners:
  "adsc_inv a \<Longrightarrow> \<not> a_initialLoad a \<Longrightarrow>
   adsc_inv ((send a \<lparr>dr_nonce = [], dr_type = ListenerType, dr_node = a_node a,
      dr_version = [], dr_names = []\<rparr> ReasonInit)\<lparr>a_initialLoad := True\<rparr>)"
  by (auto simp: adsc_inv_def send_def get_watch_def fresh_requests_snoc count_init_def)

lemma adsc_inv_handleLDS [go_invs]: "adsc_inv a \<Longrightarrow> adsc_inv (handleLDS c ll a)"
  by (simp add: handleLDS_def Let_def adsc_inv_notify adsc_inv_handleResourceUpdate)

lemma adsc_inv_handleCDS [go_invs]: "adsc_inv a \<Longrightarrow> adsc_inv (handleCDS ll a)"
  using adsc_inv_open_listeners [of "handleResourceUpdate a EndpointType (sort (eds_clusters ll))"]
  by (simp add: handleCDS_def Let_def adsc_inv_notify adsc_inv_handleResourceUpdate)

lemma adsc_inv_handle_msg [go_invs]: "adsc_inv a \<Longrightarrow> adsc_inv (handle_msg c msg a)"
  by (auto simp: handle_msg_def Let_def adsc_inv_responses go_invs split: type_url.split)

lemma adsc_inv_step [go_invs]: "adsc_inv a \<Longrightarrow> adsc_inv (adsc_step c a ev)"
proof (cases ev)
  case RecvFailed
  then show "adsc_inv a \<Longrightarrow> ?thesis"
    by (simp add: adsc_inv_def handle_recv_error_def WaitClear_def Close_def Let_def chan_cap_def get_watch_def)
next
  case Taken
  then show "adsc_inv a \<Longrightarrow> ?thesis"
    by (auto simp: adsc_inv_def take_update_def get_watch_def split: list.split)
qed (simp add: adsc_inv_handle_msg)

lemma adsc_inv_run: "adsc_inv a \<Longrightarrow> adsc_inv (adsc_run c a evs)"
  unfolding adsc_run_def by (induction evs arbitrary: a) (auto intro: adsc_inv_step)

section \<open>Properties\<close>

text \<open>
  C2: Whatever arrives and whenever the consumer reads, the state-of-the-world client keeps its
  promises to the server: every subscription request carries the nonce of the last response of its
  type it acknowledged, every request names its node, the listeners are requested at most once per
  stream, and the update channel never holds more than its 100 places.
\<close>

theorem adsc_requests_fresh:
  "fresh_requests (a_sent (adsc_run c (Watch_initial (new_adsc node st)) evs)) \<and>
   (\<forall>x. x \<in> set (a_sent (adsc_run c (Watch_initial (new_adsc node st)) evs)) \<longrightarrow>
      dr_node (snd x) = a_node (adsc_run c (Watch_initial (new_adsc node st)) evs)) \<and>
   count_init ListenerType (a_sent (adsc_run c (Watch_initial (new_adsc node st)) evs)) \<le> 1 \<and>
   length (a_updates (adsc_run c (Watch_initial (new_adsc node st)) evs)) \<le> chan_cap"
  using adsc_inv_run [OF adsc_inv_Watch_initial [OF adsc_inv_new], of c node st evs]
  by (auto simp: adsc_inv_def)

lemma adsc_requests_fresh_witness:
  "fresh_requests (a_sent (adsc_run small_codec (Watch_initial (new_adsc ''n'' True))
     [Received \<lparr>m_type = ClusterType, m_nonce = ''1'', m_version = ''v'',
        m_resources = [\<lparr>any_url = ClusterType, any_value = ''c''\<rparr>]\<rparr>]))"
  using adsc_requests_fresh by blast

lemma sent_handleLDS:
  "\<exists>rest. a_sent (handleLDS c ll a) = a_sent a @ rest \<and> (\<forall>x \<in> set rest. fst x = ReasonRequest)"
  by (auto simp: handleLDS_def Let_def handleResourceUpdate_sent update_request_def)

lemma sent_handleCDS:
  "\<exists>rest. a_sent (handleCDS ll a) = a_sent a @ rest \<and> (\<forall>x \<in> set rest. fst x \<noteq> ReasonAck)"
  by (auto simp: handleCDS_def Let_def handleResourceUpdate_sent update_request_def send_def)

lemma ack_sent:
  "a_sent (ack a msg names) = a_sent a @ [(ReasonAck,
     \<lparr>dr_nonce = m_nonce msg, dr_type = m_type msg, dr_node = a_node a, dr_version = m_version msg,
      dr_names = (if m_type msg = EndpointType then resources (get_watch a EndpointType) else names)\<rparr>)]"
  by (simp add: ack_def send_def Let_def get_watch_def)

text \<open>
  C9: Each response is acknowledged exactly once, before anything it causes is requested, with its own
  nonce and version; the acknowledgement of endpoints repeats the names the client watches.
\<close>

theorem handle_msg_acknowledges:
  "\<exists>names rest. a_sent (handle_msg c msg a) = a_sent a @
      (ReasonAck, \<lparr>dr_nonce = m_nonce msg, dr_type = m_type msg, dr_node = a_node a,
                   dr_version = m_version msg, dr_names = names\<rparr>) # rest \<and>
     ReasonAck \<notin> fst ` set rest \<and>
     (m_type msg \<noteq> EndpointType \<or> names = resources (get_watch a EndpointType))"
proof -
  define b where "b = decode_all c (a_store a) (m_resources msg)"
  define a1 where "a1 = a\<lparr>a_responses := store_response (m_type msg) (b_resp b) (a_responses a)\<rparr>"
  define a2 where "a2 = ack a1 msg (b_names b)"
  have a2: "a_sent a2 = a_sent a @ [(ReasonAck, \<lparr>dr_nonce = m_nonce msg, dr_type = m_type msg, dr_node = a_node a,
      dr_version = m_version msg,
      dr_names = (if m_type msg = EndpointType then resources (get_watch a EndpointType) else b_names b)\<rparr>)]"
    unfolding a2_def ack_sent by (simp add: a1_def get_watch_def)
  have "\<exists>rest. a_sent (handle_msg c msg a) = a_sent a2 @ rest \<and> ReasonAck \<notin> fst ` set rest"
  proof -
    have "\<exists>rest. a_sent (handleLDS c (b_listeners b) a2) = a_sent a2 @ rest \<and> ReasonAck \<notin> fst ` set rest"
      using sent_handleLDS [of c "b_listeners b" a2] by force
    moreover have "\<exists>rest. a_sent (handleCDS (b_clusters b) a2) = a_sent a2 @ rest \<and> ReasonAck \<notin> fst ` set rest"
      using sent_handleCDS [of "b_clusters b" a2] by force
    ultimately show ?thesis
      unfolding handle_msg_def Let_def b_def [symmetric] a1_def [symmetric] a2_def [symmetric]
      by (cases "m_type msg") simp_all
  qed
  then show ?thesis using a2 by auto
qed

lemma handle_msg_acknowledges_witness:
  "\<exists>names rest. a_sent (handle_msg small_codec
       \<lparr>m_type = EndpointType, m_nonce = ''1'', m_version = ''v'', m_resources = []\<rparr> (new_adsc ''n'' True)) =
     (ReasonAck, \<lparr>dr_nonce = ''1'', dr_type = EndpointType, dr_node = ''n'', dr_version = ''v'', dr_names = names\<rparr>) # rest \<and>
     names = resources (get_watch (new_adsc ''n'' True) EndpointType)"
  using handle_msg_acknowledges [of small_codec "\<lparr>m_type = EndpointType, m_nonce = ''1'', m_version = ''v'', m_resources = []\<rparr>"
      "new_adsc ''n'' True"]
  by (simp add: new_adsc_def) blast



end
