(* ===== verification/Adsc_Delta.thy ===== *)
theory Adsc_Delta
  imports Xds_Messages "HOL-Library.Multiset"
begin

text \<open>
  The delta ADS client (adsc/delta.go): the tree of resources it has seen, with its parent and
  child links, the subscriptions it derives from it, and the requests it sends. The nodes are
  shared mutable objects, so they live in a heap (\<open>d_heap\<close>, a list indexed by addresses) and
  the tree maps keys to addresses. The order in which Go ranges over a map or a set is the
  parameter \<open>order\<close>.
\<close>

section \<open>Keys, nodes and the client\<close>

text \<open>
  \<open>unique.Handle\<close>: None is the zero handle, whose \<open>Value()\<close> dereferences nil.
\<close>

type_synonym 'a handle = "'a option"

definition intern :: "'a \<Rightarrow> 'a handle" where
  "intern s = Some s"

definition Value :: "'a handle \<Rightarrow> 'a outcome" where
  "Value h = (case h of None \<Rightarrow> Panics ''nil pointer dereference'' | Some s \<Rightarrow> Returns s)"

record ResourceKey =
  k_name :: "string handle"
  k_type :: "type_url handle"

record ResourceNode =
  rn_key :: ResourceKey
  rn_parents :: "nat list"
  rn_children :: "nat list"

record DeltaRequest =
  dd_type :: type_url
  dd_node :: "string option"
  dd_nonce :: string
  dd_subscribe :: "string list"
  dd_unsubscribe :: "string list"

record deltaClient =
  d_initialWatches :: "type_url list"
  d_node :: string
  d_heap :: "ResourceNode list"
  d_tree :: "ResourceKey \<rightharpoonup> nat"
  d_resources :: "type_url \<rightharpoonup> string list"
  d_updates :: "string list"
  d_sent :: "DeltaRequest list"
  d_closed :: bool

record DeltaResource =
  res_name :: string
  res_body :: "any option"

record DeltaResponse =
  dm_type :: type_url
  dm_nonce :: string
  dm_resources :: "DeltaResource list"
  dm_removed :: "string list"

record order =
  ord_nodes :: "nat list \<Rightarrow> nat list"
  ord_types :: "type_url list \<Rightarrow> type_url list"

text \<open>Ranging over a map visits every entry exactly once.\<close>

definition order_ok :: "order \<Rightarrow> bool" where
  "order_ok ord \<longleftrightarrow> (\<forall>xs. mset (ord_nodes ord xs) = mset xs) \<and> (\<forall>xs. mset (ord_types ord xs) = mset xs)"

definition key_of :: "string \<Rightarrow> type_url \<Rightarrow> ResourceKey" where
  "key_of n t = \<lparr>k_name = intern n, k_type = intern t\<rparr>"

definition root_key :: "type_url \<Rightarrow> ResourceKey" where
  "root_key t = \<lparr>k_name = None, k_type = intern t\<rparr>"

definition new_node :: "ResourceKey \<Rightarrow> ResourceNode" where
  "new_node k = \<lparr>rn_key = k, rn_parents = [], rn_children = []\<rparr>"

text \<open>The client DialDelta builds: the listener and the cluster root.\<close>

definition new_delta :: "string \<Rightarrow> string \<Rightarrow> deltaClient" where
  "new_delta nodeID nodeType =
     \<lparr>d_initialWatches =
        (if nodeType = ''ztunnel'' then [AddressType, WorkloadAuthorizationType]
         else [ClusterType, ListenerType]),
      d_node = nodeID,
      d_heap = [new_node (root_key ListenerType), new_node (root_key ClusterType)],
      d_tree = [root_key ListenerType \<mapsto> 0, root_key ClusterType \<mapsto> 1],
      d_resources = Map.empty, d_updates = [], d_sent = [], d_closed = False\<rparr>"

section \<open>Type classification\<close>

definition hasChildTypes :: "type_url \<Rightarrow> bool" where
  "hasChildTypes t =
     (case t of
        SecretType \<Rightarrow> False | EndpointType \<Rightarrow> False | RouteType \<Rightarrow> False | ExtensionConfigType \<Rightarrow> False
      | WorkloadAuthorizationType \<Rightarrow> False | AddressType \<Rightarrow> False | WorkloadType \<Rightarrow> False
      | ClusterType \<Rightarrow> True | ListenerType \<Rightarrow> True
      | _ \<Rightarrow> True)"

definition isWildcardTypeURL :: "type_url \<Rightarrow> bool" where
  "isWildcardTypeURL t =
     (case t of
        SecretType \<Rightarrow> False | EndpointType \<Rightarrow> False | RouteType \<Rightarrow> False | ExtensionConfigType \<Rightarrow> False
      | ClusterType \<Rightarrow> True | ListenerType \<Rightarrow> True
      | _ \<Rightarrow> True)"

section \<open>References of a resource\<close>

definition listener_refs :: "codec \<Rightarrow> listener \<Rightarrow> ResourceKey list" where
  "listener_refs c l =
     concat (map (\<lambda>fc. concat (map (\<lambda>f.
        if is_hcm f then
          (let r = rds_route_name (h_routeSpecifier (dec_hcm c (GetTypedConfig (f_config f))))
           in if r \<noteq> [] then [key_of r RouteType] else [])
        else []) (fc_filters fc))) (getFilterChains l))"

definition extractReferencedKeys :: "codec \<Rightarrow> DeltaResource \<Rightarrow> ResourceKey list outcome" where
  "extractReferencedKeys c resp =
     (case res_body resp of
        None \<Rightarrow> Panics ''nil pointer dereference''
      | Some r \<Rightarrow>
          (case any_url r of
             ClusterType \<Rightarrow>
               (let o1 = dec_cluster c (any_value r)
                in if cl_discovery o1 = StdType False then Returns []
                   else Returns [key_of (cl_name o1) EndpointType])
           | ListenerType \<Rightarrow> Returns (listener_refs c (dec_listener c (any_value r)))
           | _ \<Rightarrow> Returns []))"

section \<open>The heap of nodes\<close>

definition set_add :: "'a \<Rightarrow> 'a list \<Rightarrow> 'a list" where
  "set_add x xs = (if x \<in> set xs then xs else xs @ [x])"

definition upd_node :: "nat \<Rightarrow> (ResourceNode \<Rightarrow> ResourceNode) \<Rightarrow> deltaClient \<Rightarrow> deltaClient" where
  "upd_node a f d = d\<lparr>d_heap := (d_heap d)[a := f (d_heap d ! a)]\<rparr>"

definition relate :: "nat \<Rightarrow> nat \<Rightarrow> deltaClient \<Rightarrow> deltaClient" where
  "relate parent child d =
     upd_node child (rn_parents_update (set_add parent))
       (upd_node parent (rn_children_update (set_add child)) d)"

definition alloc :: "ResourceKey \<Rightarrow> deltaClient \<Rightarrow> nat \<times> deltaClient" where
  "alloc k d =
     (length (d_heap d),
      d\<lparr>d_heap := d_heap d @ [new_node k], d_tree := (d_tree d)(k \<mapsto> length (d_heap d))\<rparr>)"

definition getNode :: "ResourceKey \<Rightarrow> deltaClient \<Rightarrow> nat \<times> bool \<times> deltaClient" where
  "getNode k d =
     (case d_tree d k of
        Some a \<Rightarrow> (a, True, d)
      | None \<Rightarrow> (let (a, d1) = alloc k d in (a, False, d1)))"

text \<open>Maps from types to name lists, as association lists; \<open>am_add\<close> is \<open>m[k] = append(m[k], v)\<close>.\<close>

type_synonym amap = "(type_url \<times> string handle list) list"

fun am_add :: "type_url \<Rightarrow> string handle \<Rightarrow> amap \<Rightarrow> amap" where
  "am_add k v [] = [(k, [v])]"
| "am_add k v ((k', vs) # m) = (if k = k' then (k', vs @ [v]) # m else (k', vs) # am_add k v m)"

definition am_get :: "amap \<Rightarrow> type_url \<Rightarrow> string handle list" where
  "am_get m k = (case map_of m k of None \<Rightarrow> [] | Some vs \<Rightarrow> vs)"

section \<open>Deleting a node\<close>

text \<open>
  The loop over the children of the node at \<open>a\<close> (\<open>del\<close> is the recursive call): unlink the
  child, record its removal, and delete it when it has no parent left. None is a recursion
  that has not ended within the fuel.
\<close>

type_synonym dstate = "deltaClient \<times> amap"

fun delete_children :: "(nat \<Rightarrow> dstate \<Rightarrow> dstate option) \<Rightarrow> nat \<Rightarrow> nat list \<Rightarrow> dstate \<Rightarrow> dstate option" where
  "delete_children del a [] s = Some s"
| "delete_children del a (c # cs) (d, removals) =
     (let d1 = upd_node c (rn_parents_update (removeAll a)) d;
          k = rn_key (d_heap d1 ! c);
          removals1 = (case k_type k of None \<Rightarrow> removals | Some t \<Rightarrow> am_add t (k_name k) removals)
      in if rn_parents (d_heap d1 ! c) = [] then
           (case del c (d1, removals1) of None \<Rightarrow> None | Some s2 \<Rightarrow> delete_children del a cs s2)
         else delete_children del a cs (d1, removals1))"

fun deleteNode :: "order \<Rightarrow> nat \<Rightarrow> nat \<Rightarrow> dstate \<Rightarrow> dstate option" where
  "deleteNode ord 0 a s = None"
| "deleteNode ord (Suc fuel) a (d, removals) =
     (let d1 = d\<lparr>d_tree := (d_tree d)(rn_key (d_heap d ! a) := None)\<rparr>;
          d2 = fold (\<lambda>p. upd_node p (rn_children_update (removeAll a)))
                 (ord_nodes ord (rn_parents (d_heap d1 ! a))) d1
      in delete_children (deleteNode ord fuel) a (ord_nodes ord (rn_children (d_heap d2 ! a))) (d2, removals))"

section \<open>Handling a message\<close>

text \<open>The references of one resource: subscribe to what is new and link it.\<close>

fun link_refs :: "nat option \<Rightarrow> ResourceKey list \<Rightarrow> deltaClient \<Rightarrow> amap \<Rightarrow> (deltaClient \<times> amap) outcome" where
  "link_refs node [] d requests = Returns (d, requests)"
| "link_refs node (rkey # rs) d requests =
     (let (child, f, d1) = getNode rkey d;
          requests1 = (if \<not> f then (case k_type rkey of None \<Rightarrow> requests | Some t \<Rightarrow> am_add t (k_name rkey) requests)
                       else requests)
      in case node of
           None \<Rightarrow> Panics ''nil pointer dereference''
         | Some a \<Rightarrow> link_refs node rs (relate a child d1) requests1)"

text \<open>
  The node of a received resource: created (and hung below its root) when it is unknown and
  its type may have children; otherwise looked up, and ignored (None) when it is unknown and
  its type is not a wildcard one.
\<close>

definition find_or_create :: "type_url \<Rightarrow> string \<Rightarrow> deltaClient \<Rightarrow> (deltaClient \<times> bool) outcome" where
  "find_or_create typeUrl name d =
     (let key = key_of name typeUrl in
      if d_tree d key = None \<and> hasChildTypes typeUrl then
        (let (a, d1) = alloc key d in
         if typeUrl = ListenerType \<or> typeUrl = ClusterType then
           (case d_tree d1 (root_key typeUrl) of
              None \<Rightarrow> Panics ''nil pointer dereference''
            | Some r \<Rightarrow> Returns (relate r a d1, True))
         else Returns (d1, True))
      else if \<not> isWildcardTypeURL typeUrl \<and> d_tree d key = None then Returns (d, False)
      else Returns (d, True))"

fun handle_resources :: "codec \<Rightarrow> type_url \<Rightarrow> DeltaResource list \<Rightarrow> deltaClient \<Rightarrow> string list \<Rightarrow> amap \<Rightarrow>
    (deltaClient \<times> string list \<times> amap) outcome" where
  "handle_resources c typeUrl [] d res requests = Returns (d, res, requests)"
| "handle_resources c typeUrl (resp # rs) d res requests =
     obind (find_or_create typeUrl (res_name resp) d) (\<lambda>(d1, known).
       if \<not> known then handle_resources c typeUrl rs d1 res requests
       else
         (let node = d_tree d1 (key_of (res_name resp) typeUrl);
              res1 = set_add (res_name resp) res
          in obind (extractReferencedKeys c resp) (\<lambda>referenced.
               obind (link_refs node referenced d1 requests) (\<lambda>(d2, requests1).
                 handle_resources c typeUrl rs d2 res1 requests1))))"

text \<open>
  The removal loop. The fuel of each call is the number of heap nodes plus one, which is
  always enough (\<open>deleteNode_returns\<close>); \<open>Blocks\<close> would be a recursion that does not end.
\<close>

fun handle_removed :: "order \<Rightarrow> type_url \<Rightarrow> string list \<Rightarrow> dstate \<Rightarrow> dstate outcome" where
  "handle_removed ord typeUrl [] s = Returns s"
| "handle_removed ord typeUrl (n # ns) (d, removals) =
     (case d_tree d (key_of n typeUrl) of
        None \<Rightarrow> handle_removed ord typeUrl ns (d, removals)
      | Some a \<Rightarrow>
          (case deleteNode ord (Suc (length (d_heap d))) a (d, removals) of
             None \<Rightarrow> Blocks
           | Some s \<Rightarrow> handle_removed ord typeUrl ns s))"

definition keysOfMaps :: "order \<Rightarrow> amap list \<Rightarrow> type_url list" where
  "keysOfMaps ord ms = concat (map (\<lambda>m. ord_types ord (map fst m)) ms)"

fun values_of :: "'a handle list \<Rightarrow> 'a list outcome" where
  "values_of [] = Returns []"
| "values_of (h # hs) = obind (Value h) (\<lambda>v. obind (values_of hs) (\<lambda>vs. Returns (v # vs)))"

definition dsend :: "DeltaRequest \<Rightarrow> deltaClient \<Rightarrow> deltaClient" where
  "dsend dr d = d\<lparr>d_sent := d_sent d @ [dr]\<rparr>"

fun send_requests :: "type_url list \<Rightarrow> amap \<Rightarrow> amap \<Rightarrow> deltaClient \<Rightarrow> deltaClient outcome" where
  "send_requests [] requests removals d = Returns d"
| "send_requests (k # ks) requests removals d =
     (if am_get requests k = [] \<and> am_get removals k = [] then send_requests ks requests removals d
      else obind (values_of (am_get requests k)) (\<lambda>subs.
        obind (values_of (am_get removals k)) (\<lambda>unsubs.
          send_requests ks requests removals
            (dsend \<lparr>dd_type = k, dd_node = None, dd_nonce = [],
                    dd_subscribe = subs, dd_unsubscribe = unsubs\<rparr> d))))"

definition delta_msg :: "codec \<Rightarrow> order \<Rightarrow> DeltaResponse \<Rightarrow> deltaClient \<Rightarrow> deltaClient outcome" where
  "delta_msg c ord msg d =
     (let typeUrl = dm_type msg;
          res = (case d_resources d typeUrl of None \<Rightarrow> [] | Some r \<Rightarrow> r)
      in obind (handle_resources c typeUrl (dm_resources msg) d res []) (\<lambda>(d1, res1, requests).
         obind (handle_removed ord typeUrl (dm_removed msg) (d1, [])) (\<lambda>(d2, removals).
           let res2 = fold removeAll (dm_removed msg) res1;
               d3 = d2\<lparr>d_resources := (d_resources d2)(typeUrl \<mapsto> res2)\<rparr>
           in obind (send_requests (keysOfMaps ord [requests, removals]) requests removals d3) (\<lambda>d4.
                Returns (dsend \<lparr>dd_type = dm_type msg, dd_node = None, dd_nonce = dm_nonce msg,
                                dd_subscribe = [], dd_unsubscribe = []\<rparr> d4)))))"

definition delta_recv_error :: "deltaClient \<Rightarrow> deltaClient" where
  "delta_recv_error d = d\<lparr>d_closed := True, d_updates := d_updates d @ [''close'']\<rparr>"

fun delta_Watch_loop :: "bool \<Rightarrow> type_url list \<Rightarrow> deltaClient \<Rightarrow> deltaClient" where
  "delta_Watch_loop first [] d = d"
| "delta_Watch_loop first (t # ts) d =
     delta_Watch_loop False ts
       (dsend \<lparr>dd_type = t, dd_node = (if first then Some (d_node d) else None), dd_nonce = [],
               dd_subscribe = [], dd_unsubscribe = []\<rparr> d)"

definition delta_Watch :: "deltaClient \<Rightarrow> deltaClient" where
  "delta_Watch d = delta_Watch_loop True (d_initialWatches d) d"

text \<open>
  \<open>handleRecv\<close>: the messages that arrive, and then the error that ends the stream.
\<close>

fun delta_run :: "codec \<Rightarrow> order \<Rightarrow> DeltaResponse list \<Rightarrow> deltaClient \<Rightarrow> deltaClient outcome" where
  "delta_run c ord [] d = Returns d"
| "delta_run c ord (m # ms) d = obind (delta_msg c ord m d) (delta_run c ord ms)"

definition delta_handleRecv :: "codec \<Rightarrow> order \<Rightarrow> DeltaResponse list \<Rightarrow> deltaClient \<Rightarrow> deltaClient outcome" where
  "delta_handleRecv c ord ms d = obind (delta_run c ord ms d) (\<lambda>d'. Returns (delta_recv_error d'))"

section \<open>Printing the tree\<close>

text \<open>
  \<open>ResourceKey.String\<close>, with the wire name of a type as a parameter, and \<open>dumpTree\<close>. A root
  key is not the zero key, so its \<open>Name.Value()\<close> dereferences nil.
\<close>

definition trim_prefix :: "string \<Rightarrow> string \<Rightarrow> string" where
  "trim_prefix p s = (if take (length p) s = p then drop (length p) s else s)"

definition ResourceKey_String :: "(type_url \<Rightarrow> string) \<Rightarrow> ResourceKey \<Rightarrow> string outcome" where
  "ResourceKey_String url k =
     (if k_name k = None \<and> k_type k = None then Returns ''<wildcard>''
      else obind (Value (k_type k)) (\<lambda>t. obind (Value (k_name k)) (\<lambda>n.
             Returns (trim_prefix ''type.googleapis.com/envoy.config.'' (url t) @ ''/'' @ n))))"

text \<open>The recursion stops below ten columns of indentation; \<open>fuel\<close> counts the levels left.\<close>

fun dumpNode :: "(type_url \<Rightarrow> string) \<Rightarrow> order \<Rightarrow> deltaClient \<Rightarrow> nat \<Rightarrow> string \<Rightarrow> nat \<Rightarrow> string outcome" where
  "dumpNode url ord d 0 indent a = Blocks"
| "dumpNode url ord d (Suc fuel) indent a =
     obind (ResourceKey_String url (rn_key (d_heap d ! a))) (\<lambda>s.
       let line = indent @ s @ '':'' @ [CHR 0x0A]
       in if length indent > 10 then Returns line
          else fold (\<lambda>c acc. obind acc (\<lambda>out.
                 obind (dumpNode url ord d fuel
                   (indent @ (if a \<in> set (rn_parents (d_heap d ! c)) then ''  '' else ''**'')) c) (\<lambda>sub.
                   Returns (out @ sub))))
               (ord_nodes ord (rn_children (d_heap d ! a))) (Returns line))"

definition dumpTree :: "(type_url \<Rightarrow> string) \<Rightarrow> order \<Rightarrow> nat list \<Rightarrow> deltaClient \<Rightarrow> string outcome" where
  "dumpTree url ord nodes d =
     fold (\<lambda>a acc. obind acc (\<lambda>out. obind (dumpNode url ord d 7 [] a) (\<lambda>sub. Returns (out @ sub))))
       (filter (\<lambda>a. rn_parents (d_heap d ! a) = []) nodes) (Returns [])"

end
