(* ===== verification/Adsc_Delta_Tree.thy ===== *)
theory Adsc_Delta_Tree
  imports Adsc_Delta
begin

text \<open>
  The resource tree of the delta client: its invariant (keys and addresses agree, and the
  parent and child links of live nodes mirror each other), the effect of every heap operation
  on it, termination of deletion, and which nodes a deletion removes.
\<close>

section \<open>Views of the heap\<close>

abbreviation live_nodes :: "deltaClient \<Rightarrow> nat set" where
  "live_nodes d \<equiv> ran (d_tree d)"

abbreviation pars :: "deltaClient \<Rightarrow> nat \<Rightarrow> nat set" where
  "pars d x \<equiv> set (rn_parents (d_heap d ! x))"

abbreviation chs :: "deltaClient \<Rightarrow> nat \<Rightarrow> nat set" where
  "chs d x \<equiv> set (rn_children (d_heap d ! x))"

abbreviation nkey :: "deltaClient \<Rightarrow> nat \<Rightarrow> ResourceKey" where
  "nkey d x \<equiv> rn_key (d_heap d ! x)"

text \<open>
  \<open>tree_inv D d\<close>: the invariant while the nodes in \<open>D\<close> are being deleted; the empty set
  gives the invariant between messages.
\<close>

definition tree_inv :: "nat set \<Rightarrow> deltaClient \<Rightarrow> bool" where
  "tree_inv D d \<longleftrightarrow>
     (\<forall>k a. d_tree d k = Some a \<longrightarrow> a < length (d_heap d) \<and> nkey d a = k) \<and>
     (\<forall>a \<in> live_nodes d. \<forall>p \<in> pars d a. (p \<in> live_nodes d \<and> a \<in> chs d p) \<or> p \<in> D) \<and>
     (\<forall>a \<in> live_nodes d. \<forall>c \<in> chs d a. c \<in> live_nodes d \<and> a \<in> pars d c) \<and>
     (\<forall>a \<in> live_nodes d. distinct (rn_children (d_heap d ! a))) \<and>
     D \<inter> live_nodes d = {}"

lemma tree_inv_lookup: "tree_inv D d \<Longrightarrow> d_tree d k = Some a \<Longrightarrow> a < length (d_heap d) \<and> nkey d a = k"
  by (auto simp: tree_inv_def)

lemma tree_inv_live: "tree_inv D d \<Longrightarrow> a \<in> live_nodes d \<Longrightarrow> a < length (d_heap d) \<and> d_tree d (nkey d a) = Some a"
  by (auto simp: tree_inv_def ran_def)

lemma tree_inv_parent:
  "tree_inv D d \<Longrightarrow> a \<in> live_nodes d \<Longrightarrow> p \<in> pars d a \<Longrightarrow> (p \<in> live_nodes d \<and> a \<in> chs d p) \<or> p \<in> D"
  by (auto simp: tree_inv_def)

lemma tree_inv_child:
  "tree_inv D d \<Longrightarrow> a \<in> live_nodes d \<Longrightarrow> c \<in> chs d a \<Longrightarrow> c \<in> live_nodes d \<and> a \<in> pars d c"
  by (auto simp: tree_inv_def)

lemma tree_inv_distinct: "tree_inv D d \<Longrightarrow> a \<in> live_nodes d \<Longrightarrow> distinct (rn_children (d_heap d ! a))"
  by (auto simp: tree_inv_def)

lemma tree_inv_finite: "tree_inv D d \<Longrightarrow> finite (live_nodes d)"
  by (rule finite_subset [of _ "{..<length (d_heap d)}"]) (auto dest: tree_inv_live)

lemma tree_inv_card: "tree_inv D d \<Longrightarrow> card (live_nodes d) \<le> length (d_heap d)"
  using card_mono [of "{..<length (d_heap d)}" "live_nodes d"] by (auto dest: tree_inv_live)

section \<open>Heap operations\<close>

lemma upd_node_tree [simp]: "d_tree (upd_node a f d) = d_tree d"
  by (simp add: upd_node_def)

lemma upd_node_length [simp]: "length (d_heap (upd_node a f d)) = length (d_heap d)"
  by (simp add: upd_node_def)

lemma upd_node_nth:
  "d_heap (upd_node a f d) ! x = (if x = a \<and> a < length (d_heap d) then f (d_heap d ! a) else d_heap d ! x)"
  by (cases "a < length (d_heap d)") (auto simp: upd_node_def nth_list_update list_update_beyond)

lemma upd_node_frame [simp]:
  "d_sent (upd_node a f d) = d_sent d" "d_updates (upd_node a f d) = d_updates d"
  "d_resources (upd_node a f d) = d_resources d" "d_node (upd_node a f d) = d_node d"
  "d_initialWatches (upd_node a f d) = d_initialWatches d" "d_closed (upd_node a f d) = d_closed d"
  by (simp_all add: upd_node_def)

lemma set_set_add [simp]: "set (set_add x xs) = insert x (set xs)"
  by (auto simp: set_add_def)

lemma distinct_set_add [simp]: "distinct xs \<Longrightarrow> distinct (set_add x xs)"
  by (simp add: set_add_def)

lemma order_ok_nodes: "order_ok ord \<Longrightarrow> set (ord_nodes ord xs) = set xs \<and> distinct (ord_nodes ord xs) = distinct xs"
  by (metis order_ok_def set_mset_mset mset_eq_imp_distinct_iff)

lemma order_ok_types: "order_ok ord \<Longrightarrow> set (ord_types ord xs) = set xs"
  by (metis order_ok_def set_mset_mset)

text \<open>Unlinking a node from the child sets of its parents.\<close>

definition unlink_parents :: "nat \<Rightarrow> nat list \<Rightarrow> deltaClient \<Rightarrow> deltaClient" where
  "unlink_parents a ps = fold (\<lambda>p. upd_node p (rn_children_update (removeAll a))) ps"

lemma unlink_parents_frame [simp]:
  "d_tree (unlink_parents a ps d) = d_tree d" "length (d_heap (unlink_parents a ps d)) = length (d_heap d)"
  "d_sent (unlink_parents a ps d) = d_sent d" "d_updates (unlink_parents a ps d) = d_updates d"
  "d_resources (unlink_parents a ps d) = d_resources d" "d_closed (unlink_parents a ps d) = d_closed d"
  by (induction ps arbitrary: d) (auto simp: unlink_parents_def)

lemma unlink_parents_rest:
  "(unlink_parents a ps d)\<lparr>d_heap := [], d_tree := Map.empty\<rparr> = d\<lparr>d_heap := [], d_tree := Map.empty\<rparr>"
  by (induction ps arbitrary: d) (auto simp: unlink_parents_def upd_node_def)

lemma unlink_parents_node:
  "rn_key (d_heap (unlink_parents a ps d) ! x) = rn_key (d_heap d ! x) \<and>
   rn_parents (d_heap (unlink_parents a ps d) ! x) = rn_parents (d_heap d ! x) \<and>
   rn_children (d_heap (unlink_parents a ps d) ! x) =
     (if x \<in> set ps \<and> x < length (d_heap d) then removeAll a (rn_children (d_heap d ! x))
      else rn_children (d_heap d ! x))"
proof (induction ps arbitrary: d)
  case Nil
  then show ?case by (simp add: unlink_parents_def)
next
  case (Cons p ps)
  have step: "unlink_parents a (p # ps) d = unlink_parents a ps (upd_node p (rn_children_update (removeAll a)) d)"
    by (simp add: unlink_parents_def)
  show ?case
    unfolding step using Cons.IH by (simp add: upd_node_nth)
qed

text \<open>The state after the tree entry is gone and the parents have let go.\<close>

definition detach :: "order \<Rightarrow> nat \<Rightarrow> deltaClient \<Rightarrow> deltaClient" where
  "detach ord a d =
     (let d1 = d\<lparr>d_tree := (d_tree d)(nkey d a := None)\<rparr>
      in unlink_parents a (ord_nodes ord (rn_parents (d_heap d1 ! a))) d1)"

lemma deleteNode_Suc:
  "deleteNode ord (Suc fuel) a (d, removals) =
     delete_children (deleteNode ord fuel) a
       (ord_nodes ord (rn_children (d_heap (detach ord a d) ! a))) (detach ord a d, removals)"
  by (simp add: detach_def unlink_parents_def Let_def)

lemma detach_frame [simp]:
  "length (d_heap (detach ord a d)) = length (d_heap d)" "d_sent (detach ord a d) = d_sent d"
  "d_updates (detach ord a d) = d_updates d" "d_resources (detach ord a d) = d_resources d"
  "d_closed (detach ord a d) = d_closed d"
  "d_tree (detach ord a d) = (d_tree d)(nkey d a := None)"
  by (simp_all add: detach_def Let_def)

lemma detach_node:
  assumes "order_ok ord"
  shows "nkey (detach ord a d) x = nkey d x \<and> pars (detach ord a d) x = pars d x \<and>
    rn_children (d_heap (detach ord a d) ! x) =
      (if x \<in> pars d a \<and> x < length (d_heap d) then removeAll a (rn_children (d_heap d ! x))
       else rn_children (d_heap d ! x))"
  using unlink_parents_node [of a "ord_nodes ord (rn_parents (d_heap d ! a))"
      "d\<lparr>d_tree := (d_tree d)(nkey d a := None)\<rparr>" x] order_ok_nodes [OF assms]
  by (simp add: detach_def Let_def)

lemma live_detach:
  assumes "tree_inv D d" and "a \<in> live_nodes d"
  shows "live_nodes (detach ord a d) = live_nodes d - {a}"
proof -
  have eq: "d_tree d k = Some a \<longleftrightarrow> k = nkey d a" for k
    using tree_inv_live [OF assms] tree_inv_lookup [OF assms(1)] by auto
  show ?thesis
  proof (rule set_eqI)
    fix x
    have "x \<in> live_nodes (detach ord a d) \<longleftrightarrow> (\<exists>k. k \<noteq> nkey d a \<and> d_tree d k = Some x)"
      by (auto simp: ran_def)
    also have "\<dots> \<longleftrightarrow> x \<in> live_nodes d \<and> x \<noteq> a"
    proof -
      have "k = nkey d a \<longleftrightarrow> x = a" if "d_tree d k = Some x" for k
        using eq [of k] eq [of "nkey d a"] that by auto
      then show ?thesis unfolding ran_def by blast
    qed
    finally show "x \<in> live_nodes (detach ord a d) \<longleftrightarrow> x \<in> live_nodes d - {a}" by simp
  qed
qed

lemma tree_inv_detach:
  assumes inv: "tree_inv D d" and ord: "order_ok ord" and a: "a \<in> live_nodes d"
  shows "tree_inv (insert a D) (detach ord a d)"
    and "\<forall>c \<in> chs (detach ord a d) a. c \<in> live_nodes (detach ord a d) \<and> a \<in> pars (detach ord a d) c"
    and "\<forall>x \<in> live_nodes (detach ord a d). a \<in> pars (detach ord a d) x \<longrightarrow> x \<in> chs (detach ord a d) a"
    and "distinct (rn_children (d_heap (detach ord a d) ! a))"
proof -
  let ?d = "detach ord a d"
  note V = live_detach [OF inv a, of ord]
  note node = detach_node [OF ord, of a d]
  have len: "x < length (d_heap d)" if "x \<in> live_nodes d" for x
    using tree_inv_live [OF inv that] by simp
  have chs_eq: "chs ?d x = chs d x - {a}" if x: "x \<in> live_nodes d" for x
  proof (cases "x \<in> pars d a")
    case True
    then show ?thesis using node [of x] len [OF x] by simp
  next
    case False
    then have "a \<notin> chs d x" using tree_inv_child [OF inv x] by blast
    then show ?thesis using node [of x] False by simp
  qed
  have pars_eq: "pars ?d x = pars d x" for x using node [of x] by simp
  have key_eq: "nkey ?d x = nkey d x" for x using node [of x] by simp
  have dist: "distinct (rn_children (d_heap ?d ! x))" if "x \<in> live_nodes d" for x
    using inv that node [of x] by (simp add: tree_inv_def)
  have no_a: "a \<notin> D" using inv a by (auto simp: tree_inv_def)
  have look: "d_tree ?d k = Some b \<Longrightarrow> b < length (d_heap ?d) \<and> nkey ?d b = k" for k b
    using tree_inv_lookup [OF inv, of k b] key_eq by (auto split: if_splits)
  have up: "(p \<in> live_nodes ?d \<and> b \<in> chs ?d p) \<or> p \<in> insert a D"
    if "b \<in> live_nodes ?d" "p \<in> pars ?d b" for b p
    using tree_inv_parent [OF inv, of b p] that V pars_eq chs_eq by auto
  have down: "c \<in> live_nodes ?d \<and> b \<in> pars ?d c" if "b \<in> live_nodes d" "c \<in> chs ?d b" for b c
    using tree_inv_child [OF inv that(1), of c] that V pars_eq chs_eq by auto
  show "tree_inv (insert a D) ?d"
    unfolding tree_inv_def
  proof (intro conjI)
    show "\<forall>k b. d_tree ?d k = Some b \<longrightarrow> b < length (d_heap ?d) \<and> nkey ?d b = k"
      using look by blast
    show "\<forall>b \<in> live_nodes ?d. \<forall>p \<in> pars ?d b. (p \<in> live_nodes ?d \<and> b \<in> chs ?d p) \<or> p \<in> insert a D"
      using up by blast
    show "\<forall>b \<in> live_nodes ?d. \<forall>c \<in> chs ?d b. c \<in> live_nodes ?d \<and> b \<in> pars ?d c"
      using down V by blast
    show "\<forall>b \<in> live_nodes ?d. distinct (rn_children (d_heap ?d ! b))"
      using dist V by blast
    show "insert a D \<inter> live_nodes ?d = {}"
      using inv V by (auto simp: tree_inv_def)
  qed
  show "\<forall>c \<in> chs ?d a. c \<in> live_nodes ?d \<and> a \<in> pars ?d c"
    using down a by blast
  show "\<forall>x \<in> live_nodes ?d. a \<in> pars ?d x \<longrightarrow> x \<in> chs ?d a"
    using tree_inv_parent [OF inv, of _ a] V pars_eq chs_eq [OF a] no_a by blast
  show "distinct (rn_children (d_heap ?d ! a))"
    using dist a by blast
qed

section \<open>Deletion\<close>

text \<open>
  \<open>del_spec A E d r d' r'\<close>: between \<open>d\<close> and \<open>d'\<close> the nodes of \<open>A\<close> and every node whose parents
  have all gone (or lie in \<open>E\<close>, which has gone before) have left the tree, nobody else has, no
  remaining node has lost its last parent, and the removals list every name that left.
\<close>

definition same_frame :: "deltaClient \<Rightarrow> deltaClient \<Rightarrow> bool" where
  "same_frame d d' \<longleftrightarrow> length (d_heap d') = length (d_heap d) \<and> (\<forall>x. nkey d' x = nkey d x) \<and>
     d'\<lparr>d_heap := [], d_tree := Map.empty\<rparr> = d\<lparr>d_heap := [], d_tree := Map.empty\<rparr>"

definition del_spec :: "nat set \<Rightarrow> nat set \<Rightarrow> deltaClient \<Rightarrow> amap \<Rightarrow> deltaClient \<Rightarrow> amap \<Rightarrow> bool" where
  "del_spec A E d r d' r' \<longleftrightarrow>
     same_frame d d' \<and> d_tree d' \<subseteq>\<^sub>m d_tree d \<and> A \<inter> live_nodes d' = {} \<and>
     (\<forall>x \<in> live_nodes d'. pars d' x = pars d x - (live_nodes d - live_nodes d') - E) \<and>
     (\<forall>x \<in> live_nodes d - live_nodes d' - A. pars d x \<noteq> {} \<and> pars d x \<subseteq> (live_nodes d - live_nodes d') \<union> E) \<and>
     (\<forall>x \<in> live_nodes d'. pars d x \<noteq> {} \<longrightarrow> pars d' x \<noteq> {}) \<and>
     (\<forall>x \<in> live_nodes d - live_nodes d' - A. \<forall>t. k_type (nkey d x) = Some t \<longrightarrow>
        k_name (nkey d x) \<in> set (am_get r' t)) \<and>
     (\<forall>t. set (am_get r t) \<subseteq> set (am_get r' t)) \<and>
     (\<forall>t h. h \<in> set (am_get r' t) \<longrightarrow> h \<in> set (am_get r t) \<or>
        (\<exists>x \<in> live_nodes d. pars d x \<noteq> {} \<and> nkey d x = \<lparr>k_name = h, k_type = Some t\<rparr>))"

lemma del_spec_parts:
  assumes "del_spec A E d r d' r'"
  shows "same_frame d d'" "d_tree d' \<subseteq>\<^sub>m d_tree d" "A \<inter> live_nodes d' = {}"
    "\<forall>x \<in> live_nodes d'. pars d' x = pars d x - (live_nodes d - live_nodes d') - E"
    "\<forall>x \<in> live_nodes d - live_nodes d' - A. pars d x \<noteq> {} \<and> pars d x \<subseteq> (live_nodes d - live_nodes d') \<union> E"
    "\<forall>x \<in> live_nodes d'. pars d x \<noteq> {} \<longrightarrow> pars d' x \<noteq> {}"
    "\<forall>x \<in> live_nodes d - live_nodes d' - A. \<forall>t. k_type (nkey d x) = Some t \<longrightarrow> k_name (nkey d x) \<in> set (am_get r' t)"
    "\<forall>t. set (am_get r t) \<subseteq> set (am_get r' t)"
    "\<forall>t h. h \<in> set (am_get r' t) \<longrightarrow> h \<in> set (am_get r t) \<or>
        (\<exists>x \<in> live_nodes d. pars d x \<noteq> {} \<and> nkey d x = \<lparr>k_name = h, k_type = Some t\<rparr>)"
  using assms unfolding del_spec_def by - (elim conjE, assumption)+

lemma am_get_add: "am_get (am_add k v m) k' = (if k' = k then am_get m k @ [v] else am_get m k')"
  by (induction k v m rule: am_add.induct) (auto simp: am_get_def split: option.splits)

lemma ran_map_le: "m \<subseteq>\<^sub>m m' \<Longrightarrow> ran m \<subseteq> ran m'"
  by (force simp: map_le_def ran_def dom_def)

lemma same_frame_refl [simp]: "same_frame d d"
  by (simp add: same_frame_def)

lemma same_frame_trans: "same_frame d d1 \<Longrightarrow> same_frame d1 d2 \<Longrightarrow> same_frame d d2"
  by (simp add: same_frame_def)

definition unlink_child :: "nat \<Rightarrow> nat \<Rightarrow> deltaClient \<Rightarrow> deltaClient" where
  "unlink_child a c d = upd_node c (rn_parents_update (removeAll a)) d"

lemma unlink_child_simps [simp]:
  "d_tree (unlink_child a c d) = d_tree d"
  "length (d_heap (unlink_child a c d)) = length (d_heap d)"
  "nkey (unlink_child a c d) x = nkey d x" "rn_children (d_heap (unlink_child a c d) ! x) = rn_children (d_heap d ! x)"
  by (auto simp: unlink_child_def upd_node_nth)

lemma unlink_child_frame: "same_frame d (unlink_child a c d)"
  by (simp add: same_frame_def) (simp add: unlink_child_def upd_node_def)

lemma unlink_child_pars:
  "c < length (d_heap d) \<Longrightarrow> pars (unlink_child a c d) x = (if x = c then pars d c - {a} else pars d x)"
  by (simp add: unlink_child_def upd_node_nth)

lemma tree_inv_unlink:
  assumes inv: "tree_inv (insert a D) d" and c: "c \<in> live_nodes d"
  shows "tree_inv (insert a D) (unlink_child a c d)"
proof -
  have p: "pars (unlink_child a c d) x = (if x = c then pars d c - {a} else pars d x)" for x
    using unlink_child_pars tree_inv_live [OF inv c] by blast
  show ?thesis
    unfolding tree_inv_def unlink_child_simps p
  proof (intro conjI)
    show "\<forall>b \<in> live_nodes d. \<forall>q \<in> (if b = c then pars d c - {a} else pars d b).
        (q \<in> live_nodes d \<and> b \<in> chs d q) \<or> q \<in> insert a D"
      using tree_inv_parent [OF inv] by (auto split: if_splits)
    show "\<forall>b \<in> live_nodes d. \<forall>c' \<in> chs d b. c' \<in> live_nodes d \<and> b \<in> (if c' = c then pars d c - {a} else pars d c')"
    proof (intro ballI)
      fix b c' assume b: "b \<in> live_nodes d" "c' \<in> chs d b"
      have "b \<noteq> a" using inv b(1) by (auto simp: tree_inv_def)
      then show "c' \<in> live_nodes d \<and> b \<in> (if c' = c then pars d c - {a} else pars d c')"
        using tree_inv_child [OF inv b] by (cases "c' = c") simp_all
    qed
  qed (use inv in \<open>simp_all add: tree_inv_def\<close>)
qed

lemma tree_inv_drop:
  assumes inv: "tree_inv (insert a D) d" and no: "\<forall>x \<in> live_nodes d. a \<notin> pars d x"
  shows "tree_inv D d"
  unfolding tree_inv_def
proof (intro conjI)
  show "\<forall>b \<in> live_nodes d. \<forall>p \<in> pars d b. (p \<in> live_nodes d \<and> b \<in> chs d p) \<or> p \<in> D"
    using tree_inv_parent [OF inv] no by blast
qed (use inv in \<open>auto simp: tree_inv_def\<close>)

lemma delete_children_Cons:
  "delete_children del a (c # cs) (d, r) =
     (let d1 = unlink_child a c d;
          r1 = (case k_type (nkey d c) of None \<Rightarrow> r | Some t \<Rightarrow> am_add t (k_name (nkey d c)) r)
      in if pars d1 c = {} then
           (case del c (d1, r1) of None \<Rightarrow> None | Some s2 \<Rightarrow> delete_children del a cs s2)
         else delete_children del a cs (d1, r1))"
proof -
  have "nkey (upd_node c (rn_parents_update (removeAll a)) d) c = nkey d c"
    by (simp add: upd_node_nth)
  then show ?thesis by (simp add: Let_def unlink_child_def cong: option.case_cong)
qed

text \<open>One child and then the rest.\<close>

lemma orphan_sets:
  "P2 \<noteq> {} \<Longrightarrow> P2 \<subseteq> G2 \<union> {a} \<Longrightarrow> P2 = P1 - G1 \<Longrightarrow> P1 \<subseteq> P \<Longrightarrow> P \<subseteq> insert a P1 \<Longrightarrow> G = G1 \<union> G2 \<Longrightarrow>
    P \<noteq> {} \<and> P \<subseteq> G \<union> {a}"
  by blast

lemma del_spec_cons:
  assumes c: "c \<in> live_nodes d" "c < length (d_heap d)" "a \<in> pars d c" "a \<notin> live_nodes d"
    and r1: "r1 = (case k_type (nkey d c) of None \<Rightarrow> r | Some t \<Rightarrow> am_add t (k_name (nkey d c)) r)"
    and first: "if pars (unlink_child a c d) c = {} then del_spec {c} {} (unlink_child a c d) r1 d2 r2
        else d2 = unlink_child a c d \<and> r2 = r1"
    and rest: "del_spec {} {a} d2 r2 d' r'"
  shows "del_spec {} {a} d r d' r'"
proof -
  let ?d1 = "unlink_child a c d"
  let ?V = "live_nodes d" and ?V2 = "live_nodes d2" and ?V' = "live_nodes d'"
  have p1: "pars ?d1 x = (if x = c then pars d c - {a} else pars d x)" for x
    by (rule unlink_child_pars [OF c(2)])
  have r1_mono: "set (am_get r t) \<subseteq> set (am_get r1 t)" for t
    unfolding r1 by (auto simp: am_get_add split: option.splits)
  have r1_c: "k_type (nkey d c) = Some t \<Longrightarrow> k_name (nkey d c) \<in> set (am_get r1 t)" for t
    unfolding r1 by (auto simp: am_get_add)
  have p1_sub: "pars ?d1 x \<subseteq> pars d x" for x unfolding p1 by auto
  have p1_ne: "pars d x \<noteq> {}" if "pars ?d1 x \<noteq> {}" for x
    using that p1_sub [of x] by (metis subset_empty)
  have r1_from: "h \<in> set (am_get r t) \<or> nkey d c = \<lparr>k_name = h, k_type = Some t\<rparr>"
    if "h \<in> set (am_get r1 t)" for h t
    using that unfolding r1 by (cases "nkey d c") (auto simp: am_get_add split: option.splits if_splits)
  have step: "same_frame ?d1 d2 \<and> d_tree d2 \<subseteq>\<^sub>m d_tree d \<and>
     (\<forall>x \<in> ?V2. pars d2 x = pars ?d1 x - (?V - ?V2)) \<and>
     (\<forall>x \<in> ?V - ?V2 - {c}. pars ?d1 x \<noteq> {} \<and> pars ?d1 x \<subseteq> ?V - ?V2) \<and>
     (c \<notin> ?V2 \<longrightarrow> pars ?d1 c = {}) \<and> (c \<in> ?V2 \<longrightarrow> pars ?d1 c \<noteq> {}) \<and>
     (\<forall>x \<in> ?V2. pars ?d1 x \<noteq> {} \<longrightarrow> pars d2 x \<noteq> {}) \<and>
     (\<forall>x \<in> ?V - ?V2 - {c}. \<forall>t. k_type (nkey d x) = Some t \<longrightarrow> k_name (nkey d x) \<in> set (am_get r2 t)) \<and>
     (\<forall>t. set (am_get r1 t) \<subseteq> set (am_get r2 t)) \<and>
     (\<forall>t h. h \<in> set (am_get r2 t) \<longrightarrow> h \<in> set (am_get r1 t) \<or>
        (\<exists>x \<in> ?V. pars ?d1 x \<noteq> {} \<and> nkey d x = \<lparr>k_name = h, k_type = Some t\<rparr>))"
  proof (cases "pars ?d1 c = {}")
    case True
    then have sp: "del_spec {c} {} ?d1 r1 d2 r2" using first by simp
    note parts = del_spec_parts [OF sp, unfolded unlink_child_simps Diff_empty Un_empty_right]
    show ?thesis
    proof (intro conjI)
      show "c \<notin> ?V2 \<longrightarrow> pars ?d1 c = {}" using True by blast
      show "c \<in> ?V2 \<longrightarrow> pars ?d1 c \<noteq> {}" using parts(3) by blast
    qed (rule parts)+
  next
    case False
    then have "d2 = ?d1" "r2 = r1" using first by simp_all
    then show ?thesis using False c(1) by simp
  qed
  have tree2: "d_tree d2 \<subseteq>\<^sub>m d_tree d" using step by (elim conjE)
  have s_frame: "same_frame ?d1 d2" using step by (elim conjE)
  have s_pars: "\<forall>x \<in> ?V2. pars d2 x = pars ?d1 x - (?V - ?V2)" using step by (elim conjE)
  have s_gone: "\<forall>x \<in> ?V - ?V2 - {c}. pars ?d1 x \<noteq> {} \<and> pars ?d1 x \<subseteq> ?V - ?V2" using step by (elim conjE)
  have s_c: "c \<notin> ?V2 \<longrightarrow> pars ?d1 c = {}" "c \<in> ?V2 \<longrightarrow> pars ?d1 c \<noteq> {}" using step by - (elim conjE, assumption)+
  have s_kept: "\<forall>x \<in> ?V2. pars ?d1 x \<noteq> {} \<longrightarrow> pars d2 x \<noteq> {}" using step by (elim conjE)
  have s_names: "\<forall>x \<in> ?V - ?V2 - {c}. \<forall>t. k_type (nkey d x) = Some t \<longrightarrow> k_name (nkey d x) \<in> set (am_get r2 t)"
    using step by (elim conjE)
  have s_mono: "\<forall>t. set (am_get r1 t) \<subseteq> set (am_get r2 t)" using step by (elim conjE)
  have s_from: "\<forall>t h. h \<in> set (am_get r2 t) \<longrightarrow> h \<in> set (am_get r1 t) \<or>
        (\<exists>x \<in> ?V. pars ?d1 x \<noteq> {} \<and> nkey d x = \<lparr>k_name = h, k_type = Some t\<rparr>)" using step by (elim conjE)
  note rp = del_spec_parts [OF rest]
  have V2: "?V2 \<subseteq> ?V" using tree2 by (rule ran_map_le)
  have V': "?V' \<subseteq> ?V2" using rp(2) by (rule ran_map_le)
  have gone: "?V - ?V' = (?V - ?V2) \<union> (?V2 - ?V')" using V2 V' by blast
  have key2: "nkey d2 x = nkey d x" for x
    using s_frame by (simp add: same_frame_def)
  have pars': "pars d' x = pars d x - (?V - ?V') - {a}" if x: "x \<in> ?V'" for x
  proof -
    have "pars d' x = pars d2 x - (?V2 - ?V') - {a}" using rp(4) x by simp
    moreover have "pars d2 x = pars ?d1 x - (?V - ?V2)" using s_pars x V' by blast
    moreover have "pars ?d1 x - {a} = pars d x - {a}" unfolding p1 by auto
    ultimately show ?thesis unfolding gone by blast
  qed
  have orphans: "pars d x \<noteq> {} \<and> pars d x \<subseteq> (?V - ?V') \<union> {a}" if x: "x \<in> ?V - ?V'" for x
  proof (cases "x \<in> ?V2")
    case True
    then have "pars d2 x \<noteq> {}" "pars d2 x \<subseteq> (?V2 - ?V') \<union> {a}" using rp(5) x by simp_all
    moreover have "pars d2 x = pars ?d1 x - (?V - ?V2)" using s_pars True by blast
    moreover have "pars ?d1 x \<subseteq> pars d x" "pars d x \<subseteq> insert a (pars ?d1 x)" unfolding p1 by auto
    ultimately show ?thesis by (rule orphan_sets [OF _ _ _ _ _ gone])
  next
    case False
    show ?thesis
    proof (cases "x = c")
      case True
      then have "pars d c - {a} = {}" using False s_c p1 [of c] by simp
      then have "pars d x \<subseteq> {a}" unfolding True Diff_eq_empty_iff .
      then show ?thesis using True c(3) by auto
    next
      case neq: False
      then have "pars ?d1 x \<noteq> {} \<and> pars ?d1 x \<subseteq> ?V - ?V2" using False x s_gone by blast
      then show ?thesis using p1 [of x] neq unfolding gone by (simp del: set_empty) (simp only: le_supI1 subset_insertI2)
    qed
  qed
  have kept: "pars d' x \<noteq> {}" if x: "x \<in> ?V'" "pars d x \<noteq> {}" for x
  proof -
    have "pars ?d1 x \<noteq> {}" using p1 [of x] x V' s_c by (cases "x = c") auto
    then have "pars d2 x \<noteq> {}" using s_kept x(1) V' by blast
    then show ?thesis using rp(6) x(1) by blast
  qed
  have names: "k_name (nkey d x) \<in> set (am_get r' t)"
    if x: "x \<in> ?V - ?V'" "k_type (nkey d x) = Some t" for x t
  proof -
    have r2': "set (am_get r2 t) \<subseteq> set (am_get r' t)" using rp(8) by blast
    consider "x \<in> ?V2" | "x = c" "x \<notin> ?V2" | "x \<noteq> c" "x \<notin> ?V2" by blast
    then show ?thesis
    proof cases
      case 1
      then show ?thesis using rp(7) x key2 by simp
    next
      case 2
      then show ?thesis using r1_c [of t] x(2) s_mono r2' by blast
    next
      case 3
      then show ?thesis using x s_names r2' by blast
    qed
  qed
  have "same_frame d d'"
    using same_frame_trans [OF same_frame_trans [OF unlink_child_frame s_frame] rp(1)] .
  moreover have "d_tree d' \<subseteq>\<^sub>m d_tree d" using rp(2) tree2 by (rule map_le_trans)
  moreover have "set (am_get r t) \<subseteq> set (am_get r' t)" for t
    using r1_mono s_mono rp(8) by blast
  moreover have "h \<in> set (am_get r t) \<or>
      (\<exists>x \<in> ?V. pars d x \<noteq> {} \<and> nkey d x = \<lparr>k_name = h, k_type = Some t\<rparr>)"
    if h: "h \<in> set (am_get r' t)" for t h
  proof -
    consider "h \<in> set (am_get r2 t)"
      | x where "x \<in> ?V2" "pars d2 x \<noteq> {}" "nkey d2 x = \<lparr>k_name = h, k_type = Some t\<rparr>"
      using rp(9) [rule_format, OF h] by (elim disjE bexE conjE)
    then show ?thesis
    proof cases
      case 1
      then consider "h \<in> set (am_get r1 t)"
        | x where "x \<in> ?V" "pars ?d1 x \<noteq> {}" "nkey d x = \<lparr>k_name = h, k_type = Some t\<rparr>"
        using s_from [rule_format, OF 1] by (elim disjE bexE conjE)
      then show ?thesis
      proof cases
        case 1
        have ne: "pars d c \<noteq> {}" using c(3) by force
        from r1_from [OF 1] show ?thesis using c(1) ne by metis
      next
        case 2
        have "pars d x \<noteq> {}" by (rule p1_ne [OF 2(2)])
        then show ?thesis using 2(1,3) by (intro disjI2 bexI [of _ x] conjI)
      qed
    next
      case 2
      have "pars ?d1 x \<noteq> {}" using s_pars 2 by fastforce
      then have "pars d x \<noteq> {}" by (rule p1_ne)
      then show ?thesis using 2(1,3) V2 key2 by auto
    qed
  qed
  ultimately show ?thesis
    unfolding del_spec_def using pars' orphans kept names by (intro conjI) (assumption | simp)+
qed

text \<open>The loop over the children, for a recursive call that meets the specification.\<close>

lemma delete_children_spec:
  assumes del: "\<And>D d r c. tree_inv D d \<Longrightarrow> c \<in> live_nodes d \<Longrightarrow> card (live_nodes d) \<le> fuel \<Longrightarrow>
      \<exists>d' r'. del c (d, r) = Some (d', r') \<and> tree_inv D d' \<and> del_spec {c} {} d r d' r'"
  shows "tree_inv (insert a D) d \<Longrightarrow> distinct cs \<Longrightarrow> \<forall>c \<in> set cs. c \<in> live_nodes d \<and> a \<in> pars d c \<Longrightarrow>
    \<forall>x \<in> live_nodes d. a \<in> pars d x \<longrightarrow> x \<in> set cs \<Longrightarrow> card (live_nodes d) \<le> fuel \<Longrightarrow>
    \<exists>d' r'. delete_children del a cs (d, r) = Some (d', r') \<and> tree_inv D d' \<and> del_spec {} {a} d r d' r'"
proof (induction cs arbitrary: d r)
  case Nil
  then have no: "\<forall>x \<in> live_nodes d. a \<notin> pars d x" by simp
  moreover have "del_spec {} {a} d r d r" using no by (auto simp: del_spec_def)
  ultimately show ?case using tree_inv_drop [OF Nil.prems(1)] by simp
next
  case (Cons c cs)
  let ?d1 = "unlink_child a c d"
  define r1 where "r1 = (case k_type (nkey d c) of None \<Rightarrow> r | Some t \<Rightarrow> am_add t (k_name (nkey d c)) r)"
  have c: "c \<in> live_nodes d" "a \<in> pars d c" using Cons.prems(3) by simp_all
  have lenc: "c < length (d_heap d)" using tree_inv_live [OF Cons.prems(1) c(1)] by simp
  have noa: "a \<notin> live_nodes d" using Cons.prems(1) by (auto simp: tree_inv_def)
  have inv1: "tree_inv (insert a D) ?d1" by (rule tree_inv_unlink [OF Cons.prems(1) c(1)])
  have p1: "pars ?d1 x = (if x = c then pars d c - {a} else pars d x)" for x
    by (rule unlink_child_pars [OF lenc])
  obtain d2 r2 where step: "(if pars ?d1 c = {} then del c (?d1, r1) else Some (?d1, r1)) = Some (d2, r2)"
    and inv2: "tree_inv (insert a D) d2"
    and first: "if pars ?d1 c = {} then del_spec {c} {} ?d1 r1 d2 r2 else d2 = ?d1 \<and> r2 = r1"
    using del [OF inv1, of c r1] c(1) Cons.prems(5) inv1 by (cases "pars ?d1 c = {}") auto
  have live2: "x \<in> live_nodes d2 \<and> pars d2 x - {a} \<subseteq> pars d x \<and> (a \<in> pars d2 x)"
    if x: "x \<in> set cs" for x
  proof -
    have xc: "x \<noteq> c" using Cons.prems(2) x by auto
    have px: "a \<in> pars ?d1 x" "x \<in> live_nodes ?d1" using Cons.prems(3) x p1 xc by auto
    show ?thesis
    proof (cases "pars ?d1 c = {}")
      case True
      then have sp: "del_spec {c} {} ?d1 r1 d2 r2" using first by simp
      have "x \<in> live_nodes d2"
      proof (rule ccontr)
        assume "x \<notin> live_nodes d2"
        then have "pars ?d1 x \<subseteq> live_nodes ?d1 - live_nodes d2" using sp px xc by (auto simp: del_spec_def)
        then show False using px noa by auto
      qed
      moreover from this have "pars d2 x = pars ?d1 x - (live_nodes ?d1 - live_nodes d2)"
        using sp by (simp add: del_spec_def)
      ultimately show ?thesis using px noa p1 [of x] xc by auto
    next
      case False
      then show ?thesis using first px p1 [of x] xc by auto
    qed
  qed
  have sub2: "live_nodes d2 \<subseteq> live_nodes d"
    using first by (auto simp: del_spec_def split: if_splits dest: ran_map_le)
  have a2: "x \<in> set cs" if x: "x \<in> live_nodes d2" "a \<in> pars d2 x" for x
  proof -
    have "a \<in> pars ?d1 x"
      using first x by (cases "pars ?d1 c = {}") (auto simp: del_spec_def)
    then show ?thesis using p1 [of x] x(1) sub2 Cons.prems(4) by (auto split: if_splits)
  qed
  have card2: "card (live_nodes d2) \<le> fuel"
    using card_mono [OF tree_inv_finite [OF Cons.prems(1)] sub2] Cons.prems(5) by simp
  have "\<exists>d' r'. delete_children del a cs (d2, r2) = Some (d', r') \<and> tree_inv D d' \<and> del_spec {} {a} d2 r2 d' r'"
    by (rule Cons.IH [OF inv2]) (use Cons.prems(2) live2 a2 card2 in simp_all)
  then obtain d' r' where rest: "delete_children del a cs (d2, r2) = Some (d', r')"
    and inv': "tree_inv D d'" and sp': "del_spec {} {a} d2 r2 d' r'"
    by blast
  have "delete_children del a (c # cs) (d, r) = Some (d', r')"
    unfolding delete_children_Cons Let_def r1_def [symmetric]
    using step rest by (auto simp del: delete_children.simps split: if_splits)
  then show ?case
    using inv' del_spec_cons [OF c(1) lenc c(2) noa r1_def first sp'] by blast
qed

text \<open>Deletion ends within as many calls as there are live nodes, and meets its specification.\<close>

lemma deleteNode_returns:
  assumes ord: "order_ok ord"
  shows "tree_inv D d \<Longrightarrow> a \<in> live_nodes d \<Longrightarrow> card (live_nodes d) \<le> fuel \<Longrightarrow>
    \<exists>d' r'. deleteNode ord fuel a (d, r) = Some (d', r') \<and> tree_inv D d' \<and> del_spec {a} {} d r d' r'"
proof (induction fuel arbitrary: D d a r)
  case 0
  then show ?case using tree_inv_finite [OF 0(1)] by auto
next
  case (Suc fuel)
  let ?d = "detach ord a d"
  note inv = Suc.prems(1) and a = Suc.prems(2)
  note det = tree_inv_detach [OF inv ord a]
  note V = live_detach [OF inv a, of ord]
  have card: "card (live_nodes ?d) \<le> fuel"
    using Suc.prems(3) a tree_inv_finite [OF inv] by (simp only: V card_Diff_singleton)
  define cs where "cs = ord_nodes ord (rn_children (d_heap ?d ! a))"
  have cs: "set cs = chs ?d a" "distinct cs"
    using order_ok_nodes [OF ord] det(4) by (simp_all add: cs_def)
  have "\<exists>d' r'. delete_children (deleteNode ord fuel) a cs (?d, r) = Some (d', r') \<and> tree_inv D d' \<and>
      del_spec {} {a} ?d r d' r'"
    by (rule delete_children_spec [of fuel]) (rule Suc.IH; assumption | use det cs card in \<open>simp only:\<close>)+
  then obtain d' r' where run: "delete_children (deleteNode ord fuel) a cs (?d, r) = Some (d', r')"
    and inv': "tree_inv D d'" and sp: "del_spec {} {a} ?d r d' r'"
    by blast
  have node: "nkey ?d x = nkey d x" "pars ?d x = pars d x" for x
    using detach_node [OF ord, of a d x] by simp_all
  have frame: "same_frame d ?d"
    by (simp add: same_frame_def node) (simp add: detach_def Let_def unlink_parents_rest)
  have tree: "d_tree d' \<subseteq>\<^sub>m d_tree d"
    using sp by (auto simp: del_spec_def map_le_def split: if_splits)
  have sub: "live_nodes d' \<subseteq> live_nodes ?d" using sp by (auto simp: del_spec_def dest: ran_map_le)
  then have gone: "live_nodes d - live_nodes d' = insert a (live_nodes ?d - live_nodes d')"
    using V a by blast
  have gone': "live_nodes d - live_nodes d' - {a} = live_nodes ?d - live_nodes d'"
    using V by blast
  have "del_spec {a} {} d r d' r'"
    unfolding del_spec_def gone' unfolding gone
  proof (intro conjI)
    show "same_frame d d'" using frame sp same_frame_trans by (auto simp: del_spec_def)
    show "{a} \<inter> live_nodes d' = {}" using sub V by blast
    show "\<forall>x \<in> live_nodes d'. pars d' x = pars d x - insert a (live_nodes ?d - live_nodes d') - {}"
      using sp node by (auto simp: del_spec_def)
    show "\<forall>x \<in> live_nodes ?d - live_nodes d'. pars d x \<noteq> {} \<and>
        pars d x \<subseteq> insert a (live_nodes ?d - live_nodes d') \<union> {}"
      using sp node unfolding del_spec_def by auto
    show "\<forall>x \<in> live_nodes d'. pars d x \<noteq> {} \<longrightarrow> pars d' x \<noteq> {}"
      using del_spec_parts(6) [OF sp] unfolding node .
    show "\<forall>x \<in> live_nodes ?d - live_nodes d'. \<forall>t. k_type (nkey d x) = Some t \<longrightarrow>
        k_name (nkey d x) \<in> set (am_get r' t)"
      using sp node by (simp add: del_spec_def)
    show "\<forall>t. set (am_get r t) \<subseteq> set (am_get r' t)" using sp by (simp add: del_spec_def)
    show "\<forall>t h. h \<in> set (am_get r' t) \<longrightarrow> h \<in> set (am_get r t) \<or>
        (\<exists>x \<in> live_nodes d. pars d x \<noteq> {} \<and> nkey d x = \<lparr>k_name = h, k_type = Some t\<rparr>)"
      using del_spec_parts(9) [OF sp, unfolded V node] by (meson DiffD1)
  qed (use tree in simp)
  then show ?case using run inv' unfolding deleteNode_Suc cs_def by blast
qed

end
