(* ===== verification/Adsc_Delta_Client.thy ===== *)
theory Adsc_Delta_Client
  imports Adsc_Delta_Tree
begin

text \<open>
  The delta client as a whole: the invariant of its tree between messages (the roots stay, every
  reference hangs below something), what one message does to the tree and to the names the client
  is subscribed to, and that every message is answered by exactly one ACK.
\<close>

section \<open>The invariant\<close>

definition root_types :: "type_url set" where
  "root_types = {ListenerType, ClusterType}"

definition well_keyed :: "ResourceKey \<Rightarrow> bool" where
  "well_keyed k \<longleftrightarrow> k_type k \<noteq> None \<and> (k_name k = None \<longrightarrow> k \<in> root_key ` root_types)"

text \<open>A key whose node may have no parent: a root, or an internal type that is not under a root.\<close>

definition may_be_top :: "ResourceKey \<Rightarrow> bool" where
  "may_be_top k \<longleftrightarrow> k_name k = None \<or> (\<exists>t. k_type k = Some t \<and> hasChildTypes t \<and> t \<notin> root_types)"

definition client_inv :: "nat set \<Rightarrow> deltaClient \<Rightarrow> bool" where
  "client_inv H d \<longleftrightarrow> tree_inv {} d \<and>
     (\<forall>t \<in> root_types. \<exists>r. d_tree d (root_key t) = Some r \<and> pars d r = {}) \<and>
     (\<forall>k \<in> dom (d_tree d). well_keyed k) \<and>
     (\<forall>a \<in> live_nodes d - H. pars d a = {} \<longrightarrow> may_be_top (nkey d a))"

lemma client_inv_tree: "client_inv H d \<Longrightarrow> tree_inv {} d"
  by (simp add: client_inv_def)

lemma client_inv_cong: "d_heap d' = d_heap d \<Longrightarrow> d_tree d' = d_tree d \<Longrightarrow> client_inv H d' = client_inv H d"
  by (simp only: client_inv_def tree_inv_def)

lemma client_inv_mono: "client_inv H d \<Longrightarrow> H \<subseteq> H' \<Longrightarrow> client_inv H' d"
  unfolding client_inv_def by blast

lemma client_inv_root:
  "client_inv H d \<Longrightarrow> t \<in> root_types \<Longrightarrow> \<exists>r. d_tree d (root_key t) = Some r \<and> pars d r = {}"
  by (simp add: client_inv_def)

lemma key_of_not_root [simp]: "key_of n t \<noteq> root_key t'" "root_key t' \<noteq> key_of n t"
  by (simp_all add: key_of_def root_key_def intern_def)

lemma key_of_inject [simp]: "key_of n t = key_of n' t' \<longleftrightarrow> n = n' \<and> t = t'"
  by (simp add: key_of_def intern_def)

lemma root_key_inject [simp]: "root_key t = root_key t' \<longleftrightarrow> t = t'"
  by (simp add: root_key_def intern_def)

lemma key_of_simps [simp]: "k_name (key_of n t) = Some n" "k_type (key_of n t) = Some t"
  by (simp_all add: key_of_def intern_def)

lemma client_inv_new: "client_inv {} (new_delta nodeID nodeType)"
proof -
  let ?d = "new_delta nodeID nodeType"
  have live: "live_nodes ?d = {0, 1}"
    by (auto simp add: new_delta_def ran_map_upd)
  have heap: "d_heap ?d ! 0 = new_node (root_key ListenerType)" "d_heap ?d ! Suc 0 = new_node (root_key ClusterType)"
    "length (d_heap ?d) = 2" by (simp_all add: new_delta_def)
  have tree: "d_tree ?d k = (if k = root_key ClusterType then Some 1 else if k = root_key ListenerType then Some 0 else None)" for k
    by (simp add: new_delta_def)
  have "tree_inv {} ?d"
    unfolding tree_inv_def live by (simp add: tree heap new_node_def)
  then show ?thesis
    unfolding client_inv_def live
    by (auto simp: tree heap new_node_def root_types_def well_keyed_def may_be_top_def root_key_def intern_def split: if_splits)
qed

section \<open>Growing the tree\<close>

text \<open>Only the heap and the tree change, and the tree keeps every entry.\<close>

definition grown :: "deltaClient \<Rightarrow> deltaClient \<Rightarrow> bool" where
  "grown d d' \<longleftrightarrow> d_tree d \<subseteq>\<^sub>m d_tree d' \<and>
     d'\<lparr>d_heap := [], d_tree := Map.empty\<rparr> = d\<lparr>d_heap := [], d_tree := Map.empty\<rparr>"

lemma grown_refl [simp]: "grown d d"
  by (simp add: grown_def)

lemma grown_trans: "grown d d1 \<Longrightarrow> grown d1 d2 \<Longrightarrow> grown d d2"
  unfolding grown_def by (metis map_le_trans)

lemma grown_lookup: "grown d d' \<Longrightarrow> d_tree d k = Some a \<Longrightarrow> d_tree d' k = Some a"
  by (auto simp: grown_def map_le_def dom_def)

lemma relate_grown: "grown d (relate p c d)"
  by (simp add: grown_def relate_def upd_node_def)

lemma relate_tree [simp]: "d_tree (relate p c d) = d_tree d"
  by (simp add: relate_def)

lemma relate_node:
  assumes "p < length (d_heap d)" "c < length (d_heap d)"
  shows "nkey (relate p c d) x = nkey d x"
    and "pars (relate p c d) x = (if x = c then insert p (pars d x) else pars d x)"
    and "rn_children (d_heap (relate p c d) ! x) =
      (if x = p then set_add c (rn_children (d_heap d ! x)) else rn_children (d_heap d ! x))"
    and "length (d_heap (relate p c d)) = length (d_heap d)"
  using assms by (auto simp: relate_def upd_node_nth)

lemma client_inv_relate:
  assumes inv: "client_inv H d" and H: "H \<subseteq> {c}" and p: "p \<in> live_nodes d" and c: "c \<in> live_nodes d"
    and named: "k_name (nkey d c) \<noteq> None"
  shows "client_inv {} (relate p c d)"
proof -
  let ?d = "relate p c d"
  note tinv = client_inv_tree [OF inv]
  have len: "p < length (d_heap d)" "c < length (d_heap d)"
    using tree_inv_live [OF tinv] p c by auto
  note node = relate_node [OF len]
  have "tree_inv {} ?d"
    unfolding tree_inv_def relate_tree
  proof (intro conjI)
    show "\<forall>k a. d_tree d k = Some a \<longrightarrow> a < length (d_heap ?d) \<and> nkey ?d a = k"
      using tree_inv_lookup [OF tinv] node by simp
    show "\<forall>a \<in> live_nodes d. \<forall>q \<in> pars ?d a. (q \<in> live_nodes d \<and> a \<in> chs ?d q) \<or> q \<in> {}"
      using tree_inv_parent [OF tinv] p node(2,3) by auto
    show "\<forall>a \<in> live_nodes d. \<forall>q \<in> chs ?d a. q \<in> live_nodes d \<and> a \<in> pars ?d q"
      using tree_inv_child [OF tinv] c node(2,3) by auto
    show "\<forall>a \<in> live_nodes d. distinct (rn_children (d_heap ?d ! a))"
      using tree_inv_distinct [OF tinv] node(3) by simp
  qed simp
  moreover have "\<exists>r. d_tree ?d (root_key t) = Some r \<and> pars ?d r = {}" if t: "t \<in> root_types" for t
  proof -
    obtain r where r: "d_tree d (root_key t) = Some r" "pars d r = {}"
      using client_inv_root [OF inv t] by blast
    have "r \<noteq> c" using tree_inv_lookup [OF tinv r(1)] named by (auto simp: root_key_def)
    then show ?thesis using r node(2) by simp
  qed
  moreover have "\<forall>a \<in> live_nodes ?d. pars ?d a = {} \<longrightarrow> may_be_top (nkey ?d a)"
  proof (intro ballI impI)
    fix a assume a: "a \<in> live_nodes ?d" "pars ?d a = {}"
    then have "a \<noteq> c" "pars d a = {}" using node(2) by (auto split: if_splits)
    then show "may_be_top (nkey ?d a)"
      using a(1) inv H node(1) by (auto simp: client_inv_def)
  qed
  moreover have "\<forall>k \<in> dom (d_tree ?d). well_keyed k" using inv by (simp add: client_inv_def)
  ultimately show ?thesis by (simp add: client_inv_def)
qed

lemma alloc_eq:
  "fst (alloc k d) = length (d_heap d)"
  "d_tree (snd (alloc k d)) = (d_tree d)(k \<mapsto> length (d_heap d))"
  "d_heap (snd (alloc k d)) = d_heap d @ [new_node k]"
  by (simp_all add: alloc_def)

lemma alloc_grown: "d_tree d k = None \<Longrightarrow> grown d (snd (alloc k d))"
  by (auto simp: grown_def alloc_def map_le_def dom_def)

lemma live_alloc: "d_tree d k = None \<Longrightarrow> live_nodes (snd (alloc k d)) = insert (length (d_heap d)) (live_nodes d)"
  by (simp add: alloc_eq ran_map_upd)

lemma client_inv_alloc:
  assumes inv: "client_inv {} d" and k: "d_tree d k = None" "well_keyed k"
  shows "client_inv {length (d_heap d)} (snd (alloc k d))"
proof -
  let ?d = "snd (alloc k d)" and ?n = "length (d_heap d)"
  note tinv = client_inv_tree [OF inv] and V = live_alloc [of d k, OF k(1)]
  have len: "x < ?n" if "x \<in> live_nodes d" for x using tree_inv_live [OF tinv that] by simp
  have old: "d_heap ?d ! x = d_heap d ! x" if "x \<in> live_nodes d" for x
    using len [OF that] by (simp add: alloc_eq nth_append)
  have new: "d_heap ?d ! ?n = new_node k" by (simp add: alloc_eq)
  have "tree_inv {} ?d"
    unfolding tree_inv_def V
  proof (intro conjI)
    show "\<forall>k' a. d_tree ?d k' = Some a \<longrightarrow> a < length (d_heap ?d) \<and> nkey ?d a = k'"
    proof (intro allI impI)
      fix k' a assume a: "d_tree ?d k' = Some a"
      show "a < length (d_heap ?d) \<and> nkey ?d a = k'"
      proof (cases "k' = k")
        case True
        then have "a = ?n" using a by (simp add: alloc_eq)
        then show ?thesis using new True by (simp add: new_node_def) (simp add: alloc_eq)
      next
        case False
        then have "d_tree d k' = Some a" using a by (simp add: alloc_eq)
        moreover from this have "a \<in> live_nodes d" by (rule ranI)
        ultimately show ?thesis using tree_inv_lookup [OF tinv, of k' a] old [of a] by (simp add: alloc_eq)
      qed
    qed
    show "\<forall>a \<in> insert ?n (live_nodes d). \<forall>p \<in> pars ?d a. p \<in> insert ?n (live_nodes d) \<and> a \<in> chs ?d p \<or> p \<in> {}"
      using tree_inv_parent [OF tinv] old new by (auto simp: new_node_def)
    show "\<forall>a \<in> insert ?n (live_nodes d). \<forall>q \<in> chs ?d a. q \<in> insert ?n (live_nodes d) \<and> a \<in> pars ?d q"
      using tree_inv_child [OF tinv] old new by (auto simp: new_node_def)
    show "\<forall>a \<in> insert ?n (live_nodes d). distinct (rn_children (d_heap ?d ! a))"
      using tree_inv_distinct [OF tinv] old new by (auto simp: new_node_def)
  qed simp
  moreover have "\<exists>r. d_tree ?d (root_key t) = Some r \<and> pars ?d r = {}" if t: "t \<in> root_types" for t
  proof -
    obtain r where r: "d_tree d (root_key t) = Some r" "pars d r = {}"
      using client_inv_root [OF inv t] by blast
    then have "r \<in> live_nodes d" "root_key t \<noteq> k" using k(1) by (auto intro: ranI)
    then show ?thesis using r old by (auto simp: alloc_eq)
  qed
  moreover have "\<forall>a \<in> live_nodes ?d - {?n}. pars ?d a = {} \<longrightarrow> may_be_top (nkey ?d a)"
    unfolding V using inv old unfolding client_inv_def by auto
  moreover have "\<forall>k' \<in> dom (d_tree ?d). well_keyed k'"
    using inv k(2) by (auto simp: client_inv_def alloc_eq split: if_splits)
  ultimately show ?thesis by (simp add: client_inv_def)
qed

section \<open>Received resources\<close>

text \<open>
  \<open>asked d r d' r'\<close>: the requests grew by exactly the names whose keys are new in the tree
  (for the types the client subscribes to by name).
\<close>

definition asked :: "deltaClient \<Rightarrow> amap \<Rightarrow> deltaClient \<Rightarrow> amap \<Rightarrow> bool" where
  "asked d r d' r' \<longleftrightarrow>
     (\<forall>t n. \<not> hasChildTypes t \<longrightarrow> (Some n \<in> set (am_get r' t) \<longleftrightarrow>
        Some n \<in> set (am_get r t) \<or> (d_tree d (key_of n t) = None \<and> d_tree d' (key_of n t) \<noteq> None))) \<and>
     (\<forall>t. None \<notin> set (am_get r t) \<longrightarrow> None \<notin> set (am_get r' t))"

lemma asked_trans:
  "grown d d1 \<Longrightarrow> grown d1 d2 \<Longrightarrow> asked d r d1 r1 \<Longrightarrow> asked d1 r1 d2 r2 \<Longrightarrow> asked d r d2 r2"
  unfolding asked_def using grown_lookup by (smt (verit, ccfv_threshold) not_None_eq)

lemma asked_same: "d_tree d' = d_tree d \<Longrightarrow> asked d r d' r"
  by (auto simp: asked_def)

definition ref_keys :: "ResourceKey list \<Rightarrow> bool" where
  "ref_keys rs \<longleftrightarrow> (\<forall>k \<in> set rs. \<exists>n. k = key_of n RouteType \<or> k = key_of n EndpointType)"

lemma extracted_ref_keys: "extractReferencedKeys c resp = Returns rs \<Longrightarrow> ref_keys rs"
  by (auto simp: extractReferencedKeys_def ref_keys_def listener_refs_def Let_def
      split: option.splits type_url.splits if_splits)

lemma getNode_spec:
  assumes inv: "client_inv {} d" and k: "k = key_of n t" "\<not> hasChildTypes t"
    and run: "getNode k d = (a, f, d1)"
    and r1: "r1 = (if \<not> f then am_add t (Some n) r else r)"
  shows "client_inv {a} d1 \<and> grown d d1 \<and> a \<in> live_nodes d1 \<and> nkey d1 a = k \<and> asked d r d1 r1"
proof (cases "d_tree d k")
  case None
  have wk: "well_keyed k" by (simp add: k well_keyed_def)
  have a: "a = length (d_heap d)" "d1 = snd (alloc k d)" "\<not> f"
    using run None by (auto simp: getNode_def alloc_def)
  have "asked d r d1 r1"
    using None k by (auto simp: asked_def a(2,3) r1 am_get_add alloc_eq)
  then show ?thesis
    using client_inv_alloc [OF inv None wk] alloc_grown [of d k, OF None] live_alloc [of d k, OF None]
    unfolding a by (simp add: alloc_eq new_node_def)
next
  case (Some b)
  then have "a = b" "f" "d1 = d" using run by (auto simp: getNode_def)
  then show ?thesis
    using Some client_inv_mono [OF inv] tree_inv_lookup [OF client_inv_tree [OF inv] Some] r1
    by (auto intro: ranI simp: asked_def)
qed

lemma link_refs_spec:
  assumes "client_inv {} d" "a \<in> live_nodes d" "ref_keys rs"
  shows "\<exists>d' r'. link_refs (Some a) rs d r = Returns (d', r') \<and> client_inv {} d' \<and> grown d d' \<and> asked d r d' r'"
  using assms
proof (induction rs arbitrary: d r)
  case Nil
  then show ?case by (simp add: asked_same)
next
  case (Cons k rs)
  obtain n t where k: "k = key_of n t" "\<not> hasChildTypes t"
    using Cons.prems(3) by (auto simp: ref_keys_def hasChildTypes_def)
  obtain b f d1 where run: "getNode k d = (b, f, d1)" by (cases "getNode k d")
  define r1 where "r1 = (if \<not> f then am_add t (Some n) r else r)"
  note g = getNode_spec [OF Cons.prems(1) k run r1_def]
  let ?d = "relate a b d1"
  have a1: "a \<in> live_nodes d1"
    using Cons.prems(2) g ran_map_le by (auto simp: grown_def)
  have inv2: "client_inv {} ?d"
    using client_inv_relate [of "{b}" d1 b a] g a1 k by simp
  have grown2: "grown d ?d" using g relate_grown grown_trans by blast
  have asked2: "asked d r ?d r1"
    using asked_trans [OF _ relate_grown _ asked_same] g by simp
  obtain d' r' where rest: "link_refs (Some a) rs ?d r1 = Returns (d', r')" "client_inv {} d'"
      "grown ?d d'" "asked ?d r1 d' r'"
    using Cons.IH [OF inv2, of r1] a1 Cons.prems(3) by (auto simp: ref_keys_def)
  have "link_refs (Some a) (k # rs) d r = Returns (d', r')"
    using rest(1) run k by (cases f) (simp_all add: r1_def)
  then show ?case
    using rest grown_trans [OF grown2 rest(3)] asked_trans [OF grown2 rest(3) asked2 rest(4)] by blast
qed

text \<open>The node of a received resource: present unless its type is one without children that is not watched by name.\<close>

lemma find_or_create_spec:
  assumes inv: "client_inv {} d"
  shows "\<exists>d' known. find_or_create t n d = Returns (d', known) \<and> client_inv {} d' \<and> grown d d' \<and>
    asked d r d' r \<and> (known \<longrightarrow> d_tree d' (key_of n t) \<noteq> None \<or> (\<not> hasChildTypes t \<and> d' = d))"
proof (cases "d_tree d (key_of n t) = None \<and> hasChildTypes t")
  case False
  then show ?thesis using inv by (auto simp: find_or_create_def Let_def asked_same)
next
  case True
  let ?k = "key_of n t" and ?a = "length (d_heap d)"
  let ?d = "snd (alloc ?k d)"
  have wk: "well_keyed ?k" by (simp add: well_keyed_def)
  have none: "d_tree d ?k = None" using True by simp
  note inv1 = client_inv_alloc [OF inv none wk] and grown1 = alloc_grown [of d ?k, OF none]
  have live: "?a \<in> live_nodes ?d" "nkey ?d ?a = ?k"
    using live_alloc [of d ?k, OF none] by (simp_all add: alloc_eq new_node_def)
  have asked1: "asked d r ?d r" using True by (auto simp: asked_def alloc_eq)
  show ?thesis
  proof (cases "t \<in> root_types")
    case True
    then obtain q where q: "d_tree ?d (root_key t) = Some q"
      using client_inv_root [OF inv1] by blast
    then have "q \<in> live_nodes ?d" by (rule ranI)
    then have "client_inv {} (relate q ?a ?d)"
      using client_inv_relate [OF inv1 _ _ live(1)] live(2) by simp
    moreover have "find_or_create t n d = Returns (relate q ?a ?d, True)"
      using q True \<open>d_tree d ?k = None \<and> hasChildTypes t\<close>
      by (auto simp: find_or_create_def Let_def root_types_def case_prod_beta alloc_eq(1))
    moreover have "asked d r (relate q ?a ?d) r" "grown d (relate q ?a ?d)"
      using asked_trans [OF grown1 relate_grown asked1 asked_same] grown_trans [OF grown1 relate_grown] by simp_all
    ultimately show ?thesis
      by (intro exI [of _ "relate q ?a ?d"] exI [of _ True]) (simp add: alloc_eq)
  next
    case other: False
    have top: "may_be_top (nkey ?d ?a)"
      using live(2) other True by (simp add: may_be_top_def)
    have "\<forall>b \<in> live_nodes ?d - {}. pars ?d b = {} \<longrightarrow> may_be_top (nkey ?d b)"
    proof (intro ballI impI)
      fix b assume "b \<in> live_nodes ?d - {}" "pars ?d b = {}"
      then show "may_be_top (nkey ?d b)"
        using top inv1 by (cases "b = ?a") (simp_all add: client_inv_def)
    qed
    then have "client_inv {} ?d" using inv1 unfolding client_inv_def by blast
    moreover have "find_or_create t n d = Returns (?d, True)"
      using True other by (auto simp: find_or_create_def Let_def root_types_def case_prod_beta)
    ultimately show ?thesis using grown1 asked1
      by (intro exI [of _ ?d] exI [of _ True]) (simp add: alloc_eq)
  qed
qed

text \<open>A message whose resources carry bodies of the message's own type.\<close>

definition well_typed_msg :: "DeltaResponse \<Rightarrow> bool" where
  "well_typed_msg m \<longleftrightarrow>
     (\<forall>resp \<in> set (dm_resources m). case res_body resp of None \<Rightarrow> False | Some b \<Rightarrow> any_url b = dm_type m)"

lemma extract_returns:
  assumes "res_body resp = Some b" "any_url b = t"
  shows "\<exists>rs. extractReferencedKeys c resp = Returns rs \<and> ref_keys rs \<and> (\<not> hasChildTypes t \<longrightarrow> rs = [])"
proof -
  have "\<exists>rs. extractReferencedKeys c resp = Returns rs \<and> (\<not> hasChildTypes t \<longrightarrow> rs = [])"
    using assms by (auto simp: extractReferencedKeys_def hasChildTypes_def Let_def split: type_url.splits)
  then show ?thesis using extracted_ref_keys by blast
qed

lemma handle_resources_spec:
  assumes "client_inv {} d"
    and "\<forall>resp \<in> set rs. case res_body resp of None \<Rightarrow> False | Some b \<Rightarrow> any_url b = t"
  shows "\<exists>d' res' r'. handle_resources c t rs d res r = Returns (d', res', r') \<and> client_inv {} d' \<and>
    grown d d' \<and> asked d r d' r'"
  using assms
proof (induction rs arbitrary: d res r)
  case Nil
  then show ?case by (simp add: asked_same)
next
  case (Cons resp rs)
  let ?key = "key_of (res_name resp) t"
  obtain b where b: "res_body resp = Some b" "any_url b = t"
    using Cons.prems(2) by (auto split: option.splits)
  have rest_ok: "\<forall>resp \<in> set rs. case res_body resp of None \<Rightarrow> False | Some b \<Rightarrow> any_url b = t"
    using Cons.prems(2) by simp
  obtain d1 known where foc: "find_or_create t (res_name resp) d = Returns (d1, known)" and inv1: "client_inv {} d1"
    and g1: "grown d d1" and a1: "asked d r d1 r"
    and node: "known \<longrightarrow> d_tree d1 ?key \<noteq> None \<or> (\<not> hasChildTypes t \<and> d1 = d)"
    using find_or_create_spec [OF Cons.prems(1)] by blast
  show ?case
  proof (cases known)
    case False
    then show ?thesis
      using Cons.IH [OF inv1 rest_ok, of res r] foc g1 a1 grown_trans asked_trans by simp blast
  next
    case True
    obtain ks where ks: "extractReferencedKeys c resp = Returns ks" "ref_keys ks" "\<not> hasChildTypes t \<longrightarrow> ks = []"
      using extract_returns [OF b] by blast
    have "\<exists>d2 r2. link_refs (d_tree d1 ?key) ks d1 r = Returns (d2, r2) \<and> client_inv {} d2 \<and> grown d1 d2 \<and> asked d1 r d2 r2"
    proof (cases "d_tree d1 ?key")
      case None
      then have "ks = []" using node True ks(3) by blast
      then show ?thesis using inv1 by (simp add: asked_same)
    next
      case (Some a)
      then show ?thesis using link_refs_spec [OF inv1 _ ks(2), of a] by (simp add: ranI)
    qed
    then obtain d2 r2 where link: "link_refs (d_tree d1 ?key) ks d1 r = Returns (d2, r2)" and inv2: "client_inv {} d2"
      and g2: "grown d1 d2" and a2: "asked d1 r d2 r2" by blast
    obtain d' res' r' where rest: "handle_resources c t rs d2 (set_add (res_name resp) res) r2 = Returns (d', res', r')"
      "client_inv {} d'" "grown d2 d'" "asked d2 r2 d' r'"
      using Cons.IH [OF inv2 rest_ok] by blast
    have g12: "grown d d2" using g1 g2 by (rule grown_trans)
    have "handle_resources c t (resp # rs) d res r = Returns (d', res', r')"
      using foc True ks(1) link rest(1) by (simp add: Let_def)
    then show ?thesis
      using rest grown_trans [OF g12 rest(3)] asked_trans [OF g12 rest(3) asked_trans [OF g1 g2 a1 a2] rest(4)] by blast
  qed
qed

section \<open>Removed resources\<close>

lemma client_inv_deleted:
  assumes inv: "client_inv {} d" and a: "d_tree d (key_of n t) = Some a"
    and tinv: "tree_inv {} d'" and sp: "del_spec {a} {} d r d' r'"
  shows "client_inv {} d'"
proof -
  note parts = del_spec_parts [OF sp]
  have key: "nkey d' x = nkey d x" for x using parts(1) by (simp add: same_frame_def)
  have sub: "live_nodes d' \<subseteq> live_nodes d" using parts(2) by (rule ran_map_le)
  have "\<exists>q. d_tree d' (root_key u) = Some q \<and> pars d' q = {}" if u: "u \<in> root_types" for u
  proof -
    obtain q where q: "d_tree d (root_key u) = Some q" "pars d q = {}"
      using client_inv_root [OF inv u] by blast
    have live: "q \<in> live_nodes d" using q(1) by (rule ranI)
    have "q \<noteq> a"
      using tree_inv_lookup [OF client_inv_tree [OF inv] q(1)] tree_inv_lookup [OF client_inv_tree [OF inv] a]
      by auto
    then have "q \<in> live_nodes d'" using parts(5) q(2) live by blast
    moreover from this have "d_tree d' (root_key u) = Some q"
      using tree_inv_live [OF tinv, of q] key tree_inv_lookup [OF client_inv_tree [OF inv] q(1)] by auto
    ultimately show ?thesis using parts(4) q(2) by auto
  qed
  moreover have "\<forall>k \<in> dom (d_tree d'). well_keyed k"
    using inv map_le_implies_dom_le [OF parts(2)] unfolding client_inv_def by blast
  moreover have "may_be_top (nkey d' x)" if x: "x \<in> live_nodes d'" "pars d' x = {}" for x
  proof -
    have "pars d x = {}" using parts(6) x by blast
    then show ?thesis using inv x(1) sub key by (auto simp: client_inv_def)
  qed
  ultimately show ?thesis using tinv unfolding client_inv_def by blast
qed

lemma handle_removed_spec:
  assumes ord: "order_ok ord"
  shows "client_inv {} d \<Longrightarrow> \<forall>u. None \<notin> set (am_get r u) \<Longrightarrow>
    \<exists>d' r'. handle_removed ord t ns (d, r) = Returns (d', r') \<and> client_inv {} d' \<and>
      (\<forall>u. None \<notin> set (am_get r' u)) \<and> d_tree d' \<subseteq>\<^sub>m d_tree d \<and> (\<forall>n \<in> set ns. d_tree d' (key_of n t) = None) \<and>
      d'\<lparr>d_heap := [], d_tree := Map.empty\<rparr> = d\<lparr>d_heap := [], d_tree := Map.empty\<rparr> \<and>
      (\<forall>u n. d_tree d (key_of n u) \<noteq> None \<longrightarrow> d_tree d' (key_of n u) = None \<longrightarrow>
         Some n \<in> set (am_get r' u) \<or> (u = t \<and> n \<in> set ns)) \<and>
      (\<forall>u. set (am_get r u) \<subseteq> set (am_get r' u))"
proof (induction ns arbitrary: d r)
  case Nil
  then show ?case by auto
next
  case (Cons n ns)
  show ?case
  proof (cases "d_tree d (key_of n t)")
    case None
    obtain d' r' where h: "handle_removed ord t ns (d, r) = Returns (d', r')" "client_inv {} d'"
      "\<forall>u. None \<notin> set (am_get r' u)" "d_tree d' \<subseteq>\<^sub>m d_tree d" "\<forall>n \<in> set ns. d_tree d' (key_of n t) = None"
      "d'\<lparr>d_heap := [], d_tree := Map.empty\<rparr> = d\<lparr>d_heap := [], d_tree := Map.empty\<rparr>"
      "\<forall>u n. d_tree d (key_of n u) \<noteq> None \<longrightarrow> d_tree d' (key_of n u) = None \<longrightarrow>
         Some n \<in> set (am_get r' u) \<or> (u = t \<and> n \<in> set ns)"
      "\<forall>u. set (am_get r u) \<subseteq> set (am_get r' u)"
      using Cons.IH [OF Cons.prems] by blast
    have "d_tree d' (key_of n t) = None"
      using None h(4) by (metis domIff map_le_implies_dom_le subsetD)
    moreover have "\<forall>u m. d_tree d (key_of m u) \<noteq> None \<longrightarrow> d_tree d' (key_of m u) = None \<longrightarrow>
         Some m \<in> set (am_get r' u) \<or> (u = t \<and> m \<in> set (n # ns))"
      using h(7) by (metis list.set_intros(2))
    ultimately show ?thesis using h None by (intro exI [of _ d'] exI [of _ r']) simp
  next
    case (Some a)
    have live: "a \<in> live_nodes d" using Some by (rule ranI)
    note tinv = client_inv_tree [OF Cons.prems(1)]
    have "card (live_nodes d) \<le> Suc (length (d_heap d))" using tree_inv_card [OF tinv] by simp
    then obtain d1 r1 where del: "deleteNode ord (Suc (length (d_heap d))) a (d, r) = Some (d1, r1)"
      and t1: "tree_inv {} d1" and sp: "del_spec {a} {} d r d1 r1"
      using deleteNode_returns [OF ord tinv live] by blast
    note parts = del_spec_parts [OF sp]
    have inv1: "client_inv {} d1" by (rule client_inv_deleted [OF Cons.prems(1) Some t1 sp])
    have named1: "None \<notin> set (am_get r1 u)" for u
    proof
      assume "None \<in> set (am_get r1 u)"
      then obtain x where x: "x \<in> live_nodes d" "pars d x \<noteq> {}" "nkey d x = \<lparr>k_name = None, k_type = Some u\<rparr>"
        using parts(9) Cons.prems(2) by blast
      then have look: "d_tree d \<lparr>k_name = None, k_type = Some u\<rparr> = Some x"
        using tree_inv_live [OF tinv] by fastforce
      then have "well_keyed \<lparr>k_name = None, k_type = Some u\<rparr>"
        using Cons.prems(1) unfolding client_inv_def by blast
      then have "u \<in> root_types" by (auto simp: well_keyed_def root_key_def intern_def)
      then obtain q where "d_tree d (root_key u) = Some q" "pars d q = {}"
        using client_inv_root [OF Cons.prems(1)] by blast
      then show False using look x(2) by (auto simp: root_key_def intern_def)
    qed
    have gone: "a \<notin> live_nodes d1" using parts(3) by blast
    have key: "nkey d1 x = nkey d x" for x using parts(1) by (simp add: same_frame_def)
    have lost: "Some m \<in> set (am_get r1 u) \<or> (u = t \<and> m = n)"
      if m: "d_tree d (key_of m u) \<noteq> None" "d_tree d1 (key_of m u) = None" for m u
    proof -
      obtain x where x: "d_tree d (key_of m u) = Some x" using m by blast
      have "x \<notin> live_nodes d1"
      proof
        assume "x \<in> live_nodes d1"
        then show False
          using tree_inv_live [OF t1] tree_inv_lookup [OF tinv x] m(2) key by fastforce
      qed
      show ?thesis
      proof (cases "x = a")
        case True
        then show ?thesis using tree_inv_lookup [OF tinv x] tree_inv_lookup [OF tinv Some] by auto
      next
        case False
        have "x \<in> live_nodes d" using x by (rule ranI)
        then have "k_type (nkey d x) = Some u \<longrightarrow> k_name (nkey d x) \<in> set (am_get r1 u)"
          using parts(7) False \<open>x \<notin> live_nodes d1\<close> by blast
        then show ?thesis using tree_inv_lookup [OF tinv x] by simp
      qed
    qed
    obtain d' r' where h: "handle_removed ord t ns (d1, r1) = Returns (d', r')" "client_inv {} d'"
      "\<forall>u. None \<notin> set (am_get r' u)" "d_tree d' \<subseteq>\<^sub>m d_tree d1" "\<forall>n \<in> set ns. d_tree d' (key_of n t) = None"
      "d'\<lparr>d_heap := [], d_tree := Map.empty\<rparr> = d1\<lparr>d_heap := [], d_tree := Map.empty\<rparr>"
      "\<forall>u n. d_tree d1 (key_of n u) \<noteq> None \<longrightarrow> d_tree d' (key_of n u) = None \<longrightarrow>
         Some n \<in> set (am_get r' u) \<or> (u = t \<and> n \<in> set ns)"
      "\<forall>u. set (am_get r1 u) \<subseteq> set (am_get r' u)"
      using Cons.IH [OF inv1] named1 by blast
    have n_gone: "d_tree d1 (key_of n t) = None"
    proof (rule ccontr)
      assume "d_tree d1 (key_of n t) \<noteq> None"
      then obtain x where "d_tree d1 (key_of n t) = Some x" by blast
      moreover from this have "d_tree d (key_of n t) = Some x" using parts(2) by (auto simp: map_le_def dom_def)
      ultimately show False using Some gone by (auto intro: ranI)
    qed
    have run: "handle_removed ord t (n # ns) (d, r) = Returns (d', r')" using Some del h(1) by simp
    have "d_tree d' (key_of n t) = None"
      using n_gone h(4) by (metis domIff map_le_implies_dom_le subsetD)
    moreover have "d_tree d' \<subseteq>\<^sub>m d_tree d" using h(4) parts(2) by (rule map_le_trans)
    moreover have "\<forall>u m. d_tree d (key_of m u) \<noteq> None \<longrightarrow> d_tree d' (key_of m u) = None \<longrightarrow>
         Some m \<in> set (am_get r' u) \<or> (u = t \<and> m \<in> set (n # ns))"
      using lost h(7,8) by (metis list.set_intros(1,2) subsetD)
    moreover have "d'\<lparr>d_heap := [], d_tree := Map.empty\<rparr> = d\<lparr>d_heap := [], d_tree := Map.empty\<rparr>"
      using h(6) parts(1) by (simp add: same_frame_def)
    moreover have "\<forall>u. set (am_get r u) \<subseteq> set (am_get r' u)" using parts(8) h(8) by blast
    ultimately show ?thesis using run h by (intro exI [of _ d'] exI [of _ r']) simp
  qed
qed

section \<open>One message\<close>

definition request_of :: "amap \<Rightarrow> amap \<Rightarrow> type_url \<Rightarrow> DeltaRequest" where
  "request_of requests removals k =
     \<lparr>dd_type = k, dd_node = None, dd_nonce = [], dd_subscribe = map the (am_get requests k),
      dd_unsubscribe = map the (am_get removals k)\<rparr>"

definition sent_requests :: "type_url list \<Rightarrow> amap \<Rightarrow> amap \<Rightarrow> DeltaRequest list" where
  "sent_requests ks requests removals =
     map (request_of requests removals) (filter (\<lambda>k. am_get requests k \<noteq> [] \<or> am_get removals k \<noteq> []) ks)"

lemma values_of_named: "None \<notin> set hs \<Longrightarrow> values_of hs = Returns (map the hs)"
proof (induction hs)
  case (Cons h hs)
  then obtain v where "h = Some v" by (cases h) auto
  then show ?case using Cons by (simp add: Value_def)
qed simp

lemma send_requests_named:
  assumes "\<forall>u. None \<notin> set (am_get requests u)" "\<forall>u. None \<notin> set (am_get removals u)"
  shows "send_requests ks requests removals d = Returns (d\<lparr>d_sent := d_sent d @ sent_requests ks requests removals\<rparr>)"
proof (induction ks arbitrary: d)
  case Nil
  then show ?case by (simp add: sent_requests_def)
next
  case (Cons k ks)
  then show ?case
    using assms by (auto simp: values_of_named sent_requests_def request_of_def dsend_def)
qed

definition ack_of :: "DeltaResponse \<Rightarrow> DeltaRequest" where
  "ack_of m = \<lparr>dd_type = dm_type m, dd_node = None, dd_nonce = dm_nonce m, dd_subscribe = [], dd_unsubscribe = []\<rparr>"

lemma set_keysOfMaps: "order_ok ord \<Longrightarrow> set (keysOfMaps ord ms) = (\<Union>m \<in> set ms. fst ` set m)"
  by (auto simp: keysOfMaps_def order_ok_types)

lemma am_get_key: "am_get m k \<noteq> [] \<Longrightarrow> k \<in> fst ` set m"
  by (auto simp: am_get_def split: option.splits dest: map_of_SomeD intro: rev_image_eqI)

lemma sent_requests_names:
  assumes "order_ok ord" and "\<forall>u. None \<notin> set (am_get requests u)" "\<forall>u. None \<notin> set (am_get removals u)"
    and rq: "rq \<in> set (sent_requests (keysOfMaps ord [requests, removals]) requests removals)"
  shows "dd_nonce rq = []" "dd_subscribe rq \<noteq> [] \<or> dd_unsubscribe rq \<noteq> []"
    and "set (dd_subscribe rq) = {n. Some n \<in> set (am_get requests (dd_type rq))}"
    and "set (dd_unsubscribe rq) = {n. Some n \<in> set (am_get removals (dd_type rq))}"
proof -
  have conv: "set (map the (am_get m u)) = {n. Some n \<in> set (am_get m u)}" if "None \<notin> set (am_get m u)" for m :: amap and u
  proof -
    have "set (map the hs) = {n. Some n \<in> set hs}" if "None \<notin> set hs" for hs :: "string handle list"
      using that by (induction hs) (auto simp: image_iff)
    then show ?thesis using that by blast
  qed
  show "dd_nonce rq = []" "dd_subscribe rq \<noteq> [] \<or> dd_unsubscribe rq \<noteq> []"
    using rq by (auto simp: sent_requests_def request_of_def)
  show "set (dd_subscribe rq) = {n. Some n \<in> set (am_get requests (dd_type rq))}"
    "set (dd_unsubscribe rq) = {n. Some n \<in> set (am_get removals (dd_type rq))}"
    using rq conv assms(2,3) by (auto simp: sent_requests_def request_of_def)
qed

lemma sent_requests_type:
  assumes "order_ok ord" "am_get requests k \<noteq> [] \<or> am_get removals k \<noteq> []"
  shows "\<exists>rq \<in> set (sent_requests (keysOfMaps ord [requests, removals]) requests removals). dd_type rq = k"
proof -
  have "k \<in> set (keysOfMaps ord [requests, removals])"
    using assms am_get_key by (auto simp: set_keysOfMaps)
  then show ?thesis using assms(2) by (force simp: sent_requests_def request_of_def)
qed

lemma am_get_Nil [simp]: "am_get [] k = []"
  by (simp add: am_get_def)

text \<open>All about one message: what is sent, and how the tree and the request maps relate.\<close>

lemma delta_msg_spec:
  assumes ord: "order_ok ord" and inv: "client_inv {} d" and wt: "well_typed_msg m"
  shows "\<exists>d' d1 requests removals.
    delta_msg c ord m d = Returns d' \<and> client_inv {} d' \<and>
    d_sent d' = d_sent d @ sent_requests (keysOfMaps ord [requests, removals]) requests removals @ [ack_of m] \<and>
    (\<forall>u. None \<notin> set (am_get requests u)) \<and> (\<forall>u. None \<notin> set (am_get removals u)) \<and>
    grown d d1 \<and> asked d [] d1 requests \<and> d_tree d' \<subseteq>\<^sub>m d_tree d1 \<and>
    (\<forall>n \<in> set (dm_removed m). d_tree d' (key_of n (dm_type m)) = None) \<and>
    (\<forall>u n. d_tree d1 (key_of n u) \<noteq> None \<longrightarrow> d_tree d' (key_of n u) = None \<longrightarrow>
         Some n \<in> set (am_get removals u) \<or> (u = dm_type m \<and> n \<in> set (dm_removed m))) \<and>
    (dm_removed m = [] \<longrightarrow> removals = [] \<and> d_tree d' = d_tree d1) \<and>
    d_updates d' = d_updates d \<and> d_closed d' = d_closed d"
proof -
  define t where "t = dm_type m"
  define res where "res = (case d_resources d t of None \<Rightarrow> [] | Some r \<Rightarrow> r)"
  obtain d1 res1 requests where h1: "handle_resources c t (dm_resources m) d res [] = Returns (d1, res1, requests)"
    and inv1: "client_inv {} d1" and g: "grown d d1" and a: "asked d [] d1 requests"
    using handle_resources_spec [OF inv wt [unfolded well_typed_msg_def], folded t_def] by blast
  have named0: "\<forall>u. None \<notin> set (am_get [] u)" by simp
  obtain d2 removals where h2: "handle_removed ord t (dm_removed m) (d1, []) = Returns (d2, removals)"
    and inv2: "client_inv {} d2" and named2: "\<forall>u. None \<notin> set (am_get removals u)"
    and le: "d_tree d2 \<subseteq>\<^sub>m d_tree d1" and gone: "\<forall>n \<in> set (dm_removed m). d_tree d2 (key_of n t) = None"
    and rest: "d2\<lparr>d_heap := [], d_tree := Map.empty\<rparr> = d1\<lparr>d_heap := [], d_tree := Map.empty\<rparr>"
    and lost: "\<forall>u n. d_tree d1 (key_of n u) \<noteq> None \<longrightarrow> d_tree d2 (key_of n u) = None \<longrightarrow>
         Some n \<in> set (am_get removals u) \<or> (u = t \<and> n \<in> set (dm_removed m))"
    using handle_removed_spec [OF ord inv1 named0, of t "dm_removed m"]
    by (elim exE conjE) (rule that; assumption)
  have named1: "\<forall>u. None \<notin> set (am_get requests u)" using a by (simp add: asked_def)
  define ks where "ks = keysOfMaps ord [requests, removals]"
  define d3 where "d3 = d2\<lparr>d_resources := (d_resources d2)(t \<mapsto> fold removeAll (dm_removed m) res1)\<rparr>"
  define d' where "d' = d3\<lparr>d_sent := d_sent d3 @ sent_requests ks requests removals @ [ack_of m]\<rparr>"
  have run: "delta_msg c ord m d = Returns d'"
    unfolding delta_msg_def Let_def t_def [symmetric] res_def [symmetric] h1 obind.simps h2 prod.case
      ks_def [symmetric] d3_def [symmetric] send_requests_named [OF named1 named2]
    by (simp add: d'_def dsend_def ack_of_def t_def)
  have inv': "client_inv {} d'" using inv2 client_inv_cong [of d' d2 "{}"] by (simp add: d'_def d3_def)
  have frame: "d_sent d3 = d_sent d" "d_updates d' = d_updates d" "d_closed d' = d_closed d"
    using rest g unfolding grown_def d'_def d3_def by (cases d; cases d1; cases d2; simp)+
  have none: "dm_removed m = [] \<longrightarrow> removals = [] \<and> d_tree d' = d_tree d1"
    using h2 by (auto simp: d'_def d3_def)
  show ?thesis
  proof (intro exI conjI)
    show "d_sent d' = d_sent d @ sent_requests (keysOfMaps ord [requests, removals]) requests removals @ [ack_of m]"
      using frame(1) by (simp add: d'_def ks_def)
    show "d_tree d' \<subseteq>\<^sub>m d_tree d1" using le by (simp add: d'_def d3_def)
    show "\<forall>n \<in> set (dm_removed m). d_tree d' (key_of n (dm_type m)) = None"
      using gone by (simp add: d'_def d3_def t_def)
    show "\<forall>u n. d_tree d1 (key_of n u) \<noteq> None \<longrightarrow> d_tree d' (key_of n u) = None \<longrightarrow>
         Some n \<in> set (am_get removals u) \<or> (u = dm_type m \<and> n \<in> set (dm_removed m))"
      using lost by (simp add: d'_def d3_def t_def)
  qed (fact run inv' named1 named2 g a none frame)+
qed

section \<open>Subscriptions\<close>

text \<open>The names of a type the server holds subscribed after a sequence of requests.\<close>

definition wire_step :: "type_url \<Rightarrow> DeltaRequest \<Rightarrow> string set \<Rightarrow> string set" where
  "wire_step t rq S = (if dd_type rq = t then (S \<union> set (dd_subscribe rq)) - set (dd_unsubscribe rq) else S)"

definition wire :: "type_url \<Rightarrow> DeltaRequest list \<Rightarrow> string set" where
  "wire t rqs = fold (wire_step t) rqs {}"

lemma fold_wire_same:
  assumes "\<forall>rq \<in> set rqs. dd_type rq = t \<longrightarrow> set (dd_subscribe rq) = A \<and> set (dd_unsubscribe rq) = B"
  shows "fold (wire_step t) rqs S = (if \<exists>rq \<in> set rqs. dd_type rq = t then (S \<union> A) - B else S)"
  using assms by (induction rqs arbitrary: S) (auto simp: wire_step_def)

lemma wire_message:
  assumes ord: "order_ok ord" and named: "\<forall>u. None \<notin> set (am_get requests u)" "\<forall>u. None \<notin> set (am_get removals u)"
  shows "wire t (xs @ sent_requests (keysOfMaps ord [requests, removals]) requests removals @ [ack_of m]) =
    (wire t xs \<union> {n. Some n \<in> set (am_get requests t)}) - {n. Some n \<in> set (am_get removals t)}"
proof -
  let ?rs = "sent_requests (keysOfMaps ord [requests, removals]) requests removals"
  let ?A = "{n. Some n \<in> set (am_get requests t)}" and ?B = "{n. Some n \<in> set (am_get removals t)}"
  have "fold (wire_step t) ?rs S = (if \<exists>rq \<in> set ?rs. dd_type rq = t then (S \<union> ?A) - ?B else S)" for S
    using fold_wire_same [of ?rs t ?A ?B] sent_requests_names [OF ord named] by blast
  moreover have "(\<exists>rq \<in> set ?rs. dd_type rq = t) \<or> (?A = {} \<and> ?B = {})"
    using sent_requests_type [OF ord, of requests t removals] by (metis (mono_tags, lifting) Collect_empty_eq empty_iff empty_set)
  ultimately have "fold (wire_step t) ?rs S = (S \<union> ?A) - ?B" for S
    by (metis (no_types, lifting) Diff_empty Un_empty_right)
  moreover have "wire_step t (ack_of m) S = S" for S by (simp add: wire_step_def ack_of_def)
  ultimately show ?thesis by (simp add: wire_def)
qed

text \<open>
  The client and the server agree on the resources watched by name, or at least the server sends
  nothing the client has dropped.
\<close>

definition subs_exact :: "deltaClient \<Rightarrow> bool" where
  "subs_exact d \<longleftrightarrow> (\<forall>t n. \<not> hasChildTypes t \<longrightarrow> (n \<in> wire t (d_sent d) \<longleftrightarrow> d_tree d (key_of n t) \<noteq> None))"

definition subs_within :: "deltaClient \<Rightarrow> bool" where
  "subs_within d \<longleftrightarrow> (\<forall>t n. \<not> hasChildTypes t \<longrightarrow> n \<in> wire t (d_sent d) \<longrightarrow> d_tree d (key_of n t) \<noteq> None)"

definition delta_start :: "string \<Rightarrow> string \<Rightarrow> deltaClient" where
  "delta_start nodeID nodeType = delta_Watch (new_delta nodeID nodeType)"

lemma delta_start_fields:
  "d_tree (delta_start i n) = d_tree (new_delta i n)" "d_heap (delta_start i n) = d_heap (new_delta i n)"
  "wire t (d_sent (delta_start i n)) = {}"
  by (simp_all add: delta_start_def delta_Watch_def new_delta_def dsend_def wire_def wire_step_def)

lemma delta_start_inv: "client_inv {} (delta_start i n)" "subs_exact (delta_start i n)"
proof -
  show "client_inv {} (delta_start i n)"
    using client_inv_new [of i n] client_inv_cong [OF delta_start_fields(2,1)] by simp
  show "subs_exact (delta_start i n)"
    by (simp add: subs_exact_def delta_start_fields) (simp add: new_delta_def)
qed

lemma delta_msg_subs:
  assumes ord: "order_ok ord" and inv: "client_inv {} d" and wt: "well_typed_msg m"
    and run: "delta_msg c ord m d = Returns d'"
  shows "subs_exact d \<Longrightarrow> dm_removed m = [] \<Longrightarrow> subs_exact d'"
    and "subs_within d \<Longrightarrow> dm_removed m = [] \<or> hasChildTypes (dm_type m) \<Longrightarrow> subs_within d'"
proof -
  obtain d1 requests removals where inv': "client_inv {} d'"
    and sent: "d_sent d' = d_sent d @ sent_requests (keysOfMaps ord [requests, removals]) requests removals @ [ack_of m]"
    and named: "\<forall>u. None \<notin> set (am_get requests u)" "\<forall>u. None \<notin> set (am_get removals u)"
    and g: "grown d d1" and a: "asked d [] d1 requests" and le: "d_tree d' \<subseteq>\<^sub>m d_tree d1"
    and lost: "\<forall>u n. d_tree d1 (key_of n u) \<noteq> None \<longrightarrow> d_tree d' (key_of n u) = None \<longrightarrow>
         Some n \<in> set (am_get removals u) \<or> (u = dm_type m \<and> n \<in> set (dm_removed m))"
    and none: "dm_removed m = [] \<longrightarrow> removals = [] \<and> d_tree d' = d_tree d1"
    using delta_msg_spec [OF ord inv wt, of c] run by auto
  have w: "wire t (d_sent d') = (wire t (d_sent d) \<union> {n. Some n \<in> set (am_get requests t)}) -
      {n. Some n \<in> set (am_get removals t)}" for t
    unfolding sent by (rule wire_message [OF ord named])
  have req: "Some n \<in> set (am_get requests t) \<longleftrightarrow> d_tree d (key_of n t) = None \<and> d_tree d1 (key_of n t) \<noteq> None"
    if "\<not> hasChildTypes t" for t n using a that by (simp add: asked_def)
  have keep: "d_tree d k \<noteq> None \<Longrightarrow> d_tree d1 k \<noteq> None" for k
    using grown_lookup [OF g] by (metis not_None_eq)
  show "subs_exact d'" if ex: "subs_exact d" and "dm_removed m = []"
    unfolding subs_exact_def
  proof (intro allI impI)
    fix t n assume t: "\<not> hasChildTypes t"
    have "removals = []" "d_tree d' = d_tree d1" using none that(2) by simp_all
    then show "n \<in> wire t (d_sent d') \<longleftrightarrow> d_tree d' (key_of n t) \<noteq> None"
      using w [of t] req [OF t, of n] ex t keep [of "key_of n t"] by (auto simp: subs_exact_def)
  qed
  show "subs_within d'" if sw: "subs_within d" and rm: "dm_removed m = [] \<or> hasChildTypes (dm_type m)"
    unfolding subs_within_def
  proof (intro allI impI)
    fix t n assume t: "\<not> hasChildTypes t" and n: "n \<in> wire t (d_sent d')"
    have "d_tree d1 (key_of n t) \<noteq> None"
      using n w [of t] req [OF t, of n] sw t keep by (auto simp: subs_within_def)
    moreover have "Some n \<notin> set (am_get removals t)" using n w [of t] by simp
    moreover have "\<not> (t = dm_type m \<and> n \<in> set (dm_removed m))" using rm t by auto
    ultimately show "d_tree d' (key_of n t) \<noteq> None" using lost by blast
  qed
qed

section \<open>The receive loop\<close>

text \<open>What one message adds to the requests sent: subscription changes, and then its ACK.\<close>

definition answer :: "DeltaRequest list \<Rightarrow> DeltaResponse \<Rightarrow> DeltaRequest list" where
  "answer rqs m = rqs @ [ack_of m]"

definition changes_only :: "DeltaRequest list \<Rightarrow> bool" where
  "changes_only rqs \<longleftrightarrow> (\<forall>rq \<in> set rqs. dd_nonce rq = [] \<and> (dd_subscribe rq \<noteq> [] \<or> dd_unsubscribe rq \<noteq> []))"

lemma delta_msg_answer:
  assumes "order_ok ord" "client_inv {} d" "well_typed_msg m"
  shows "\<exists>d' rqs. delta_msg c ord m d = Returns d' \<and> client_inv {} d' \<and> d_sent d' = d_sent d @ answer rqs m \<and>
    changes_only rqs"
proof -
  obtain d' requests removals where run: "delta_msg c ord m d = Returns d'" "client_inv {} d'"
    and sent: "d_sent d' = d_sent d @ sent_requests (keysOfMaps ord [requests, removals]) requests removals @ [ack_of m]"
    and named: "\<forall>u. None \<notin> set (am_get requests u)" "\<forall>u. None \<notin> set (am_get removals u)"
    using delta_msg_spec [OF assms, of c] by (elim exE conjE) (rule that)
  have "changes_only (sent_requests (keysOfMaps ord [requests, removals]) requests removals)"
    using sent_requests_names(1,2) [OF assms(1) named] by (simp add: changes_only_def)
  then show ?thesis using run sent by (auto simp: answer_def)
qed

lemma delta_run_inv:
  assumes ord: "order_ok ord"
  shows "client_inv {} d \<Longrightarrow> \<forall>m \<in> set ms. well_typed_msg m \<Longrightarrow>
    \<exists>d' bs. delta_run c ord ms d = Returns d' \<and> client_inv {} d' \<and> length bs = length ms \<and>
      d_sent d' = d_sent d @ concat (map2 answer bs ms) \<and> (\<forall>b \<in> set bs. changes_only b) \<and>
      (subs_exact d \<longrightarrow> (\<forall>m \<in> set ms. dm_removed m = []) \<longrightarrow> subs_exact d') \<and>
      (subs_within d \<longrightarrow> (\<forall>m \<in> set ms. dm_removed m = [] \<or> hasChildTypes (dm_type m)) \<longrightarrow> subs_within d')"
proof (induction ms arbitrary: d)
  case Nil
  then show ?case by (intro exI [of _ d] exI [of _ "[]"]) simp
next
  case (Cons m ms)
  have wt: "well_typed_msg m" using Cons.prems(2) by simp
  obtain d1 rqs where step: "delta_msg c ord m d = Returns d1" "client_inv {} d1" "d_sent d1 = d_sent d @ answer rqs m"
      "changes_only rqs"
    using delta_msg_answer [OF ord Cons.prems(1) wt] by blast
  note subs = delta_msg_subs [OF ord Cons.prems(1) wt step(1)]
  obtain d' bs where rest: "delta_run c ord ms d1 = Returns d'" "client_inv {} d'" "length bs = length ms"
      "d_sent d' = d_sent d1 @ concat (map2 answer bs ms)" "\<forall>b \<in> set bs. changes_only b"
      "subs_exact d1 \<longrightarrow> (\<forall>m \<in> set ms. dm_removed m = []) \<longrightarrow> subs_exact d'"
      "subs_within d1 \<longrightarrow> (\<forall>m \<in> set ms. dm_removed m = [] \<or> hasChildTypes (dm_type m)) \<longrightarrow> subs_within d'"
    using Cons.IH [OF step(2)] Cons.prems(2) by auto
  show ?case
    by (intro exI [of _ d'] exI [of _ "rqs # bs"]) (use step rest subs in simp)
qed

section \<open>Properties\<close>

definition id_order :: order where
  "id_order = \<lparr>ord_nodes = \<lambda>xs. xs, ord_types = \<lambda>xs. xs\<rparr>"

lemma id_order_ok [simp]: "order_ok id_order"
  by (simp add: order_ok_def id_order_def)

text \<open>A cluster or listener that arrives, and one that is withdrawn, as messages.\<close>

definition arrives :: "type_url \<Rightarrow> string \<Rightarrow> string \<Rightarrow> DeltaResponse" where
  "arrives t n nonce = \<lparr>dm_type = t, dm_nonce = nonce,
     dm_resources = [\<lparr>res_name = n, res_body = Some \<lparr>any_url = t, any_value = n\<rparr>\<rparr>], dm_removed = []\<rparr>"

definition withdrawn :: "type_url \<Rightarrow> string \<Rightarrow> string \<Rightarrow> DeltaResponse" where
  "withdrawn t n nonce = \<lparr>dm_type = t, dm_nonce = nonce, dm_resources = [], dm_removed = [n]\<rparr>"

lemma sample_well_typed [simp]: "well_typed_msg (arrives t n x)" "well_typed_msg (withdrawn t n x)"
  by (simp_all add: well_typed_msg_def arrives_def withdrawn_def)



text \<open>
  C3: While the server removes nothing, the set of routes, endpoints and other resources the server
  holds subscribed is exactly the set of those nodes of the client's tree: every reference is
  subscribed to once it appears, and nothing else is.
\<close>

theorem delta_subscriptions_exact:
  assumes "order_ok ord" and "\<forall>m \<in> set ms. well_typed_msg m \<and> dm_removed m = []"
  shows "\<exists>d'. delta_run c ord ms (delta_start nodeID nodeType) = Returns d' \<and>
    (\<forall>t n. hasChildTypes t \<or> (n \<in> wire t (d_sent d') \<longleftrightarrow> d_tree d' (key_of n t) \<noteq> None))"
  using delta_run_inv [OF assms(1) delta_start_inv(1), of ms c nodeID nodeType] assms(2)
    delta_start_inv(2) [of nodeID nodeType] by (auto simp: subs_exact_def)

lemma delta_subscriptions_exact_witness:
  "\<exists>d'. delta_run small_codec id_order [arrives ListenerType ''l'' ''1'', arrives ClusterType ''c'' ''2'']
      (delta_start ''n'' ''sidecar'') = Returns d' \<and>
    (\<forall>t n. hasChildTypes t \<or> (n \<in> wire t (d_sent d') \<longleftrightarrow> d_tree d' (key_of n t) \<noteq> None))"
  by (rule delta_subscriptions_exact) (simp_all add: arrives_def well_typed_msg_def)

text \<open>
  C7: When the server withdraws listeners, clusters or other resources the client watches as a whole,
  the client is never left subscribed to a resource it has dropped from its tree.
\<close>

theorem delta_subscriptions_within:
  assumes "order_ok ord" and "\<forall>m \<in> set ms. well_typed_msg m"
    and "\<forall>m \<in> set ms. dm_removed m = [] \<or> hasChildTypes (dm_type m)"
  shows "\<exists>d'. delta_run c ord ms (delta_start nodeID nodeType) = Returns d' \<and>
    (\<forall>t n. hasChildTypes t \<or> n \<notin> wire t (d_sent d') \<or> d_tree d' (key_of n t) \<noteq> None)"
proof -
  have "subs_within (delta_start nodeID nodeType)"
    using delta_start_inv(2) [of nodeID nodeType] by (simp add: subs_exact_def subs_within_def)
  then obtain d' where "delta_run c ord ms (delta_start nodeID nodeType) = Returns d'" "subs_within d'"
    using delta_run_inv [OF assms(1) delta_start_inv(1) assms(2), of c nodeID nodeType] assms(3) by blast
  then show ?thesis by (auto simp: subs_within_def)
qed

lemma delta_subscriptions_within_witness:
  "\<exists>d'. delta_run small_codec id_order [arrives ListenerType ''l'' ''1'', withdrawn ListenerType ''l'' ''2'']
      (delta_start ''n'' ''sidecar'') = Returns d' \<and>
    (\<forall>t n. hasChildTypes t \<or> n \<notin> wire t (d_sent d') \<or> d_tree d' (key_of n t) \<noteq> None)"
  by (rule delta_subscriptions_within) (simp_all add: arrives_def withdrawn_def well_typed_msg_def hasChildTypes_def)

text \<open>
  C5: Deleting a node of a consistent tree ends, whatever the shape of the graph below it, and removes
  exactly the node and what is left without a parent by it: whoever else goes had all its parents
  among the removed, and whoever stays keeps its other parents and at least one of them.
\<close>

theorem deleteNode_removes_orphans:
  assumes "order_ok ord" and "tree_inv {} d" and "a \<in> live_nodes d"
  shows "\<exists>d' r'. deleteNode ord (Suc (length (d_heap d))) a (d, r) = Some (d', r') \<and> tree_inv {} d' \<and>
    live_nodes d' \<subseteq> live_nodes d - {a} \<and>
    (\<forall>x \<in> live_nodes d - live_nodes d' - {a}. pars d x \<noteq> {} \<and> pars d x \<subseteq> live_nodes d - live_nodes d') \<and>
    (\<forall>x \<in> live_nodes d'. pars d' x = pars d x - (live_nodes d - live_nodes d') \<and> (pars d x \<noteq> {} \<longrightarrow> pars d' x \<noteq> {}))"
proof -
  have "card (live_nodes d) \<le> Suc (length (d_heap d))" using tree_inv_card [OF assms(2)] by simp
  then obtain d' r' where run: "deleteNode ord (Suc (length (d_heap d))) a (d, r) = Some (d', r')" "tree_inv {} d'"
    and sp: "del_spec {a} {} d r d' r'"
    using deleteNode_returns [OF assms] by blast
  note parts = del_spec_parts [OF sp]
  have "live_nodes d' \<subseteq> live_nodes d - {a}" using ran_map_le [OF parts(2)] parts(3) by blast
  then show ?thesis
    using run parts(4,5,6) by (intro exI [of _ d'] exI [of _ r']) (simp del: set_empty)
qed

lemma deleteNode_removes_orphans_witness:
  "\<exists>d' r'. deleteNode id_order 3 0 (new_delta ''n'' ''sidecar'', []) = Some (d', r') \<and> tree_inv {} d' \<and>
    live_nodes d' \<subseteq> live_nodes (new_delta ''n'' ''sidecar'') - {0}"
proof -
  have "0 \<in> live_nodes (new_delta ''n'' ''sidecar'')" "length (d_heap (new_delta ''n'' ''sidecar'')) = 2"
    by (simp_all add: new_delta_def ran_map_upd)
  then show ?thesis
    using deleteNode_removes_orphans [OF id_order_ok client_inv_tree [OF client_inv_new], of 0 "''n''" "''sidecar''" "[]"]
    by (auto simp: numeral_3_eq_3)
qed

text \<open>
  The converse of exactness fails once something is removed: a route two listeners share is
  unsubscribed when one of them goes, although the other still uses it.
\<close>

lemma shared_route_unsubscribed:
  "(case delta_run small_codec id_order
      [arrives ListenerType ''a'' ''1'', arrives ListenerType ''b'' ''2'', withdrawn ListenerType ''a'' ''3'']
      (delta_start ''n'' ''sidecar'') of
     Returns d' \<Rightarrow> d_tree d' (key_of ''r'' RouteType) \<noteq> None \<and> ''r'' \<notin> wire RouteType (d_sent d')
   | _ \<Rightarrow> False)"
  by code_simp

text \<open>Printing the tree ends within the fuel of \<open>dumpTree\<close>, but a root cannot be printed: its name is the zero handle.\<close>

lemma fold_obind_not_Blocks:
  "acc \<noteq> Blocks \<Longrightarrow> \<forall>c \<in> set cs. f c \<noteq> Blocks \<Longrightarrow>
    fold (\<lambda>c acc. obind acc (\<lambda>out. obind (f c) (\<lambda>sub. Returns (out @ sub)))) cs acc \<noteq> Blocks"
proof (induction cs arbitrary: acc)
  case (Cons c cs)
  have "obind acc (\<lambda>out. obind (f c) (\<lambda>sub. Returns (out @ sub))) \<noteq> Blocks"
    using Cons.prems by (cases acc; cases "f c") auto
  then show ?case using Cons by simp
qed simp

lemma ResourceKey_String_not_Blocks: "ResourceKey_String url k \<noteq> Blocks"
  by (auto simp: ResourceKey_String_def Value_def split: option.splits)

lemma dumpNode_ends: "0 < fuel \<Longrightarrow> 14 \<le> length indent + 2 * fuel \<Longrightarrow> dumpNode url ord d fuel indent a \<noteq> Blocks"
proof (induction fuel arbitrary: indent a)
  case (Suc fuel)
  have "dumpNode url ord d fuel (indent @ (if p then ''  '' else ''**'')) c \<noteq> Blocks" if "length indent \<le> 10" for p c
    using Suc.IH [of "indent @ (if p then ''  '' else ''**'')" c] Suc.prems(2) that
    by (cases "fuel = 0") (simp_all del: dumpNode.simps)
  then have kids: "fold (\<lambda>c acc. obind acc (\<lambda>out.
        obind (dumpNode url ord d fuel (indent @ (if a \<in> set (rn_parents (d_heap d ! c)) then ''  '' else ''**'')) c)
          (\<lambda>sub. Returns (out @ sub)))) cs (Returns line) \<noteq> Blocks" if "length indent \<le> 10" for cs line
    using that by (intro fold_obind_not_Blocks) simp_all
  show ?case
    using kids ResourceKey_String_not_Blocks [of url "rn_key (d_heap d ! a)"]
    by (cases "ResourceKey_String url (rn_key (d_heap d ! a))") (simp_all add: Let_def)
qed simp

lemma dumpTree_root_panics:
  "dumpTree url id_order [0, 1] (new_delta nodeID nodeType) = Panics ''nil pointer dereference''"
  by (simp add: dumpTree_def new_delta_def new_node_def root_key_def intern_def ResourceKey_String_def Value_def
      numeral_eq_Suc)

end
