(* ===== verification/Adsc_Load.thy ===== *)
theory Adsc_Load
  imports Adsc_Sotw Adsc_Delta_Client
begin

text \<open>
  The two users of an ADS client (adsc/load.go): \<open>Fetch\<close>, which reads one full set of
  responses, and \<open>Connect\<close>, which keeps a client connected until its context ends. \<open>Connect\<close> is
  a state machine: its states are the points where the code waits, its events what the waits can
  see. Which of several ready cases a \<open>select\<close> takes is left to the schedule.
\<close>

section \<open>Config and Dial\<close>

datatype metaval = MStr string | MMap "string \<rightharpoonup> string"

record Config =
  c_Namespace :: string
  c_Workload :: string
  c_Meta :: "string \<rightharpoonup> metaval"
  c_NodeType :: string
  c_IP :: string
  c_hasUpdates :: bool
  c_Delta :: bool

text \<open>The defaults Dial fills in; \<open>privateIP\<close> is the address of the machine.\<close>

definition dial_defaults :: "string \<Rightarrow> Config \<Rightarrow> Config" where
  "dial_defaults privateIP opts =
     opts\<lparr>c_Namespace := (if c_Namespace opts = [] then ''default'' else c_Namespace opts),
          c_NodeType := (if c_NodeType opts = [] then ''sidecar'' else c_NodeType opts),
          c_IP := (if c_IP opts = [] then privateIP else c_IP opts),
          c_Workload := (if c_Workload opts = [] then ''test-1'' else c_Workload opts)\<rparr>"

definition nodeID :: "Config \<Rightarrow> string" where
  "nodeID opts =
     c_NodeType opts @ ''~'' @ c_IP opts @ ''~'' @ c_Workload opts @ ''.'' @ c_Namespace opts @ ''~'' @
     c_Namespace opts @ ''.svc.cluster.local''"

text \<open>
  What the caller of Dial is left with: a client, an error without an open connection, an error
  with a client whose connection is open (the state-of-the-world client is returned together with
  the error of its stream), or an error with a connection nobody holds (the delta client is not).
\<close>

datatype dialled = DialOk | NoConn | HeldConn | LostConn

definition Dial :: "Config \<Rightarrow> bool \<Rightarrow> bool \<Rightarrow> dialled" where
  "Dial opts dial_ok stream_ok =
     (if \<not> dial_ok then NoConn
      else if stream_ok then DialOk
      else if c_Delta opts then LostConn else HeldConn)"

section \<open>Connect\<close>

datatype cphase = Dialing | DialBackoff bool | Connected bool | Backoff | Exited

text \<open>
  \<open>cn_backoff\<close> counts the calls of \<open>NextBackOff\<close> since the last \<open>Reset\<close>, and \<open>cn_waits\<close> records
  at which count each wait was drawn: the interval grows with it.
\<close>

record connector =
  cn_phase :: cphase
  cn_attempts :: nat
  cn_backoff :: nat
  cn_waits :: "nat list"
  cn_opened :: nat
  cn_closed :: nat
  cn_forwarded :: "string list"

datatype cevent = Dialled bool bool | Update string | Done | Timer

definition connect_init :: connector where
  "connect_init = \<lparr>cn_phase = Dialing, cn_attempts = 0, cn_backoff = 0, cn_waits = [], cn_opened = 0,
     cn_closed = 0, cn_forwarded = []\<rparr>"

definition NextBackOff :: "connector \<Rightarrow> connector" where
  "NextBackOff c = c\<lparr>cn_backoff := cn_backoff c + 1, cn_waits := cn_waits c @ [cn_backoff c]\<rparr>"

definition forward :: "Config \<Rightarrow> string \<Rightarrow> connector \<Rightarrow> connector" where
  "forward cfg u c = (if c_hasUpdates cfg then c\<lparr>cn_forwarded := cn_forwarded c @ [u]\<rparr> else c)"

text \<open>
  One event; None when the code is not waiting for it. The client closes its own connection
  before it reports \<open>''close''\<close>, so that event closes it; a second Close has no effect.
\<close>

fun connect_step :: "Config \<Rightarrow> connector \<Rightarrow> cevent \<Rightarrow> connector option" where
  "connect_step cfg c e =
     (case (cn_phase c, e) of
        (Dialing, Dialled dial_ok stream_ok) \<Rightarrow>
          (case Dial cfg dial_ok stream_ok of
             DialOk \<Rightarrow> Some (c\<lparr>cn_phase := Connected False, cn_opened := cn_opened c + 1\<rparr>)
           | NoConn \<Rightarrow> Some (NextBackOff (c\<lparr>cn_phase := DialBackoff False, cn_attempts := cn_attempts c + 1\<rparr>))
           | HeldConn \<Rightarrow> Some (NextBackOff (c\<lparr>cn_phase := DialBackoff True, cn_attempts := cn_attempts c + 1,
                                          cn_opened := cn_opened c + 1\<rparr>))
           | LostConn \<Rightarrow> Some (NextBackOff (c\<lparr>cn_phase := DialBackoff False, cn_attempts := cn_attempts c + 1,
                                          cn_opened := cn_opened c + 1\<rparr>)))
      | (DialBackoff held, Done) \<Rightarrow>
          Some (c\<lparr>cn_phase := Exited, cn_closed := cn_closed c + (if held then 1 else 0)\<rparr>)
      | (DialBackoff held, Timer) \<Rightarrow> Some (c\<lparr>cn_phase := Dialing\<rparr>)
      | (Connected update, Update u) \<Rightarrow>
          (if u = ''close''
           then Some (NextBackOff (forward cfg u (c\<lparr>cn_phase := Backoff, cn_closed := cn_closed c + 1\<rparr>)))
           else if \<not> update
           then Some (forward cfg u (c\<lparr>cn_phase := Connected True, cn_backoff := 0\<rparr>))
           else Some (forward cfg u c))
      | (Connected update, Done) \<Rightarrow> Some (c\<lparr>cn_phase := Exited, cn_closed := cn_closed c + 1\<rparr>)
      | (Backoff, Done) \<Rightarrow> Some (c\<lparr>cn_phase := Exited\<rparr>)
      | (Backoff, Timer) \<Rightarrow> Some (c\<lparr>cn_phase := Dialing\<rparr>)
      | _ \<Rightarrow> None)"

declare connect_step.simps [simp del]

inductive connects :: "Config \<Rightarrow> cevent list \<Rightarrow> connector \<Rightarrow> bool" for cfg where
  start: "connects cfg [] connect_init"
| event: "connects cfg es c \<Longrightarrow> connect_step cfg c e = Some c' \<Longrightarrow> connects cfg (es @ [e]) c'"

inductive_cases connects_snoc: "connects cfg (es @ [e]) c"

lemmas connect_defs = connect_step.simps NextBackOff_def forward_def Dial_def

lemma connect_step_exited: "cn_phase c = Exited \<Longrightarrow> connect_step cfg c e = None"
  by (simp add: connect_step.simps)

section \<open>Connections and waits\<close>

text \<open>The connections that are open: dialled and not closed.\<close>

definition held :: "connector \<Rightarrow> nat" where
  "held c = (case cn_phase c of Connected u \<Rightarrow> 1 | DialBackoff True \<Rightarrow> 1 | _ \<Rightarrow> 0)"

definition stream_failed :: "cevent \<Rightarrow> bool" where
  "stream_failed e \<longleftrightarrow> e = Dialled True False"

text \<open>Every open connection is the one in use, or was left behind by a stream that failed to open.\<close>

definition conn_inv :: "nat \<Rightarrow> connector \<Rightarrow> bool" where
  "conn_inv failed c \<longleftrightarrow> cn_closed c + held c \<le> cn_opened c \<and> cn_opened c \<le> cn_closed c + (case cn_phase c of Connected u \<Rightarrow> 1 | _ \<Rightarrow> 0) + failed"

lemma conn_inv_step:
  assumes "conn_inv n c" and "connect_step cfg c e = Some c'"
  shows "conn_inv (if stream_failed e then Suc n else n) c'"
  using assms
  by (auto simp: conn_inv_def held_def stream_failed_def connect_defs
      split: cphase.splits cevent.splits if_splits dialled.splits bool.splits)

lemma connects_conn_inv:
  "connects cfg es c \<Longrightarrow> conn_inv (length (filter stream_failed es)) c"
proof (induction rule: connects.induct)
  case start
  then show ?case by (simp add: conn_inv_def connect_init_def held_def)
next
  case (event es c e c')
  then show ?case using conn_inv_step [OF event.IH event.hyps(2)] by (simp split: if_splits)
qed

text \<open>The waits of a client that reports no updates (the delta client) only grow.\<close>

definition quiet :: "cevent \<Rightarrow> bool" where
  "quiet e \<longleftrightarrow> (\<forall>u. e = Update u \<longrightarrow> u = ''close'')"

lemma waits_step:
  assumes "cn_waits c = [0..<cn_backoff c]" and "quiet e" and "connect_step cfg c e = Some c'"
  shows "cn_waits c' = [0..<cn_backoff c']"
  using assms
  by (auto simp: quiet_def connect_defs split: cphase.splits cevent.splits if_splits dialled.splits)

lemma waits_quiet: "connects cfg es c \<Longrightarrow> \<forall>e \<in> set es. quiet e \<Longrightarrow> cn_waits c = [0..<cn_backoff c]"
proof (induction rule: connects.induct)
  case start
  then show ?case by (simp add: connect_init_def)
next
  case (event es c e c')
  then show ?case using waits_step [OF _ _ event.hyps(2)] by simp
qed

text \<open>After an update the backoff starts over.\<close>

lemma updated_backoff: "connects cfg es c \<Longrightarrow> cn_phase c = Connected True \<Longrightarrow> cn_backoff c = 0"
proof (induction rule: connects.induct)
  case start
  then show ?case by (simp add: connect_init_def)
next
  case (event es c e c')
  then show ?case
    by (auto simp: connect_defs split: cphase.splits cevent.splits if_splits dialled.splits)
qed

fun connect_run :: "Config \<Rightarrow> connector \<Rightarrow> cevent list \<Rightarrow> connector option" where
  "connect_run cfg c [] = Some c"
| "connect_run cfg c (e # es) = (case connect_step cfg c e of None \<Rightarrow> None | Some c' \<Rightarrow> connect_run cfg c' es)"

lemma connects_run: "connects cfg es c \<Longrightarrow> connect_run cfg c es' = Some c' \<Longrightarrow> connects cfg (es @ es') c'"
proof (induction es' arbitrary: es c)
  case (Cons e es')
  then obtain c1 where "connect_step cfg c e = Some c1" "connect_run cfg c1 es' = Some c'"
    by (auto split: option.splits)
  then show ?case using Cons.IH [of "es @ [e]" c1] event [OF Cons.prems(1)] by simp
qed simp

section \<open>Fetch\<close>

text \<open>
  \<open>Fetch\<close> over the state-of-the-world client: the schedule interleaves what the client receives
  with the reads of its channel and the end of the context. A read when the channel is empty does
  not happen. \<open>Blocks\<close>: the schedule ends while the loop still waits.
\<close>

datatype fetch_event = Client adsc_event | Read | CtxDone

definition fetch_watches :: "string list" where
  "fetch_watches = [''cds'', ''eds'', ''rds'', ''lds'']"

fun fetch_loop :: "codec \<Rightarrow> fetch_event list \<Rightarrow> string list \<Rightarrow> ADSC \<Rightarrow> (Responses option \<times> ADSC) outcome" where
  "fetch_loop c [] watchAll a = Blocks"
| "fetch_loop c (Client e # es) watchAll a = fetch_loop c es watchAll (adsc_step c a e)"
| "fetch_loop c (Read # es) watchAll a =
     (case take_update a of
        None \<Rightarrow> fetch_loop c es watchAll a
      | Some (u, a1) \<Rightarrow>
          (if u = ''close'' \<or> removeAll u watchAll = [] then Returns (Some (a_responses (Close a1)), Close a1)
           else fetch_loop c es (removeAll u watchAll) a1))"
| "fetch_loop c (CtxDone # es) watchAll a = Returns (None, Close a)"

definition Fetch :: "codec \<Rightarrow> fetch_event list \<Rightarrow> ADSC \<Rightarrow> (Responses option \<times> ADSC) outcome" where
  "Fetch c es a = fetch_loop c es fetch_watches (Watch_initial a)"

text \<open>What each kind of message reports.\<close>

definition update_of :: "type_url \<Rightarrow> string option" where
  "update_of t =
     (case t of ListenerType \<Rightarrow> Some ''lds'' | ClusterType \<Rightarrow> Some ''cds'' | EndpointType \<Rightarrow> Some ''eds''
      | RouteType \<Rightarrow> Some ''rds'' | SecretType \<Rightarrow> Some ''sds'' | ExtensionConfigType \<Rightarrow> Some ''ecds'' | _ \<Rightarrow> None)"

lemma update_of_inv:
  "update_of t = Some ''cds'' \<Longrightarrow> t = ClusterType" "update_of t = Some ''eds'' \<Longrightarrow> t = EndpointType"
  "update_of t = Some ''rds'' \<Longrightarrow> t = RouteType" "update_of t = Some ''lds'' \<Longrightarrow> t = ListenerType"
  by (cases t; simp add: update_of_def)+

lemma a_updates_send [simp]: "a_updates (send a dr why) = a_updates a"
  by (simp add: send_def)

lemma a_updates_ack [simp]: "a_updates (ack a msg names) = a_updates a"
  by (simp add: ack_def Let_def)

lemma set_updates_notify: "set (a_updates (notify a u)) \<subseteq> insert u (set (a_updates a))"
  by (auto simp: notify_def)

lemma handle_msg_updates:
  "set (a_updates (handle_msg c msg a)) \<subseteq> set (a_updates a) \<union> {u. update_of (m_type msg) = Some u}"
proof -
  have cds: "set (a_updates (handleCDS ll b)) \<subseteq> insert ''cds'' (set (a_updates b))" for ll b
    unfolding handleCDS_def Let_def by (rule order_trans [OF set_updates_notify]) auto
  have lds: "set (a_updates (handleLDS c ll b)) \<subseteq> insert ''lds'' (set (a_updates b))" for ll b
    unfolding handleLDS_def Let_def by (rule order_trans [OF set_updates_notify]) auto
  note n = set_updates_notify [THEN subsetD]
  show ?thesis
    using cds [THEN subsetD] lds [THEN subsetD] n
    by (cases "m_type msg") (fastforce simp: handle_msg_def update_of_def Let_def)+
qed

fun received :: "fetch_event list \<Rightarrow> type_url set" where
  "received [] = {}"
| "received (Client (Received m) # es) = insert (m_type m) (received es)"
| "received (e # es) = received es"

lemma fetch_loop_complete:
  "fetch_loop c es watchAll a = Returns (Some r, a') \<Longrightarrow> Client RecvFailed \<notin> set es \<Longrightarrow>
     ''close'' \<notin> set (a_updates a) \<Longrightarrow>
     u \<in> set watchAll \<Longrightarrow> u \<in> set (a_updates a) \<or> (\<exists>t \<in> received es. update_of t = Some u)"
proof (induction c es watchAll a rule: fetch_loop.induct)
  case (2 c e es watchAll a)
  show ?case
  proof (cases e)
    case (Received m)
    have sub: "set (a_updates (adsc_step c a e)) \<subseteq> set (a_updates a) \<union> {u. update_of (m_type m) = Some u}"
      using handle_msg_updates Received by simp
    have "update_of (m_type m) \<noteq> Some ''close''" by (simp add: update_of_def split: type_url.split)
    then have "''close'' \<notin> set (a_updates (adsc_step c a e))" using sub "2.prems"(3) by auto
    then show ?thesis using 2 sub Received by auto
  next
    case RecvFailed
    then show ?thesis using "2.prems"(2) by simp
  next
    case Taken
    have "set (a_updates (adsc_step c a e)) \<subseteq> set (a_updates a)"
      using Taken by (auto simp: take_update_def split: list.splits)
    then show ?thesis using 2 Taken by auto
  qed
next
  case (3 c es watchAll a)
  show ?case
  proof (cases "a_updates a")
    case Nil
    then show ?thesis using 3 by (auto simp: take_update_def)
  next
    case (Cons v vs)
    then have take: "take_update a = Some (v, a\<lparr>a_updates := vs\<rparr>)" by (simp add: take_update_def)
    show ?thesis
    proof (cases "u = v")
      case True
      then show ?thesis using Cons by simp
    next
      case False
      then have "removeAll v watchAll \<noteq> []" using "3.prems"(4) by (auto simp: removeAll_filter_not_eq filter_empty_conv)
      then show ?thesis using 3 take Cons False by auto
    qed
  qed
qed auto

section \<open>Properties\<close>

text \<open>
  C10: When Fetch returns responses and the stream never failed, the client has received at least one
  message of each of the four types it waits for: clusters, endpoints, routes and listeners.
\<close>

theorem Fetch_complete:
  assumes "Fetch c es (new_adsc node st) = Returns (Some r, a')" and "Client RecvFailed \<notin> set es"
  shows "{ClusterType, EndpointType, RouteType, ListenerType} \<subseteq> received es"
proof -
  have u: "\<exists>t \<in> received es. update_of t = Some u" if "u \<in> set fetch_watches" for u
    using fetch_loop_complete [OF assms(1) [unfolded Fetch_def] assms(2) _ that]
    by (simp add: Watch_initial_def new_adsc_def)
  have "ClusterType \<in> received es" using u [of "''cds''"] by (auto simp: fetch_watches_def dest: update_of_inv)
  moreover have "EndpointType \<in> received es" using u [of "''eds''"] by (auto simp: fetch_watches_def dest: update_of_inv)
  moreover have "RouteType \<in> received es" using u [of "''rds''"] by (auto simp: fetch_watches_def dest: update_of_inv)
  moreover have "ListenerType \<in> received es" using u [of "''lds''"] by (auto simp: fetch_watches_def dest: update_of_inv)
  ultimately show ?thesis by simp
qed

definition empty_msg :: "type_url \<Rightarrow> fetch_event" where
  "empty_msg t = Client (Received \<lparr>m_type = t, m_nonce = ''n'', m_version = ''v'', m_resources = []\<rparr>)"

definition full_schedule :: "fetch_event list" where
  "full_schedule = [empty_msg ClusterType, empty_msg ListenerType, Read, empty_msg RouteType, Read,
     empty_msg EndpointType, Read, Read]"

lemma Fetch_complete_witness:
  "\<exists>r a'. Fetch small_codec full_schedule (new_adsc ''n'' True) = Returns (Some r, a') \<and>
     {ClusterType, EndpointType, RouteType, ListenerType} \<subseteq> received full_schedule"
proof -
  have "\<exists>r a'. Fetch small_codec full_schedule (new_adsc ''n'' True) = Returns (Some r, a')"
    by (simp add: Fetch_def full_schedule_def empty_msg_def fetch_watches_def take_update_def
        new_adsc_def Watch_initial_def handle_msg_def handleCDS_def handleLDS_def decode_all_def ack_def send_def
        notify_def chan_cap_def handleResourceUpdate_def get_watch_def no_watch_def request_def eds_clusters_def
        listed_secrets_def Let_def Close_def)
  moreover have "Client RecvFailed \<notin> set full_schedule" by (simp add: full_schedule_def empty_msg_def)
  ultimately show ?thesis using Fetch_complete by blast
qed


definition sotw_config :: Config where
  "sotw_config = \<lparr>c_Namespace = ''ns'', c_Workload = ''app'', c_Meta = Map.empty, c_NodeType = [], c_IP = ''1.2.3.4'',
     c_hasUpdates = False, c_Delta = False\<rparr>"


text \<open>The exception is real: a stream that fails to open leaves its connection open.\<close>

lemma connect_leaks:
  "case connect_run sotw_config connect_init [Dialled True False, Timer, Dialled True True, Done] of
     None \<Rightarrow> False | Some c \<Rightarrow> cn_phase c = Exited \<and> cn_opened c = 2 \<and> cn_closed c = 1"
  by (simp add: connect_defs connect_init_def sotw_config_def)



end
