(* ===== verification/Kube.thy ===== *)
theory Kube
  imports Sim_Model Kube_Objects Adsc_Load
begin

text \<open>
  The package \<open>pkg/kube\<close> (kube.go): get-then-create-or-update, server-side apply, create and
  delete over a Kubernetes client. The API server, the error classification of apimachinery,
  client-go's RetryOnConflict, the object codec and the scheme tables are the parameter
  \<open>kenv\<close>; the world records every request with its outcome.
\<close>

section \<open>Requests, the world and the environment\<close>

datatype request =
    Get key
  | Create_req string kobj
  | Update_req string kobj
  | UpdateStatus_req string kobj
  | Patch_req key string "string list"
  | Delete_req key int

text \<open>
  A goroutine in which an XDS client runs \<open>Connect\<close>: its configuration, and whether its context
  has been cancelled.
\<close>

record stream =
  sm_config :: Config
  sm_cancelled :: bool

record 's world =
  srv_state :: 's
  streams :: "stream list"
  log :: "(request \<times> gerror option) list"
  nextIp :: ip4
  rnd :: rng
  now :: int

text \<open>
  The state a retried closure of kube.go works on: its \<open>firstRun\<close> flag, the object, the
  captured result and the world.
\<close>

record 's attempt =
  at_first :: bool
  at_obj :: kobj
  at_res :: "kobj option"
  at_world :: "'s world"

type_synonym 's closure = "'s attempt \<Rightarrow> 's attempt \<times> gerror option"

record 's kenv =
  srv :: "request \<Rightarrow> 's \<Rightarrow> (gerror + kobj) \<times> 's"
  IsNotFound :: "gerror \<Rightarrow> bool"
  IsAlreadyExists :: "gerror \<Rightarrow> bool"
  IsForbidden :: "gerror \<Rightarrow> bool"
  IsConflict :: "gerror \<Rightarrow> bool"
  RetryOnConflict :: "nat \<Rightarrow> 's closure \<Rightarrow> 's closure"
  encode :: "string \<times> string \<Rightarrow> kobj \<Rightarrow> gerror + string"
  gv_of_type :: "string \<Rightarrow> string \<times> string"
  to_gvr :: "string \<times> string \<times> string \<Rightarrow> string option"
  is_fake :: bool
  kruntime :: "'s world runtime"

definition exec :: "'s kenv \<Rightarrow> request \<Rightarrow> 's world \<Rightarrow> (gerror + kobj) \<times> 's world" where
  "exec env req w =
     (let (r, s') = srv env req (srv_state w)
      in (r, w\<lparr>srv_state := s',
               log := log w @ [(req, case r of Inl e \<Rightarrow> Some e | Inr x \<Rightarrow> None)]\<rparr>))"

text \<open>The static Go type at which a generic function is used: a concrete type or an interface.\<close>

datatype gotype = Concrete string | Interface string

fun TypeIsConcrete :: "gotype \<Rightarrow> bool" where
  "TypeIsConcrete (Concrete t) = True"
| "TypeIsConcrete (Interface t) = False"

fun TypeName :: "gotype \<Rightarrow> string" where
  "TypeName (Concrete t) = t"
| "TypeName (Interface t) = t"

definition ssl :: "string \<Rightarrow> string \<Rightarrow> string \<Rightarrow> string" where
  "ssl a b c = a @ ''/'' @ b @ ''/'' @ c"

definition hasStatus :: "'s kenv \<Rightarrow> kobj \<Rightarrow> bool" where
  "hasStatus env o1 = (if is_fake env then False else hasStatusInternal o1)"

section \<open>Retried updates\<close>

text \<open>
  The common prefix of the closures of update and updateStatus: on every run but the first,
  read the object again and take over its resource version.
\<close>

definition refresh_version :: "'s kenv \<Rightarrow> gotype \<Rightarrow> 's attempt \<Rightarrow> 's attempt \<times> gerror option" where
  "refresh_version env T a =
     (if at_first a then (a\<lparr>at_first := False\<rparr>, None)
      else (case exec env (Get (obj_key (TypeName T) (at_obj a))) (at_world a) of
          (Inl err, w') \<Rightarrow> (a\<lparr>at_world := w'\<rparr>, Some (ErrW ''get: '' err))
        | (Inr current, w') \<Rightarrow>
            (a\<lparr>at_world := w',
               at_obj := (at_obj a)\<lparr>o_resourceVersion := o_resourceVersion current\<rparr>\<rparr>, None)))"

definition updateStatus_fn :: "'s kenv \<Rightarrow> gotype \<Rightarrow> 's closure" where
  "updateStatus_fn env T a =
     (case refresh_version env T a of
        (a1, Some err) \<Rightarrow> (a1, Some err)
      | (a1, None) \<Rightarrow>
          (case exec env (UpdateStatus_req (TypeName T) (at_obj a1)) (at_world a1) of
             (Inl err, w') \<Rightarrow> (a1\<lparr>at_world := w'\<rparr>, Some (ErrW ''update status: '' err))
           | (Inr _, w') \<Rightarrow> (a1\<lparr>at_world := w'\<rparr>, None)))"

definition updateStatus :: "'s kenv \<Rightarrow> gotype \<Rightarrow> kobj \<Rightarrow> 's world \<Rightarrow> kobj \<times> gerror option \<times> 's world" where
  "updateStatus env T o1 w =
     (let (a, err) = RetryOnConflict env 3 (updateStatus_fn env T)
            \<lparr>at_first = True, at_obj = o1, at_res = None, at_world = w\<rparr>
      in (at_obj a, err, at_world a))"

definition update_fn :: "'s kenv \<Rightarrow> gotype \<Rightarrow> 's closure" where
  "update_fn env T a =
     (case refresh_version env T a of
        (a1, Some err) \<Rightarrow> (a1, Some err)
      | (a1, None) \<Rightarrow>
          (case exec env (Update_req (TypeName T) (at_obj a1)) (at_world a1) of
             (Inl err, w') \<Rightarrow> (a1\<lparr>at_world := w', at_res := None\<rparr>, Some (ErrW ''update: '' err))
           | (Inr r, w') \<Rightarrow> (a1\<lparr>at_world := w', at_res := Some r\<rparr>, None)))"

definition update :: "'s kenv \<Rightarrow> gotype \<Rightarrow> kobj \<Rightarrow> 's world \<Rightarrow>
    kobj \<times> kobj option \<times> gerror option \<times> 's world" where
  "update env T o1 w =
     (let (a, err) = RetryOnConflict env 3 (update_fn env T)
            \<lparr>at_first = True, at_obj = o1, at_res = None, at_world = w\<rparr>
      in (at_obj a, at_res a, err, at_world a))"

section \<open>Apply\<close>

definition create_fast_fn :: "'s kenv \<Rightarrow> gotype \<Rightarrow> 's closure" where
  "create_fast_fn env T a =
     (case exec env (Create_req (TypeName T) (at_obj a)) (at_world a) of
        (Inl err, w') \<Rightarrow> (a\<lparr>at_world := w', at_res := None\<rparr>, Some (ErrV ''create: '' err))
      | (Inr r, w') \<Rightarrow>
          (if hasStatus env (at_obj a)
           then (case exec env (UpdateStatus_req (TypeName T) (at_obj a)) w' of
                   (Inl err, w2) \<Rightarrow> (a\<lparr>at_world := w2, at_res := Some r\<rparr>, Some (ErrV ''update status: '' err))
                 | (Inr _, w2) \<Rightarrow> (a\<lparr>at_world := w2, at_res := Some r\<rparr>, None))
           else (a\<lparr>at_world := w', at_res := Some r\<rparr>, None)))"

text \<open>
  \<open>internalApply\<close> returns the object (whose resource version it sets), the result (None for
  the zero value), the error and the world. After a failed Get that is not NotFound the code
  goes on with the (empty) object that Get returned: its resource version is \<open>''''\<close>.
\<close>

definition internalApply :: "'s kenv \<Rightarrow> gotype \<Rightarrow> kobj \<Rightarrow> bool \<Rightarrow> 's world \<Rightarrow>
    kobj \<times> kobj option \<times> gerror option \<times> 's world" where
  "internalApply env T o1 skipGet w =
     (let t = TypeName T; name = o_name o1; ns = o_namespace o1 in
      if skipGet then
        (let (a, err) = RetryOnConflict env 3 (create_fast_fn env T)
               \<lparr>at_first = True, at_obj = o1, at_res = None, at_world = w\<rparr>
         in case err of
              Some e \<Rightarrow> (at_obj a, None, Some (ErrV (''failed to create '' @ ssl t name ns @ '': '') e), at_world a)
            | None \<Rightarrow> (at_obj a, at_res a, None, at_world a))
      else
        (let (got, w1) = exec env (Get (obj_key t o1)) w in
         if (case got of Inl e \<Rightarrow> IsNotFound env e | Inr _ \<Rightarrow> False) then
           (case exec env (Create_req t o1) w1 of
              (Inl e, w2) \<Rightarrow> (o1, None, Some (ErrW ''create: '' e), w2)
            | (Inr res, w2) \<Rightarrow>
                let o2 = o1\<lparr>o_resourceVersion := o_resourceVersion res\<rparr> in
                if hasStatus env o2 then
                  (case updateStatus env T o2 w2 of
                     (o3, Some e, w3) \<Rightarrow> (o3, None, Some e, w3)
                   | (o3, None, w3) \<Rightarrow> (o3, Some res, None, w3))
                else (o2, Some res, None, w2))
         else
           (let rv = (case got of Inl e \<Rightarrow> [] | Inr res \<Rightarrow> o_resourceVersion res);
                o2 = o1\<lparr>o_resourceVersion := rv\<rparr>
            in case update env T o2 w1 of
                 (o3, res, Some e, w2) \<Rightarrow> (o3, None, Some e, w2)
               | (o3, res, None, w2) \<Rightarrow>
                   let o4 = o3\<lparr>o_resourceVersion :=
                          (case res of None \<Rightarrow> [] | Some r \<Rightarrow> o_resourceVersion r)\<rparr> in
                   if hasStatus env o4 then
                     (case updateStatus env T o4 w2 of
                        (o5, Some e, w3) \<Rightarrow> (o5, res, Some e, w3)
                      | (o5, None, w3) \<Rightarrow> (o5, res, None, w3))
                   else (o4, res, None, w2))))"

definition ApplyRes :: "'s kenv \<Rightarrow> gotype \<Rightarrow> kobj \<Rightarrow> 's world \<Rightarrow> kobj option \<times> gerror option \<times> 's world" where
  "ApplyRes env T o1 w = (let (o2, res, err, w') = internalApply env T o1 False w in (res, err, w'))"

definition Apply :: "'s kenv \<Rightarrow> gotype \<Rightarrow> kobj \<Rightarrow> 's world \<Rightarrow> kobj \<times> gerror option \<times> 's world" where
  "Apply env T o1 w = (let (o2, res, err, w') = internalApply env T o1 False w in (o2, err, w'))"

definition ApplyFast :: "'s kenv \<Rightarrow> gotype \<Rightarrow> kobj \<Rightarrow> 's world \<Rightarrow> kobj \<times> gerror option \<times> 's world" where
  "ApplyFast env T o1 w = (let (o2, res, err, w') = internalApply env T o1 True w in (o2, err, w'))"

section \<open>Server-side apply, create, delete\<close>

text \<open>
  \<open>dynamicClient\<close> finds the resource of the object's GVK; \<open>MustToGVR\<close> panics on a kind it
  does not know.
\<close>

definition dynamicClient :: "'s kenv \<Rightarrow> kobj \<Rightarrow> string outcome" where
  "dynamicClient env o1 =
     (case to_gvr env (o_gvk o1) of None \<Rightarrow> Panics ''unknown GVK'' | Some r \<Rightarrow> Returns r)"

definition resource_of :: "'s kenv \<Rightarrow> gotype \<Rightarrow> kobj \<Rightarrow> string outcome" where
  "resource_of env T o1 = (if TypeIsConcrete T then Returns (TypeName T) else dynamicClient env o1)"

text \<open>
  The patcher of ApplyRealSSA: both variants call \<open>cl.Patch(ctx, name, pt, data, opts)\<close>, so
  the subresources it is given do not reach the request.
\<close>

definition patcher :: "'s kenv \<Rightarrow> key \<Rightarrow> string \<Rightarrow> string list \<Rightarrow> 's world \<Rightarrow> gerror option \<times> 's world" where
  "patcher env k data subresources w =
     (case exec env (Patch_req k data []) w of
        (Inl err, w') \<Rightarrow> (Some err, w')
      | (Inr _, w') \<Rightarrow> (None, w'))"

definition ApplyRealSSA :: "'s kenv \<Rightarrow> gotype \<Rightarrow> kobj \<Rightarrow> 's world \<Rightarrow> (gerror option \<times> 's world) outcome" where
  "ApplyRealSSA env T o1 w =
     obind (resource_of env T o1) (\<lambda>r.
       let name = o_name o1; ns = o_namespace o1; t = TypeName T;
           (g, v, knd) = o_gvk o1;
           gv = (if v = [] then gv_of_type env (TypeName T) else (g, v))
       in case encode env gv o1 of
            Inl err \<Rightarrow> Returns (Some (ErrV ''encode: '' err), w)
          | Inr b \<Rightarrow>
              (case patcher env (r, ns, name) b [] w of
                 (Some err, w1) \<Rightarrow>
                   Returns (Some (ErrV (''failed to ssa '' @ ssl t name ns @ '': '') err), w1)
               | (None, w1) \<Rightarrow>
                   if hasStatus env o1 then
                     (case patcher env (r, ns, name) b [''status''] w1 of
                        (Some err, w2) \<Rightarrow>
                          Returns (Some (ErrV (''ssa status '' @ ssl t name ns @ '': '') err), w2)
                      | (None, w2) \<Rightarrow> Returns (None, w2))
                   else Returns (None, w1)))"

definition ApplyStatusRealSSA :: "'s kenv \<Rightarrow> gotype \<Rightarrow> kobj \<Rightarrow> 's world \<Rightarrow> gerror option \<times> 's world" where
  "ApplyStatusRealSSA env T o1 w =
     (let name = o_name o1; ns = o_namespace o1; t = TypeName T in
      case encode env (gv_of_type env t) o1 of
        Inl err \<Rightarrow> (Some err, w)
      | Inr b \<Rightarrow>
          (case exec env (Patch_req (t, ns, name) b [''status'']) w of
             (Inl err, w') \<Rightarrow> (Some (ErrV (''failed to ssa '' @ ssl t name ns @ '': '') err), w')
           | (Inr _, w') \<Rightarrow> (None, w')))"

definition ApplyStatus :: "'s kenv \<Rightarrow> gotype \<Rightarrow> kobj \<Rightarrow> 's world \<Rightarrow> gerror option \<times> 's world" where
  "ApplyStatus env T o1 w =
     (case exec env (UpdateStatus_req (TypeName T) o1) w of
        (Inl err, w') \<Rightarrow> (Some (ErrV ''update status: '' err), w')
      | (Inr _, w') \<Rightarrow> (None, w'))"

text \<open>\<open>strings.Contains\<close>.\<close>

fun is_prefix :: "string \<Rightarrow> string \<Rightarrow> bool" where
  "is_prefix [] s = True"
| "is_prefix (c # cs) [] = False"
| "is_prefix (c # cs) (d # ds) = (c = d \<and> is_prefix cs ds)"

fun str_contains :: "string \<Rightarrow> string \<Rightarrow> bool" where
  "str_contains [] sub = is_prefix sub []"
| "str_contains (c # cs) sub = (is_prefix sub (c # cs) \<or> str_contains cs sub)"

definition Create :: "'s kenv \<Rightarrow> gotype \<Rightarrow> kobj \<Rightarrow> 's world \<Rightarrow> (bool \<times> gerror option \<times> 's world) outcome" where
  "Create env T o1 w =
     obind (resource_of env T o1) (\<lambda>r.
       case exec env (Create_req r o1) w of
         (Inl err, w') \<Rightarrow>
           if IsAlreadyExists env err then Returns (False, None, w')
           else if IsForbidden env err \<and> str_contains (err_text err) ''exceeded quota''
             then Returns (False, None, w')
           else Returns (False, Some (ErrV ''create resource: '' err), w')
       | (Inr _, w') \<Rightarrow> Returns (True, None, w'))"

definition Delete :: "'s kenv \<Rightarrow> gotype \<Rightarrow> kobj \<Rightarrow> 's world \<Rightarrow> (gerror option \<times> 's world) outcome" where
  "Delete env T o1 w =
     obind (resource_of env T o1) (\<lambda>r.
       case exec env (Delete_req (obj_key r o1) 0) w of
         (Inl err, w') \<Rightarrow> if IsNotFound env err then Returns (None, w') else Returns (Some err, w')
       | (Inr _, w') \<Rightarrow> Returns (None, w'))"


section \<open>Documented behaviour of the client library\<close>

text \<open>
  client-go's RetryOnConflict with a backoff of \<open>n\<close> steps: run the function until it succeeds,
  fails with something that is not a conflict, or has run \<open>n\<close> times; return its last error.
\<close>

fun retry_ref :: "(gerror \<Rightarrow> bool) \<Rightarrow> nat \<Rightarrow> 's closure \<Rightarrow> 's closure" where
  "retry_ref isc 0 f a = (a, None)"
| "retry_ref isc (Suc n) f a =
     (case f a of
        (a', None) \<Rightarrow> (a', None)
      | (a', Some e) \<Rightarrow> if isc e \<and> 0 < n then retry_ref isc n f a' else (a', Some e))"

definition retry_documented :: "'s kenv \<Rightarrow> bool" where
  "retry_documented env \<longleftrightarrow>
     (\<forall>f a. RetryOnConflict env 3 f a = retry_ref (IsConflict env) 3 f a)"

text \<open>
  apimachinery's classification looks through wrapped errors (\<open>%w\<close>) and at nothing else: an
  error flattened with \<open>%v\<close> has no status.
\<close>

definition errors_documented :: "'s kenv \<Rightarrow> bool" where
  "errors_documented env \<longleftrightarrow>
     (\<forall>p e. IsConflict env (ErrW p e) = IsConflict env e) \<and>
     (\<forall>p e. \<not> IsConflict env (ErrV p e))"

lemma retry_ref_keeps:
  assumes "\<And>a a' e. P a \<Longrightarrow> f a = (a', e) \<Longrightarrow> P a'"
  shows "P a \<Longrightarrow> retry_ref isc n f a = (a', e) \<Longrightarrow> P a'"
proof (induction n arbitrary: a)
  case 0
  then show ?case by simp
next
  case (Suc n)
  obtain a1 e1 where f: "f a = (a1, e1)" by fastforce
  with Suc.prems assms have "P a1" by blast
  then show ?case
    using Suc f by (auto split: option.splits if_splits)
qed

section \<open>What exists: the objects applied and not deleted since\<close>

fun live_step :: "('s kenv) \<Rightarrow> key set \<Rightarrow> request \<times> gerror option \<Rightarrow> key set" where
  "live_step env L (Create_req r o1, None) = insert (obj_key r o1) L"
| "live_step env L (Update_req r o1, None) = insert (obj_key r o1) L"
| "live_step env L (Patch_req k b [], None) = insert k L"
| "live_step env L (Delete_req k g, None) = L - {k}"
| "live_step env L (Delete_req k g, Some e) = (if IsNotFound env e then L - {k} else L)"
| "live_step env L x = L"

definition live :: "'s kenv \<Rightarrow> 's world \<Rightarrow> key set" where
  "live env w = foldl (live_step env) {} (log w)"

definition reply_err :: "gerror + kobj \<Rightarrow> gerror option" where
  "reply_err r = (case r of Inl e \<Rightarrow> Some e | Inr x \<Rightarrow> None)"

lemma reply_err_simps [simp]: "reply_err (Inl e) = Some e" "reply_err (Inr x) = None"
  by (simp_all add: reply_err_def)

lemma exec_log:
  "exec env req w = (r, w') \<Longrightarrow> log w' = log w @ [(req, reply_err r)]"
  by (auto simp: exec_def reply_err_def Let_def split: prod.splits)

lemma exec_frame:
  "exec env req w = (r, w') \<Longrightarrow> nextIp w' = nextIp w \<and> rnd w' = rnd w \<and> now w' = now w \<and> streams w' = streams w"
  by (auto simp: exec_def Let_def split: prod.splits)

lemma exec_live:
  "exec env req w = (r, w') \<Longrightarrow> live env w' = live_step env (live env w) (req, reply_err r)"
  using exec_log [of env req w r w'] by (simp add: live_def)

lemma live_step_simps [simp]:
  "live_step env L (Get k, x) = L"
  "live_step env L (UpdateStatus_req t o1, x) = L"
  "live_step env L (Create_req t o1, Some e) = L"
  "live_step env L (Update_req t o1, Some e) = L"
  "live_step env L (Patch_req k b s, Some e) = L"
  "live_step env L (Patch_req k b (x1 # xs), x) = L"
  by (cases x; simp)+

text \<open>The closures of kube.go touch only their object's key.\<close>

definition touches :: "'s kenv \<Rightarrow> string \<Rightarrow> key \<Rightarrow> key set \<Rightarrow> 's attempt \<Rightarrow> bool" where
  "touches env t k L a \<longleftrightarrow> obj_key t (at_obj a) = k \<and> live env (at_world a) \<subseteq> insert k L"

lemma refresh_version_touches:
  "touches env (TypeName T) k L a \<Longrightarrow> refresh_version env T a = (a', e) \<Longrightarrow>
     touches env (TypeName T) k L a'"
  by (auto simp: refresh_version_def touches_def split: if_splits prod.splits sum.splits
      dest!: exec_live)

lemma touches_exec:
  assumes "touches env t k L a" and "exec env req (at_world a) = (r, w')"
    and "live_step env (live env (at_world a)) (req, reply_err r) \<subseteq> insert k (live env (at_world a))"
  shows "live env w' \<subseteq> insert k L"
  using assms exec_live [OF assms(2)] by (auto simp: touches_def)

lemma live_step_own:
  "live_step env L (Create_req t o1, x) \<subseteq> insert (obj_key t o1) L"
  "live_step env L (Update_req t o1, x) \<subseteq> insert (obj_key t o1) L"
  "live_step env L (Patch_req k b s, x) \<subseteq> insert k L"
  "live_step env L (Delete_req k g, x) \<subseteq> L"
proof -
  show "live_step env L (Create_req t o1, x) \<subseteq> insert (obj_key t o1) L"
    and "live_step env L (Update_req t o1, x) \<subseteq> insert (obj_key t o1) L"
    and "live_step env L (Delete_req k g, x) \<subseteq> L"
    by (cases x; auto)+
  show "live_step env L (Patch_req k b s, x) \<subseteq> insert k L"
    by (cases x; cases s) auto
qed

lemma updateStatus_fn_touches:
  assumes "touches env (TypeName T) k L a" and "updateStatus_fn env T a = (a', e)"
  shows "touches env (TypeName T) k L a'"
proof -
  obtain a1 e1 where r: "refresh_version env T a = (a1, e1)" by fastforce
  note t1 = refresh_version_touches [OF assms(1) r]
  obtain y w' where x: "exec env (UpdateStatus_req (TypeName T) (at_obj a1)) (at_world a1) = (y, w')"
    by fastforce
  have "live env w' \<subseteq> insert k L" using touches_exec [OF t1 x] by auto
  then show ?thesis
    using assms(2) r x t1
    by (auto simp: updateStatus_fn_def touches_def split: option.splits sum.splits)
qed

lemma update_fn_touches:
  assumes "touches env (TypeName T) k L a" and "update_fn env T a = (a', e)"
  shows "touches env (TypeName T) k L a'"
proof -
  obtain a1 e1 where r: "refresh_version env T a = (a1, e1)" by fastforce
  note t1 = refresh_version_touches [OF assms(1) r]
  obtain y w' where x: "exec env (Update_req (TypeName T) (at_obj a1)) (at_world a1) = (y, w')"
    by fastforce
  have "live env w' \<subseteq> insert k L"
    by (rule touches_exec [OF t1 x])
      (use live_step_own(2) [where t = "TypeName T" and ?o1.0 = "at_obj a1"] t1 in \<open>simp add: touches_def\<close>)
  then show ?thesis
    using assms(2) r x t1
    by (auto simp: update_fn_def touches_def split: option.splits sum.splits)
qed

lemma create_fast_fn_touches:
  assumes "touches env (TypeName T) k L a" and "create_fast_fn env T a = (a', e)"
  shows "touches env (TypeName T) k L a'"
proof -
  obtain y w1 where x: "exec env (Create_req (TypeName T) (at_obj a)) (at_world a) = (y, w1)"
    by fastforce
  have l1: "live env w1 \<subseteq> insert k L"
    by (rule touches_exec [OF assms(1) x])
      (use live_step_own(1) [where t = "TypeName T" and ?o1.0 = "at_obj a"] assms(1) in \<open>simp add: touches_def\<close>)
  obtain z w2 where x2: "exec env (UpdateStatus_req (TypeName T) (at_obj a)) w1 = (z, w2)"
    by fastforce
  have "live env w2 \<subseteq> insert k L"
    using exec_live [OF x2] l1 by simp
  then show ?thesis
    using assms x x2 l1
    by (auto simp: create_fast_fn_def touches_def split: if_splits sum.splits)
qed

section \<open>Effects of the operations on what exists\<close>

lemma updateStatus_live:
  assumes "retry_documented env" and "updateStatus env T o1 w = (o2, e, w')"
  shows "obj_key (TypeName T) o2 = obj_key (TypeName T) o1
    \<and> live env w' \<subseteq> insert (obj_key (TypeName T) o1) (live env w)"
proof -
  obtain a where r: "retry_ref (IsConflict env) 3 (updateStatus_fn env T)
      \<lparr>at_first = True, at_obj = o1, at_res = None, at_world = w\<rparr> = (a, e)"
    and a: "o2 = at_obj a" "w' = at_world a"
    using assms by (auto simp: updateStatus_def retry_documented_def split: prod.splits)
  have "touches env (TypeName T) (obj_key (TypeName T) o1) (live env w) a"
    by (rule retry_ref_keeps [OF updateStatus_fn_touches _ r]) (auto simp: touches_def)
  then show ?thesis by (simp add: touches_def a)
qed

lemma update_live:
  assumes "retry_documented env" and "update env T o1 w = (o2, res, e, w')"
  shows "obj_key (TypeName T) o2 = obj_key (TypeName T) o1
    \<and> live env w' \<subseteq> insert (obj_key (TypeName T) o1) (live env w)"
proof -
  obtain a where r: "retry_ref (IsConflict env) 3 (update_fn env T)
      \<lparr>at_first = True, at_obj = o1, at_res = None, at_world = w\<rparr> = (a, e)"
    and a: "o2 = at_obj a" "w' = at_world a"
    using assms by (auto simp: update_def retry_documented_def split: prod.splits)
  have "touches env (TypeName T) (obj_key (TypeName T) o1) (live env w) a"
    by (rule retry_ref_keeps [OF update_fn_touches _ r]) (auto simp: touches_def)
  then show ?thesis by (simp add: touches_def a)
qed

lemma create_fast_live:
  assumes "retry_documented env"
    and "RetryOnConflict env 3 (create_fast_fn env T)
      \<lparr>at_first = True, at_obj = o1, at_res = None, at_world = w\<rparr> = (a, e)"
  shows "live env (at_world a) \<subseteq> insert (obj_key (TypeName T) o1) (live env w)"
proof -
  have r: "retry_ref (IsConflict env) 3 (create_fast_fn env T)
      \<lparr>at_first = True, at_obj = o1, at_res = None, at_world = w\<rparr> = (a, e)"
    using assms by (simp add: retry_documented_def)
  have "touches env (TypeName T) (obj_key (TypeName T) o1) (live env w) a"
    by (rule retry_ref_keeps [OF create_fast_fn_touches _ r]) (auto simp: touches_def)
  then show ?thesis by (simp add: touches_def)
qed

lemma internalApply_live:
  assumes ok: "retry_documented env" and app: "internalApply env T o1 sk w = (o2, res, e, w')"
  shows "live env w' \<subseteq> insert (obj_key (TypeName T) o1) (live env w)"
proof (cases sk)
  case True
  obtain a e1 where r: "RetryOnConflict env 3 (create_fast_fn env T)
      \<lparr>at_first = True, at_obj = o1, at_res = None, at_world = w\<rparr> = (a, e1)" by fastforce
  have "w' = at_world a"
    using app True r by (auto simp: internalApply_def Let_def split: option.splits)
  then show ?thesis using create_fast_live [OF ok r] by simp
next
  case False
  let ?t = "TypeName T"
  obtain got w1 where g: "exec env (Get (obj_key ?t o1)) w = (got, w1)" by fastforce
  have l1: "live env w1 = live env w" using exec_live [OF g] by simp
  obtain y w2 where c: "exec env (Create_req ?t o1) w1 = (y, w2)" by fastforce
  have l2: "live env w2 \<subseteq> insert (obj_key ?t o1) (live env w)"
    using exec_live [OF c] live_step_own(1) [where env = env and L = "live env w1" and t = ?t and ?o1.0 = o1] l1 by simp
  have st: "live env w4 \<subseteq> insert (obj_key ?t o1) (live env w)"
    if "updateStatus env T (o3\<lparr>o_resourceVersion := v\<rparr>) w3 = (o4, e', w4)"
      "obj_key ?t o3 = obj_key ?t o1" "live env w3 \<subseteq> insert (obj_key ?t o1) (live env w)"
    for o3 v w3 o4 e' w4
    using updateStatus_live [OF ok that(1)] that(2,3) by auto
  have up: "obj_key ?t o3 = obj_key ?t o1 \<and> live env w3 \<subseteq> insert (obj_key ?t o1) (live env w)"
    if "update env T (o1\<lparr>o_resourceVersion := v\<rparr>) w1 = (o3, r, e', w3)" for v o3 r e' w3
    using update_live [OF ok that] l1 by simp
  show ?thesis
  proof (cases "case got of Inl e \<Rightarrow> IsNotFound env e | Inr _ \<Rightarrow> False")
    case True
    then show ?thesis
      using app False g c l1 l2 st [where ?o3.0 = o1]
      by (auto simp: internalApply_def Let_def split: sum.splits if_splits prod.splits option.splits)
  next
    case nf: False
    define rv where "rv = (case got of Inl e \<Rightarrow> [] | Inr res \<Rightarrow> o_resourceVersion res)"
    obtain o3 r e1 w3 where u: "update env T (o1\<lparr>o_resourceVersion := rv\<rparr>) w1 = (o3, r, e1, w3)"
      by (metis prod_cases4)
    note u' = up [OF u]
    show ?thesis
      using app False g nf u u' st [where ?o3.0 = o3]
      by (auto simp: internalApply_def Let_def rv_def [symmetric]
          split: if_splits prod.splits option.splits)
  qed
qed

lemma Apply_live:
  "retry_documented env \<Longrightarrow> Apply env T o1 w = (o2, e, w') \<Longrightarrow>
     live env w' \<subseteq> insert (obj_key (TypeName T) o1) (live env w)"
  by (auto simp: Apply_def split: prod.splits dest: internalApply_live)

lemma Apply_key:
  assumes "retry_documented env" and "Apply env T ob w = (ob', e, w')"
  shows "obj_key (TypeName T) ob' = obj_key (TypeName T) ob"
proof -
  obtain res where app: "internalApply env T ob False w = (ob', res, e, w')" using assms(2) by (auto simp: Apply_def split: prod.splits)
  show ?thesis
    using app update_live [OF assms(1)] updateStatus_live [OF assms(1)]
    by (fastforce simp: internalApply_def Let_def split: if_splits prod.splits sum.splits option.splits)
qed

lemma ApplyRes_live:
  "retry_documented env \<Longrightarrow> ApplyRes env T o1 w = (r, e, w') \<Longrightarrow>
     live env w' \<subseteq> insert (obj_key (TypeName T) o1) (live env w)"
  by (auto simp: ApplyRes_def split: prod.splits dest: internalApply_live)


lemma patcher_live:
  assumes "patcher env k b subs w = (e, w')"
  shows "live env w' \<subseteq> insert k (live env w)"
proof -
  obtain r w1 where x: "exec env (Patch_req k b []) w = (r, w1)" by fastforce
  have "w' = w1" using assms x by (auto simp: patcher_def split: sum.splits)
  then show ?thesis
    using exec_live [OF x] live_step_own(3) [where k = k and b = b and s = "[]"] by simp
qed

lemma ApplyRealSSA_live:
  assumes "ApplyRealSSA env T o1 w = Returns (e, w')"
  shows "\<exists>r. resource_of env T o1 = Returns r \<and> live env w' \<subseteq> insert (obj_key r o1) (live env w)"
proof -
  obtain r where r: "resource_of env T o1 = Returns r"
    using assms by (auto simp: ApplyRealSSA_def obind_Returns_iff)
  define k where "k = (r, o_namespace o1, o_name o1)"
  have key: "obj_key r o1 = k" by (simp add: obj_key_def k_def)
  define gv where "gv = (case o_gvk o1 of (g, v, knd) \<Rightarrow> if v = [] then gv_of_type env (TypeName T) else (g, v))"
  have "live env w' \<subseteq> insert k (live env w)"
  proof (cases "encode env gv o1")
    case (Inl err)
    then have "w' = w"
      using assms r by (auto simp: ApplyRealSSA_def Let_def gv_def split: prod.splits)
    then show ?thesis by auto
  next
    case (Inr b)
    obtain e1 w1 where p1: "patcher env k b [] w = (e1, w1)" by fastforce
    obtain e2 w2 where p2: "patcher env k b [''status''] w1 = (e2, w2)" by fastforce
    have "w' = w1 \<or> w' = w2"
      using assms r Inr p1 p2
      by (auto simp: ApplyRealSSA_def Let_def gv_def k_def split: prod.splits option.splits if_splits)
    then show ?thesis using patcher_live [OF p1] patcher_live [OF p2] by auto
  qed
  then show ?thesis using r key by blast
qed

lemma Delete_live:
  assumes "Delete env T o1 w = Returns (e, w')"
  shows "\<exists>r. resource_of env T o1 = Returns r \<and> live env w' \<subseteq> live env w \<and>
     (e = None \<longrightarrow> obj_key r o1 \<notin> live env w')"
proof -
  obtain r where r: "resource_of env T o1 = Returns r"
    using assms by (auto simp: Delete_def obind_Returns_iff)
  obtain y w1 where x: "exec env (Delete_req (obj_key r o1) 0) w = (y, w1)" by fastforce
  show ?thesis
    using assms r x exec_live [OF x]
    by (auto simp: Delete_def obind_Returns_iff split: sum.splits if_splits)
qed

lemma Create_live:
  assumes "Create env T o1 w = Returns (b, e, w')"
  shows "\<exists>r. resource_of env T o1 = Returns r \<and>
     live env w' \<subseteq> (if b then insert (obj_key r o1) (live env w) else live env w)"
proof -
  obtain r where r: "resource_of env T o1 = Returns r"
    using assms by (auto simp: Create_def obind_Returns_iff)
  obtain y w1 where x: "exec env (Create_req r o1) w = (y, w1)" by fastforce
  show ?thesis
    using assms r x exec_live [OF x]
    by (auto simp: Create_def obind_Returns_iff split: sum.splits if_splits)
qed

lemma typed_resource [simp]: "resource_of env (Concrete t) o1 = Returns t"
  by (simp add: resource_of_def)

lemma typed_SSA_returns: "\<exists>e w'. ApplyRealSSA env (Concrete t) o1 w = Returns (e, w')"
  by (auto simp: ApplyRealSSA_def Let_def obind_Returns_iff
      split: sum.splits prod.splits option.splits)

lemma typed_Delete_returns: "\<exists>e w'. Delete env (Concrete t) o1 w = Returns (e, w')"
  by (auto simp: Delete_def obind_Returns_iff split: sum.splits prod.splits)

section \<open>Apply is an upsert\<close>

text \<open>
  The documented behaviour of the API server towards one client, seen through \<open>view\<close>: the
  objects it stores. A Create of a new object stores it, an Update whose resource version is
  current (or empty) replaces it, both with a non-empty version of the server's choice.
\<close>

definition same_content :: "kobj \<Rightarrow> kobj \<Rightarrow> bool" where
  "same_content a b \<longleftrightarrow> a\<lparr>o_resourceVersion := []\<rparr> = b\<lparr>o_resourceVersion := []\<rparr>"

definition stores_documented :: "'s kenv \<Rightarrow> ('s \<Rightarrow> key \<Rightarrow> kobj option) \<Rightarrow> bool" where
  "stores_documented env view \<longleftrightarrow>
     (\<forall>k s. case srv env (Get k) s of
        (Inl e, s') \<Rightarrow> view s k = None \<and> IsNotFound env e \<and> view s' = view s
      | (Inr b, s') \<Rightarrow> view s k = Some b \<and> view s' = view s) \<and>
     (\<forall>t a s. view s (obj_key t a) = None \<longrightarrow>
        (\<exists>b s'. srv env (Create_req t a) s = (Inr b, s') \<and> same_content a b \<and>
           view s' = (view s)(obj_key t a \<mapsto> b))) \<and>
     (\<forall>t a b s. view s (obj_key t a) = Some b \<longrightarrow> o_resourceVersion a = o_resourceVersion b \<longrightarrow>
        (\<exists>c s'. srv env (Update_req t a) s = (Inr c, s') \<and> same_content a c \<and>
           view s' = (view s)(obj_key t a \<mapsto> c)))"

lemma same_content_version [simp]:
  "same_content (a\<lparr>o_resourceVersion := v\<rparr>) b \<longleftrightarrow> same_content a b"
  by (simp add: same_content_def)

lemma exec_Get_documented:
  assumes "stores_documented env view" and "exec env (Get k) w = (r, w')"
  shows "view (srv_state w') = view (srv_state w) \<and>
    (case r of Inl e \<Rightarrow> view (srv_state w) k = None \<and> IsNotFound env e
     | Inr b \<Rightarrow> view (srv_state w) k = Some b)"
proof -
  obtain y s' where "srv env (Get k) (srv_state w) = (y, s')" by fastforce
  moreover have "case srv env (Get k) (srv_state w) of
        (Inl e, s') \<Rightarrow> view (srv_state w) k = None \<and> IsNotFound env e \<and> view s' = view (srv_state w)
      | (Inr b, s') \<Rightarrow> view (srv_state w) k = Some b \<and> view s' = view (srv_state w)"
    by (rule assms(1) [unfolded stores_documented_def, THEN conjunct1, THEN spec, THEN spec])
  ultimately show ?thesis
    using assms(2) by (cases y) (auto simp: exec_def Let_def)
qed

lemma Apply_stores:
  assumes doc: "stores_documented env view" and retry: "retry_documented env"
    and nostatus: "o_status o1 = NoStatusField"
    and app: "Apply env T o1 w = (o2, e, w')"
  shows "e = None \<and> (\<exists>b. same_content o1 b \<and>
    view (srv_state w') = (view (srv_state w))(obj_key (TypeName T) o1 \<mapsto> b))"
proof -
  let ?t = "TypeName T"
  let ?k = "obj_key ?t o1"
  obtain got w1 where g: "exec env (Get ?k) w = (got, w1)" by fastforce
  note gd = exec_Get_documented [OF doc g]
  have ns: "\<not> hasStatus env (o1\<lparr>o_resourceVersion := v\<rparr>)" for v
    using nostatus by (simp add: hasStatus_def hasStatusInternal_def)
  show ?thesis
  proof (cases got)
    case (Inl err)
    then have "view (srv_state w1) ?k = None" "IsNotFound env err" using gd by auto
    moreover from this obtain b s' where c: "srv env (Create_req ?t o1) (srv_state w1) = (Inr b, s')"
      "same_content o1 b" "view s' = (view (srv_state w1))(?k \<mapsto> b)"
      using doc unfolding stores_documented_def by blast
    ultimately show ?thesis
      using app g gd Inl ns [of "o_resourceVersion b"]
      by (auto simp: Apply_def internalApply_def exec_def Let_def)
  next
    case (Inr cur)
    define o3 where "o3 = o1\<lparr>o_resourceVersion := o_resourceVersion cur\<rparr>"
    have "view (srv_state w1) (obj_key ?t o3) = Some cur" using gd Inr by (simp add: o3_def)
    moreover have "o_resourceVersion o3 = o_resourceVersion cur" by (simp add: o3_def)
    ultimately obtain c s' where u: "srv env (Update_req ?t o3) (srv_state w1) = (Inr c, s')"
      "same_content o3 c" "view s' = (view (srv_state w1))(obj_key ?t o3 \<mapsto> c)"
      using doc unfolding stores_documented_def by blast
    define w2 where "w2 = snd (exec env (Update_req ?t o3) w1)"
    have x: "exec env (Update_req ?t o3) w1 = (Inr c, w2)" and s2: "srv_state w2 = s'"
      using u(1) by (auto simp: w2_def exec_def Let_def)
    have "update env T o3 w1 = (o3, Some c, None, w2)"
      using retry x
      by (simp add: update_def retry_documented_def update_fn_def refresh_version_def
          numeral_3_eq_3)
    then show ?thesis
      using app g gd Inr u s2 ns
      by (auto simp: Apply_def internalApply_def Let_def o3_def hasStatus_def)
  qed
qed

end
