(* ===== verification/Kube_Memory.thy ===== *)
theory Kube_Memory
  imports Kube
begin

text \<open>
  An in-memory API server: the instance of the Kubernetes environment on which the development is
  evaluated. It meets every documented behaviour the other theories take as a hypothesis.
\<close>

section \<open>The server\<close>

type_synonym store = "key \<rightharpoonup> kobj"

definition not_found :: gerror where
  "not_found = ErrStatus ''NotFound'' ''not found''"

text \<open>Resource versions count up from the version of the object that is replaced.\<close>

definition next_version :: "kobj \<Rightarrow> kobj" where
  "next_version ob = ob\<lparr>o_resourceVersion := o_resourceVersion ob @ ''1''\<rparr>"

fun memory_srv :: "request \<Rightarrow> store \<Rightarrow> (gerror + kobj) \<times> store" where
  "memory_srv (Get k) s = ((case s k of None \<Rightarrow> Inl not_found | Some b \<Rightarrow> Inr b), s)"
| "memory_srv (Create_req t a) s =
     (case s (obj_key t a) of
        None \<Rightarrow> (Inr (next_version a), s(obj_key t a \<mapsto> next_version a))
      | Some b \<Rightarrow> (Inl (ErrStatus ''AlreadyExists'' ''already exists''), s))"
| "memory_srv (Update_req t a) s =
     (case s (obj_key t a) of
        None \<Rightarrow> (Inl not_found, s)
      | Some b \<Rightarrow>
          (if o_resourceVersion a = o_resourceVersion b \<or> o_resourceVersion a = []
           then (Inr (next_version a), s(obj_key t a \<mapsto> next_version a))
           else (Inl (ErrStatus ''Conflict'' ''the object has been modified''), s)))"
| "memory_srv (UpdateStatus_req t a) s =
     (case s (obj_key t a) of
        None \<Rightarrow> (Inl not_found, s)
      | Some b \<Rightarrow> (Inr b, s(obj_key t a \<mapsto> b\<lparr>o_status := o_status a\<rparr>)))"
| "memory_srv (Patch_req k b sub) s =
     (let ob = (case k of (r, ns, n) \<Rightarrow> (new_object r (RawSpec b))\<lparr>o_namespace := ns, o_name := n\<rparr>)
      in (Inr ob, s(k \<mapsto> ob)))"
| "memory_srv (Delete_req k g) s =
     (case s k of None \<Rightarrow> (Inl not_found, s) | Some b \<Rightarrow> (Inr b, s(k := None)))"

text \<open>\<open>apierrors.ReasonForError\<close>: the reason of the first API status that \<open>errors.As\<close> finds.\<close>

fun reason_for :: "gerror \<Rightarrow> string" where
  "reason_for (ErrStatus r m) = r"
| "reason_for (ErrW p e) = reason_for e"
| "reason_for e = []"

definition memory_env :: "store kenv" where
  "memory_env =
     \<lparr>srv = memory_srv,
      IsNotFound = (\<lambda>e. reason_for e = ''NotFound''), IsAlreadyExists = (\<lambda>e. reason_for e = ''AlreadyExists''),
      IsForbidden = (\<lambda>e. reason_for e = ''Forbidden''), IsConflict = (\<lambda>e. reason_for e = ''Conflict''),
      RetryOnConflict = (\<lambda>n f a. retry_ref (\<lambda>e. reason_for e = ''Conflict'') n f a),
      encode = (\<lambda>gv ob. Inr (o_name ob)), gv_of_type = (\<lambda>t. ('''', ''v1'')),
      to_gvr = (\<lambda>(g, v, knd). Some knd), is_fake = False,
      kruntime = \<lparr>ctx_done = \<lambda>w. False, ctx_sleep = \<lambda>d w. w\<lparr>now := now w + d\<rparr>\<rparr>\<rparr>"

definition memory_world :: "store world" where
  "memory_world = \<lparr>srv_state = Map.empty, streams = [], log = [], nextIp = initialIp,
     rnd = \<lparr>tape = (\<lambda>n. n), pos = 0\<rparr>, now = 0\<rparr>"

section \<open>It behaves as documented\<close>

lemma memory_retry: "retry_documented memory_env"
  by (simp add: retry_documented_def memory_env_def)

lemma memory_errors: "errors_documented memory_env"
  by (simp add: errors_documented_def memory_env_def)

lemma same_content_next: "same_content a (next_version a)"
  by (simp add: same_content_def next_version_def)

lemma memory_stores: "stores_documented memory_env (\<lambda>s. s)"
  by (auto simp: stores_documented_def memory_env_def not_found_def same_content_next split: option.splits)

section \<open>A schedule\<close>

text \<open>Goroutines that finish before the next one starts: possible with and without a limit.\<close>

definition one_by_one :: "nat \<Rightarrow> par_event list" where
  "one_by_one n = concat (map (\<lambda>i. [Launch, Exec i]) [0..<n])"

lemma one_by_one_possible:
  assumes "case lim of None \<Rightarrow> True | Some k \<Rightarrow> 0 < k"
  shows "possible lim n 0 [] (one_by_one n)"
proof -
  have "possible lim n (n - k) (rev [0..<n - k]) (concat (map (\<lambda>i. [Launch, Exec i]) [n - k..<n]))" if "k \<le> n" for k
    using that
  proof (induction k)
    case (Suc k)
    then have "[n - Suc k..<n] = (n - Suc k) # [n - k..<n]" and "Suc (n - Suc k) = n - k"
      by (simp_all add: upt_conv_Cons Suc_diff_Suc)
    moreover have "rev [0..<n - k] = (n - Suc k) # rev [0..<n - Suc k]"
      using Suc.prems by (metis Suc_diff_Suc Suc_le_eq rev.simps(2) rev_append rev_rev_ident upt_Suc_append zero_le append_Cons append_Nil rev_swap)
    ultimately show ?case using Suc assms by (auto split: option.splits)
  qed simp
  from this [of n] show ?thesis by (simp add: one_by_one_def)
qed

lemma one_by_one_schedules:
  "RunParallel_possible n (one_by_one n)" "CleanupParallel_possible n (one_by_one n)"
  by (simp_all add: RunParallel_possible_def CleanupParallel_possible_def one_by_one_possible)

end
