(* ===== verification/Kube_Laws.thy ===== *)
theory Kube_Laws
  imports Kube_Memory
begin

text \<open>
  What the Kubernetes client promises: Apply is an upsert, updates retry conflicts a bounded number of
  times with fresh versions, the fast path does not retry, and Create and Delete are idempotent.
\<close>

section \<open>The requests of an operation\<close>

definition is_update :: "request \<times> gerror option \<Rightarrow> bool" where
  "is_update r \<longleftrightarrow> (case fst r of Update_req t a \<Rightarrow> True | _ \<Rightarrow> False)"

definition is_get :: "request \<times> gerror option \<Rightarrow> bool" where
  "is_get r \<longleftrightarrow> (case fst r of Get k \<Rightarrow> True | _ \<Rightarrow> False)"

definition is_create :: "request \<times> gerror option \<Rightarrow> bool" where
  "is_create r \<longleftrightarrow> (case fst r of Create_req t a \<Rightarrow> True | _ \<Rightarrow> False)"

text \<open>One run of the update closure: a Get unless it is the first, then at most one Update.\<close>

lemma update_fn_log:
  assumes "update_fn env T a = (a', e)"
  shows "\<exists>rs. log (at_world a') = log (at_world a) @ rs \<and> length (filter is_update rs) \<le> 1 \<and>
    length (filter is_get rs) = (if at_first a then 0 else 1) \<and> length rs \<le> (if at_first a then 1 else 2) \<and> \<not> at_first a'"
proof -
  obtain a1 e1 where r: "refresh_version env T a = (a1, e1)" by fastforce
  have "\<exists>gs. log (at_world a1) = log (at_world a) @ gs \<and> length (filter is_update gs) = 0 \<and>
      length (filter is_get gs) = (if at_first a then 0 else 1) \<and> length gs = (if at_first a then 0 else 1) \<and> \<not> at_first a1"
    using r by (auto simp: refresh_version_def is_update_def is_get_def split: if_splits prod.splits sum.splits dest!: exec_log)
  then obtain gs where gs: "log (at_world a1) = log (at_world a) @ gs" "length (filter is_update gs) = 0"
    "length (filter is_get gs) = (if at_first a then 0 else 1)" "length gs = (if at_first a then 0 else 1)" "\<not> at_first a1"
    by blast
  show ?thesis
  proof (cases e1)
    case (Some err)
    then show ?thesis using assms r gs by (intro exI [of _ gs]) (auto simp: update_fn_def)
  next
    case None
    obtain y w' where x: "exec env (Update_req (TypeName T) (at_obj a1)) (at_world a1) = (y, w')" by fastforce
    have a': "at_world a' = w' \<and> at_first a' = at_first a1"
      using assms r None x by (auto simp: update_fn_def split: sum.splits)
    show ?thesis
      using gs a' exec_log [OF x]
      by (intro exI [of _ "gs @ [(Update_req (TypeName T) (at_obj a1), reply_err y)]"]) (simp add: is_update_def is_get_def)
  qed
qed

lemma retry_update_log:
  "retry_ref isc n (update_fn env T) a = (a', e) \<Longrightarrow>
    \<exists>rs. log (at_world a') = log (at_world a) @ rs \<and> length (filter is_update rs) \<le> n \<and> length rs \<le> 2 * n"
proof (induction n arbitrary: a)
  case (Suc n)
  obtain a1 e1 where f: "update_fn env T a = (a1, e1)" by fastforce
  obtain r1 where r1: "log (at_world a1) = log (at_world a) @ r1" "length (filter is_update r1) \<le> 1" "length r1 \<le> 2"
    using update_fn_log [OF f] by (auto split: if_splits)
  consider "a' = a1" | "retry_ref isc n (update_fn env T) a1 = (a', e)"
    using Suc.prems f by (auto split: option.splits if_splits)
  then show ?case
  proof cases
    case 1
    then show ?thesis using r1 by (intro exI [of _ r1]) auto
  next
    case 2
    then obtain r2 where "log (at_world a') = log (at_world a1) @ r2" "length (filter is_update r2) \<le> n" "length r2 \<le> 2 * n"
      using Suc.IH by blast
    then show ?thesis using r1 by (intro exI [of _ "r1 @ r2"]) auto
  qed
qed simp

section \<open>Properties\<close>


definition sample_sa :: kobj where
  "sample_sa = (new_object ''ServiceAccount'' ServiceAccountSpec)\<lparr>o_name := ''default'', o_namespace := ''ns''\<rparr>"


text \<open>
  C13: A conflicting update is retried a bounded number of times: whatever the server answers, one call
  of update sends at most three Updates and, with the reads before the retries, at most six requests.
\<close>

theorem update_bounded:
  assumes "retry_documented env"
  shows "\<exists>rs. log (snd (snd (snd (update env T ob w)))) = log w @ rs \<and> length (filter is_update rs) \<le> 3 \<and> length rs \<le> 6"
proof -
  let ?a0 = "\<lparr>at_first = True, at_obj = ob, at_res = None, at_world = w\<rparr>"
  obtain a e where r: "retry_ref (IsConflict env) 3 (update_fn env T) ?a0 = (a, e)" by fastforce
  then have "snd (snd (snd (update env T ob w))) = at_world a"
    using assms by (simp add: update_def retry_documented_def)
  then show ?thesis using retry_update_log [OF r] by auto
qed

lemma update_bounded_witness:
  "\<exists>rs. log (snd (snd (snd (update memory_env (Concrete ''ServiceAccount'') sample_sa memory_world)))) = log memory_world @ rs \<and>
     length (filter is_update rs) \<le> 3 \<and> length rs \<le> 6"
  by (rule update_bounded [OF memory_retry])

text \<open>
  The fast path of Apply sends one Create and never retries: its closure hides the server's answer
  from the conflict test, so a conflict is reported to the caller like any other error.
\<close>

theorem ApplyFast_single_attempt:
  assumes "retry_documented env" and "errors_documented env"
  shows "\<exists>rs. log (snd (snd (ApplyFast env T ob w))) = log w @ rs \<and> length rs \<le> 2 \<and> length (filter is_create rs) = 1"
proof -
  let ?a0 = "\<lparr>at_first = True, at_obj = ob, at_res = None, at_world = w\<rparr>"
  obtain a e where f: "create_fast_fn env T ?a0 = (a, e)" by fastforce
  have noc: "e = Some err \<Longrightarrow> \<not> IsConflict env err" for err
    using f assms(2) by (auto simp: create_fast_fn_def errors_documented_def split: prod.splits sum.splits if_splits)
  have "RetryOnConflict env 3 (create_fast_fn env T) ?a0 = (a, e)"
    using assms(1) f noc by (auto simp: retry_documented_def numeral_3_eq_3 split: option.splits)
  then have w: "snd (snd (ApplyFast env T ob w)) = at_world a"
    by (auto simp: ApplyFast_def internalApply_def Let_def split: option.splits)
  obtain y w1 where c: "exec env (Create_req (TypeName T) ob) w = (y, w1)" by fastforce
  obtain z w2 where u: "exec env (UpdateStatus_req (TypeName T) ob) w1 = (z, w2)" by fastforce
  have "at_world a = w1 \<or> at_world a = w2"
    using f c u by (auto simp: create_fast_fn_def split: sum.splits if_splits)
  then show ?thesis
    using exec_log [OF c] exec_log [OF u] w by (auto simp: is_create_def)
qed

lemma ApplyFast_single_attempt_witness:
  "\<exists>rs. log (snd (snd (ApplyFast memory_env (Concrete ''ServiceAccount'') sample_sa memory_world))) = log memory_world @ rs \<and>
     length rs \<le> 2 \<and> length (filter is_create rs) = 1"
  by (rule ApplyFast_single_attempt [OF memory_retry memory_errors])

text \<open>
  C19: Server-side apply sends its status as an ordinary second patch: when an object with a status is
  applied without an error, the request log grows by two identical patches, neither of which names the
  status subresource.
\<close>

theorem ApplyRealSSA_two_patches:
  assumes "ApplyRealSSA env T ob w = Returns (None, w')" and "hasStatus env ob"
  shows "\<exists>r b. log w' = log w @ [(Patch_req (obj_key r ob) b [], None), (Patch_req (obj_key r ob) b [], None)]"
proof -
  obtain r where r: "resource_of env T ob = Returns r" using assms(1) by (auto simp: ApplyRealSSA_def obind_Returns_iff)
  define gv where "gv = (case o_gvk ob of (g, v, knd) \<Rightarrow> if v = [] then gv_of_type env (TypeName T) else (g, v))"
  define k where "k = obj_key r ob"
  obtain b where b: "encode env gv ob = Inr b"
    using assms(1) r by (cases "encode env gv ob") (auto simp: ApplyRealSSA_def gv_def Let_def split: prod.splits)
  obtain e1 w1 where p1: "patcher env k b [] w = (e1, w1)" by fastforce
  obtain e2 w2 where p2: "patcher env k b [''status''] w1 = (e2, w2)" by fastforce
  have "e1 = None \<and> e2 = None \<and> w' = w2"
    using assms r b p1 p2
    by (auto simp: ApplyRealSSA_def gv_def k_def obj_key_def Let_def split: prod.splits option.splits)
  then have "log w1 = log w @ [(Patch_req k b [], None)]" "log w' = log w1 @ [(Patch_req k b [], None)]"
    using p1 p2 by (auto simp: patcher_def split: prod.splits sum.splits dest!: exec_log)
  then show ?thesis unfolding k_def by auto
qed

definition sample_ns :: kobj where
  "sample_ns = (new_object ''Namespace'' NamespaceSpec)\<lparr>o_name := ''ns'', o_status := Status (NamespaceStatus ''Active'')\<rparr>"

lemma ApplyRealSSA_two_patches_witness:
  "\<exists>w' r b. ApplyRealSSA memory_env (Concrete ''Namespace'') sample_ns memory_world = Returns (None, w') \<and>
     log w' = [(Patch_req (obj_key r sample_ns) b [], None), (Patch_req (obj_key r sample_ns) b [], None)]"
proof -
  have st: "hasStatus memory_env sample_ns"
    by (simp add: hasStatus_def hasStatusInternal_def sample_ns_def memory_env_def)
  have "\<exists>w'. ApplyRealSSA memory_env (Concrete ''Namespace'') sample_ns memory_world = Returns (None, w')"
    using st by (simp add: ApplyRealSSA_def patcher_def exec_def memory_env_def Let_def split: prod.splits)
  then obtain w' where run: "ApplyRealSSA memory_env (Concrete ''Namespace'') sample_ns memory_world = Returns (None, w')" by blast
  show ?thesis using ApplyRealSSA_two_patches [OF run st] run by (auto simp: memory_world_def)
qed



end
