(* ===== verification/Security.thy ===== *)
theory Security
  imports Go_Prelude
begin

text \<open>
  Authentication towards the control plane (pkg/simulation/security): the choice of the auth type,
  the dial options it stands for (auth.go), and the process-wide cache of service account tokens
  (cert.go). Issuing a token is a request to the API server, the parameter \<open>issue\<close>.
\<close>

section \<open>Auth types (auth.go)\<close>

type_synonym AuthType = string

definition AuthTypeDefault :: AuthType where "AuthTypeDefault = []"
definition AuthTypePlaintext :: AuthType where "AuthTypePlaintext = ''plaintext''"
definition AuthTypeMTLS :: AuthType where "AuthTypeMTLS = ''mtls''"
definition AuthTypeJWT :: AuthType where "AuthTypeJWT = ''jwt''"
definition AuthTypePlaintextJWT :: AuthType where "AuthTypePlaintextJWT = ''plaintext-jwt''"

lemmas auth_type_defs [go_defs] = AuthTypeDefault_def AuthTypePlaintext_def AuthTypeMTLS_def
  AuthTypeJWT_def AuthTypePlaintextJWT_def

definition AuthTypeOptions :: "AuthType list" where
  "AuthTypeOptions = [AuthTypePlaintext, AuthTypeMTLS, AuthTypeJWT, AuthTypePlaintextJWT]"

text \<open>
  \<open>net.SplitHostPort\<close>: None for a malformed address (the code then sees two empty strings).
\<close>

definition after_last_colon :: "string \<Rightarrow> string" where
  "after_last_colon s = rev (takeWhile (\<lambda>c. c \<noteq> CHR '':'') (rev s))"

definition before_last_colon :: "string \<Rightarrow> string" where
  "before_last_colon s = rev (drop 1 (dropWhile (\<lambda>c. c \<noteq> CHR '':'') (rev s)))"

definition SplitHostPort :: "string \<Rightarrow> (string \<times> string) option" where
  "SplitHostPort s =
     (if CHR '':'' \<notin> set s then None
      else if take 1 s = ''['' then
        (let host = takeWhile (\<lambda>c. c \<noteq> CHR '']'') (drop 1 s);
             rest = drop (length host + 1) s
         in if take 2 rest = '']:'' \<and> CHR '':'' \<notin> set (drop 2 rest) \<and> CHR ''['' \<notin> set (drop 1 s) \<and>
               CHR '']'' \<notin> set (drop 1 rest)
            then Some (host, drop 2 rest) else None)
      else
        (let host = before_last_colon s
         in if CHR '':'' \<in> set host \<or> CHR ''['' \<in> set s \<or> CHR '']'' \<in> set s then None
            else Some (host, after_last_colon s)))"

definition DefaultAuthForAddress :: "string \<Rightarrow> AuthType" where
  "DefaultAuthForAddress addr =
     (let port = (case SplitHostPort addr of None \<Rightarrow> [] | Some (h, p) \<Rightarrow> p)
      in if port = ''15010'' then AuthTypePlaintext else AuthTypeJWT)"

text \<open>Dial options: the transport (with or without TLS), and credentials for every call.\<close>

datatype dialoption = InsecureTLS | InsecureTransport | TokenFor string string string

definition GrpcOptions :: "AuthType \<Rightarrow> string \<Rightarrow> string \<Rightarrow> dialoption list outcome" where
  "GrpcOptions a serviceAccount namespace =
     (if a = AuthTypePlaintext then Returns [InsecureTransport]
      else if a = AuthTypeMTLS then Panics (a @ '' is not currently implemented'')
      else if a = AuthTypeJWT then Returns [InsecureTLS, TokenFor ''istio-ca'' namespace serviceAccount]
      else if a = AuthTypePlaintextJWT then Returns [InsecureTransport, TokenFor ''istio-ca'' namespace serviceAccount]
      else Panics (''unknown auth type: '' @ a))"

section \<open>The token cache (cert.go)\<close>

definition san :: "string \<Rightarrow> string \<Rightarrow> string" where
  "san ns sa = ''spiffe://cluster.local/ns/'' @ ns @ ''/sa/'' @ sa"

record token =
  tk_token :: string
  tk_expiration :: int

text \<open>
  The cache, the clock in seconds, and the tokens issued so far: audience, namespace, account.
\<close>

record 's tokens =
  cachedTokens :: "string \<rightharpoonup> token"
  tk_now :: int
  tk_server :: 's
  tk_issued :: "((string \<times> string \<times> string) \<times> token) list"

definition GetServiceAccountToken ::
    "(string \<Rightarrow> string \<Rightarrow> string \<Rightarrow> 's \<Rightarrow> (gerror + token) \<times> 's) \<Rightarrow> string \<Rightarrow> string \<Rightarrow> string \<Rightarrow>
     's tokens \<Rightarrow> (gerror + string) \<times> 's tokens" where
  "GetServiceAccountToken issue aud ns sa w =
     (let key = san ns sa;
          hit = (case cachedTokens w key of None \<Rightarrow> None
                 | Some t \<Rightarrow> if tk_expiration t > tk_now w + 60 then Some t else None)
      in case hit of
           Some t \<Rightarrow> (Inr (tk_token t), w)
         | None \<Rightarrow>
             (case issue aud ns sa (tk_server w) of
                (Inl err, s1) \<Rightarrow> (Inl err, w\<lparr>tk_server := s1\<rparr>)
              | (Inr t, s1) \<Rightarrow>
                  (Inr (tk_token t),
                   w\<lparr>tk_server := s1, cachedTokens := (cachedTokens w)(key \<mapsto> t),
                     tk_issued := tk_issued w @ [((aud, ns, sa), t)]\<rparr>)))"

section \<open>Facts\<close>

lemma san_inject:
  "CHR ''/'' \<notin> set ns \<Longrightarrow> CHR ''/'' \<notin> set ns' \<Longrightarrow> san ns sa = san ns' sa' \<longleftrightarrow> ns = ns' \<and> sa = sa'"
proof -
  assume n: "CHR ''/'' \<notin> set ns" "CHR ''/'' \<notin> set ns'"
  have "san ns sa = san ns' sa' \<longleftrightarrow> ns @ CHR ''/'' # ''sa/'' @ sa = ns' @ CHR ''/'' # ''sa/'' @ sa'"
    by (simp add: san_def)
  then show "san ns sa = san ns' sa' \<longleftrightarrow> ns = ns' \<and> sa = sa'"
    using append_sep_cancel [OF n, of "''sa/'' @ sa" "''sa/'' @ sa'"] by auto
qed

text \<open>Every cached token was issued for the identity it is cached under.\<close>

definition cache_inv :: "'s tokens \<Rightarrow> bool" where
  "cache_inv w \<longleftrightarrow>
     (\<forall>key t. cachedTokens w key = Some t \<longrightarrow>
        (\<exists>aud ns sa. key = san ns sa \<and> CHR ''/'' \<notin> set ns \<and> ((aud, ns, sa), t) \<in> set (tk_issued w)))"

lemma cache_inv_get:
  assumes "cache_inv w" and "CHR ''/'' \<notin> set ns" and "GetServiceAccountToken issue aud ns sa w = (r, w')"
  shows "cache_inv w'"
proof -
  consider "w' = w" | s1 where "w' = w\<lparr>tk_server := s1\<rparr>"
    | t s1 where "w' = w\<lparr>tk_server := s1, cachedTokens := (cachedTokens w)(san ns sa \<mapsto> t),
        tk_issued := tk_issued w @ [((aud, ns, sa), t)]\<rparr>"
    using assms(3) by (auto simp: GetServiceAccountToken_def Let_def split: option.splits if_splits sum.splits prod.splits)
  then show ?thesis
  proof cases
    case 3
    have "\<exists>aud' ns' sa'. key = san ns' sa' \<and> CHR ''/'' \<notin> set ns' \<and> ((aud', ns', sa'), u) \<in> set (tk_issued w')"
      if "cachedTokens w' key = Some u" for key u
    proof (cases "key = san ns sa")
      case True
      then show ?thesis using that assms(2) 3 by auto
    next
      case False
      then have "cachedTokens w key = Some u" using that 3 by simp
      then obtain aud' ns' sa' where "key = san ns' sa'" "CHR ''/'' \<notin> set ns'" "((aud', ns', sa'), u) \<in> set (tk_issued w)"
        using assms(1) unfolding cache_inv_def by blast
      then show ?thesis using 3 by (intro exI [of _ aud'] exI [of _ ns'] exI [of _ sa']) simp
    qed
    then show ?thesis unfolding cache_inv_def by blast
  qed (use assms(1) in \<open>simp_all add: cache_inv_def\<close>)
qed

fun get_tokens ::
    "(string \<Rightarrow> string \<Rightarrow> string \<Rightarrow> 's \<Rightarrow> (gerror + token) \<times> 's) \<Rightarrow> (string \<times> string \<times> string \<times> int) list \<Rightarrow> 's tokens \<Rightarrow> 's tokens" where
  "get_tokens issue [] w = w"
| "get_tokens issue ((aud, ns, sa, wait) # rs) w =
     get_tokens issue rs ((snd (GetServiceAccountToken issue aud ns sa w))\<lparr>tk_now := tk_now w + wait\<rparr>)"

lemma cache_inv_now [simp]: "cache_inv (w\<lparr>tk_now := n\<rparr>) = cache_inv w"
  by (simp add: cache_inv_def)

lemma cache_inv_run:
  "cache_inv w \<Longrightarrow> \<forall>(aud, ns, sa, wait) \<in> set rs. CHR ''/'' \<notin> set ns \<Longrightarrow> cache_inv (get_tokens issue rs w)"
proof (induction rs arbitrary: w)
  case (Cons a rs)
  obtain aud ns sa wait where a: "a = (aud, ns, sa, wait)" by (cases a)
  obtain r w1 where r: "GetServiceAccountToken issue aud ns sa w = (r, w1)" by fastforce
  have "cache_inv w1" using cache_inv_get [OF Cons.prems(1) _ r] Cons.prems(2) a by simp
  then show ?case using Cons.IH [of "w1\<lparr>tk_now := tk_now w + wait\<rparr>"] Cons.prems(2) r a by simp
qed simp

definition no_tokens :: "'s \<Rightarrow> 's tokens" where
  "no_tokens s = \<lparr>cachedTokens = Map.empty, tk_now = 0, tk_server = s, tk_issued = []\<rparr>"

section \<open>Properties\<close>

text \<open>
  C11: After any sequence of token requests, a token that GetServiceAccountToken returns was issued for
  exactly the namespace and service account that ask for it, and when it comes from the cache it is
  valid for more than another minute. (Namespaces contain no slash.)
\<close>

theorem token_identity:
  assumes "\<forall>(aud, ns, sa, wait) \<in> set rs. CHR ''/'' \<notin> set ns" and "CHR ''/'' \<notin> set ns"
    and "GetServiceAccountToken issue aud ns sa (get_tokens issue rs (no_tokens s)) = (Inr tok, w')"
  shows "\<exists>aud' t. ((aud', ns, sa), t) \<in> set (tk_issued w') \<and> tk_token t = tok \<and>
    (tk_issued w' \<noteq> tk_issued (get_tokens issue rs (no_tokens s)) \<or> tk_expiration t > tk_now w' + 60)"
proof -
  let ?w = "get_tokens issue rs (no_tokens s)"
  have inv: "cache_inv ?w"
    by (rule cache_inv_run [OF _ assms(1)]) (simp add: cache_inv_def no_tokens_def)
  show ?thesis
  proof (cases "\<exists>t. cachedTokens ?w (san ns sa) = Some t \<and> tk_expiration t > tk_now ?w + 60")
    case True
    then obtain t where t: "cachedTokens ?w (san ns sa) = Some t" "tk_expiration t > tk_now ?w + 60" by blast
    then have r: "w' = ?w" "tok = tk_token t"
      using assms(3) by (simp_all add: GetServiceAccountToken_def Let_def)
    obtain aud' ns' sa' where o: "san ns sa = san ns' sa'" "CHR ''/'' \<notin> set ns'" "((aud', ns', sa'), t) \<in> set (tk_issued ?w)"
      using inv t(1) unfolding cache_inv_def by blast
    then have "ns' = ns" "sa' = sa" using san_inject [OF assms(2) o(2)] by auto
    then show ?thesis using o r t by blast
  next
    case False
    then have "(case cachedTokens ?w (san ns sa) of None \<Rightarrow> None
        | Some t \<Rightarrow> if tk_expiration t > tk_now ?w + 60 then Some t else None) = None"
      by (auto split: option.splits)
    then obtain t s1 where "issue aud ns sa (tk_server ?w) = (Inr t, s1)"
      "tok = tk_token t" "tk_issued w' = tk_issued ?w @ [((aud, ns, sa), t)]"
      using assms(3) by (auto simp: GetServiceAccountToken_def Let_def split: prod.splits sum.splits)
    then show ?thesis by auto
  qed
qed

definition numbered_issue :: "string \<Rightarrow> string \<Rightarrow> string \<Rightarrow> nat \<Rightarrow> (gerror + token) \<times> nat" where
  "numbered_issue aud ns sa n = (Inr \<lparr>tk_token = itoa n, tk_expiration = 3600\<rparr>, Suc n)"

lemma token_identity_witness:
  "\<exists>tok w' aud' t. GetServiceAccountToken numbered_issue ''istio-ca'' ''ns'' ''sa''
      (get_tokens numbered_issue [(''istio-ca'', ''ns'', ''sa'', 10)] (no_tokens 0)) = (Inr tok, w') \<and>
    ((aud', ''ns'', ''sa''), t) \<in> set (tk_issued w') \<and> tk_token t = tok"
proof -
  have "\<exists>tok w'. GetServiceAccountToken numbered_issue ''istio-ca'' ''ns'' ''sa''
      (get_tokens numbered_issue [(''istio-ca'', ''ns'', ''sa'', 10)] (no_tokens 0)) = (Inr tok, w')"
    by (simp add: GetServiceAccountToken_def no_tokens_def numbered_issue_def Let_def)
  then obtain tok w' where run: "GetServiceAccountToken numbered_issue ''istio-ca'' ''ns'' ''sa''
      (get_tokens numbered_issue [(''istio-ca'', ''ns'', ''sa'', 10)] (no_tokens 0)) = (Inr tok, w')" by blast
  show ?thesis using token_identity [OF _ _ run] run by auto
qed

text \<open>The audience is not part of the cache key: a token for one audience answers for another.\<close>

lemma token_wrong_audience:
  "tk_issued (get_tokens numbered_issue [(''istio-ca'', ''ns'', ''sa'', 10), (''other'', ''ns'', ''sa'', 10)] (no_tokens 0)) =
     [((''istio-ca'', ''ns'', ''sa''), \<lparr>tk_token = itoa 0, tk_expiration = 3600\<rparr>)]"
  by (simp add: GetServiceAccountToken_def no_tokens_def numbered_issue_def Let_def)

text \<open>
  The default auth type of a control plane address is plaintext exactly for port 15010; for every
  other address, malformed ones included, it is JWT, and its dial options always exist.
\<close>

theorem default_auth_total:
  "DefaultAuthForAddress addr = (if (\<exists>h. SplitHostPort addr = Some (h, ''15010'')) then AuthTypePlaintext else AuthTypeJWT) \<and>
   (\<exists>opts. GrpcOptions (DefaultAuthForAddress addr) sa ns = Returns opts)"
  by (auto simp: DefaultAuthForAddress_def GrpcOptions_def Let_def auth_type_defs split: option.splits)

lemma default_auth_total_witness:
  "DefaultAuthForAddress ''istiod:15010'' = AuthTypePlaintext \<and> DefaultAuthForAddress ''istiod:15012'' = AuthTypeJWT"
proof -
  have "SplitHostPort ''istiod:15010'' = Some (''istiod'', ''15010'')" "SplitHostPort ''istiod:15012'' = Some (''istiod'', ''15012'')"
    by (simp_all add: SplitHostPort_def before_last_colon_def after_last_colon_def)
  then show ?thesis using default_auth_total [of "''istiod:15010''"] default_auth_total [of "''istiod:15012''"] by simp
qed

end
