(* ===== verification/Xds_Simulation.thy ===== *)
theory Xds_Simulation
  imports Kube Security
begin

text \<open>
  One simulated XDS client (pkg/simulation/xds/xds.go). Run starts a goroutine that runs
  \<open>adsc.Connect\<close> under a context of its own; the goroutines are the list \<open>streams\<close> of the world,
  and \<open>x_cancel\<close> and \<open>x_done\<close> refer to them by index.
\<close>

section \<open>Arguments and state\<close>

text \<open>The fields of model.Args that reach a client.\<close>

record args =
  ag_PilotAddress :: string
  ag_Metadata :: smap
  ag_DeltaXDS :: bool
  ag_Auth :: AuthType

record xds_sim =
  x_Labels :: smap
  x_Metadata :: smap
  x_Namespace :: string
  x_ServiceAccount :: string
  x_Name :: string
  x_IP :: string
  x_Cluster :: string
  x_AppType :: AppType
  x_Delta :: bool
  x_cancel :: "nat option"
  x_done :: "nat option"

definition clone :: "smap \<Rightarrow> (string \<rightharpoonup> metaval)" where
  "clone m = (\<lambda>k. map_option MStr (m k))"

definition xds_meta :: "args \<Rightarrow> xds_sim \<Rightarrow> (string \<rightharpoonup> metaval)" where
  "xds_meta ag x =
     ((clone (ag_Metadata ag))
       (''ISTIO_VERSION'' \<mapsto> MStr ''1.24.0-pilot-load'',
        ''CLUSTER_ID'' \<mapsto> MStr (if x_Cluster x = [] then ''Kubernetes'' else x_Cluster x),
        ''LABELS'' \<mapsto> MMap (x_Labels x),
        ''NAMESPACE'' \<mapsto> MStr (x_Namespace x),
        ''SERVICE_ACCOUNT'' \<mapsto> MStr (x_ServiceAccount x),
        ''PROXY_CONFIG'' \<mapsto> MMap Map.empty))
     ++ clone (x_Metadata x)"

definition xds_config :: "args \<Rightarrow> xds_sim \<Rightarrow> Config" where
  "xds_config ag x =
     \<lparr>c_Namespace = x_Namespace x, c_Workload = x_Name x @ ''-'' @ x_IP x, c_Meta = xds_meta ag x,
      c_NodeType = (if x_AppType x = ''gateway'' then ''router'' else x_AppType x), c_IP = x_IP x,
      c_hasUpdates = False, c_Delta = x_Delta x\<rparr>"

definition xds_Run :: "args \<Rightarrow> (xds_sim, 's world) action" where
  "xds_Run ag x w =
     (let n = length (streams w)
      in Returns (x\<lparr>x_cancel := Some n, x_done := Some n\<rparr>,
                  w\<lparr>streams := streams w @ [\<lparr>sm_config = xds_config ag x, sm_cancelled = False\<rparr>]\<rparr>, None))"

text \<open>
  Cancelling ends the goroutine's Connect (\<open>Connect_stops\<close>), which closes the done channel; a
  receive from a nil channel, or from the channel of a client that still runs, does not return.
\<close>

definition cancel_stream :: "nat \<Rightarrow> 's world \<Rightarrow> 's world" where
  "cancel_stream i w = w\<lparr>streams := (streams w)[i := (streams w ! i)\<lparr>sm_cancelled := True\<rparr>]\<rparr>"

definition xds_Cleanup :: "(xds_sim, 's world) action" where
  "xds_Cleanup x w =
     (let w1 = (case x_cancel x of None \<Rightarrow> w | Some i \<Rightarrow> cancel_stream i w)
      in case x_done x of
           None \<Rightarrow> Blocks
         | Some i \<Rightarrow> if i < length (streams w1) \<and> sm_cancelled (streams w1 ! i) then Returns (x, w1, None) else Blocks)"

section \<open>Facts\<close>

lemma live_streams [simp]: "live env (w\<lparr>streams := ss\<rparr>) = live env w"
  by (simp add: live_def)

lemma live_cancel [simp]: "live env (cancel_stream i w) = live env w"
  by (simp add: cancel_stream_def)

lemma xds_Run_live: "xds_Run ag x w = Returns (x', w', e) \<Longrightarrow> live env w' = live env w"
  by (auto simp: xds_Run_def Let_def)

lemma xds_Cleanup_live: "xds_Cleanup x w = Returns (x', w', e) \<Longrightarrow> live env w' = live env w \<and> x' = x"
  by (auto simp: xds_Cleanup_def Let_def split: option.splits if_splits)

text \<open>A client that has been run holds the handles of its own goroutine.\<close>

definition started :: "nat \<Rightarrow> xds_sim \<Rightarrow> bool" where
  "started n x \<longleftrightarrow> (\<exists>i < n. x_cancel x = Some i \<and> x_done x = Some i)"

lemma xds_Run_started:
  "xds_Run ag x w = Returns (x', w', e) \<Longrightarrow> started (length (streams w')) x' \<and> e = None \<and>
     length (streams w') = Suc (length (streams w))"
  by (auto simp: xds_Run_def started_def Let_def)

lemma xds_Cleanup_returns:
  "started (length (streams w)) x \<Longrightarrow>
   \<exists>w'. xds_Cleanup x w = Returns (x, w', None) \<and> length (streams w') = length (streams w) \<and>
     (\<forall>i. x_done x = Some i \<longrightarrow> sm_cancelled (streams w' ! i)) \<and>
     (\<forall>j < length (streams w). sm_cancelled (streams w ! j) \<longrightarrow> sm_cancelled (streams w' ! j))"
  by (auto simp: xds_Cleanup_def started_def cancel_stream_def nth_list_update Let_def)

section \<open>Stopping clients\<close>

lemma started_mono: "started n x \<Longrightarrow> n \<le> m \<Longrightarrow> started m x"
  by (auto simp: started_def)

lemma xds_Cleanup_keeps:
  "xds_Cleanup x w = Returns (x', w', e) \<Longrightarrow> length (streams w') = length (streams w)"
  by (auto simp: xds_Cleanup_def cancel_stream_def Let_def split: option.splits if_splits)

text \<open>
  The clock that only lets time pass and never ends the context: the runtime of an uninterrupted
  ramp-up.
\<close>

definition steady :: "'s world runtime" where
  "steady = \<lparr>ctx_done = \<lambda>w. False, ctx_sleep = \<lambda>d w. w\<lparr>now := now w + d\<rparr>\<rparr>"

interpretation xds: stoppable_simulation "xds_Run ag" xds_Cleanup "\<lambda>x w. started (length (streams w)) x" steady
  for ag :: args
proof (unfold_locales, goal_cases)
  case (1 s w s' w' e)
  then show ?case using xds_Run_started by blast
next
  case (2 s w s' w' e t)
  then show ?case using xds_Run_started [OF 2(1)] started_mono by simp
next
  case (3 s w s' w' e t)
  then show ?case using xds_Cleanup_keeps by metis
next
  case (4 t w d)
  then show ?case by (simp add: steady_def)
next
  case (5 s w)
  then show ?case using xds_Cleanup_returns by blast
qed

text \<open>
  C14: A fleet of XDS clients started in sequence without being interrupted can always be cleaned up:
  no Cleanup of the fleet waits forever for a client's goroutine.
\<close>

theorem xds_fleet_stops:
  assumes "agg_Run steady tn (xds_Run ag) a w = Returns (a1, w1, None)"
  shows "\<exists>a2 w2 e. agg_Cleanup tn xds_Cleanup a1 w1 = Returns (a2, w2, e)"
  by (rule xds.agg_Run_then_Cleanup_returns [OF assms]) (simp_all add: IsDone_def steady_def)

definition idle_client :: xds_sim where
  "idle_client = \<lparr>x_Labels = Map.empty, x_Metadata = Map.empty, x_Namespace = ''ns'', x_ServiceAccount = ''sa'',
     x_Name = ''app'', x_IP = ''1.2.3.4'', x_Cluster = [], x_AppType = SidecarType, x_Delta = True,
     x_cancel = None, x_done = None\<rparr>"

definition small_args :: args where
  "small_args = \<lparr>ag_PilotAddress = ''pilot:15010'', ag_Metadata = Map.empty, ag_DeltaXDS = True,
     ag_Auth = AuthTypePlaintext\<rparr>"

definition small_world :: "unit world" where
  "small_world = \<lparr>srv_state = (), streams = [], log = [], nextIp = initialIp, rnd = \<lparr>tape = \<lambda>n. n, pos = 0\<rparr>, now = 0\<rparr>"

lemma xds_fleet_stops_witness:
  "\<exists>a1 w1 a2 w2 e. agg_Run steady (\<lambda>x. ''x'') (xds_Run small_args)
       \<lparr>Simulations = [idle_client, idle_client], Delay = 1\<rparr> small_world = Returns (a1, w1, None) \<and>
     agg_Cleanup (\<lambda>x. ''x'') xds_Cleanup a1 w1 = Returns (a2, w2, e)"
proof -
  have "\<exists>a1 w1. agg_Run steady (\<lambda>x. ''x'') (xds_Run small_args)
       \<lparr>Simulations = [idle_client, idle_client], Delay = 1\<rparr> small_world = Returns (a1, w1, None)"
    by (simp add: agg_Run_def IsDone_def ContextSleep_def steady_def xds_Run_def Let_def)
  then show ?thesis using xds_fleet_stops by blast
qed

text \<open>A client that was never started cannot be cleaned up: it waits on a nil channel.\<close>

lemma idle_client_blocks: "xds_Cleanup idle_client w = Blocks"
  by (simp add: xds_Cleanup_def idle_client_def)

end
