(* ===== verification/Config_Sims.thy ===== *)
theory Config_Sims
  imports Xds_Simulation Reader
begin

text \<open>
  The configuration simulations (pkg/simulation/config): one object applied by Run and deleted by
  Cleanup (Generic, KubeGateway, ServiceEntry, WorkloadEntry, WorkloadGroup), and the templated
  configuration, which renders a template to any number of objects. The template engine is the
  parameter \<open>templating\<close>.
\<close>

section \<open>Helpers\<close>

text \<open>\<open>return kube.Apply(...)\<close> and \<open>return kube.Delete(...)\<close> of a simulation \<open>s\<close>.\<close>

definition apply_obj :: "'s kenv \<Rightarrow> string \<Rightarrow> kobj \<Rightarrow> ('x, 's world) action" where
  "apply_obj env t ob s w = (case Apply env (Concrete t) ob w of (o1, e, w1) \<Rightarrow> Returns (s, w1, e))"

definition delete_obj :: "'s kenv \<Rightarrow> string \<Rightarrow> kobj \<Rightarrow> ('x, 's world) action" where
  "delete_obj env t ob s w = obind (Delete env (Concrete t) ob w) (\<lambda>(e, w1). Returns (s, w1, e))"

lemma apply_obj_live:
  "retry_documented env \<Longrightarrow> apply_obj env t ob s w = Returns (s', w', e) \<Longrightarrow>
     s' = s \<and> live env w' \<subseteq> insert (obj_key t ob) (live env w)"
  by (auto simp: apply_obj_def split: prod.splits dest!: Apply_live)

lemma delete_obj_live:
  "delete_obj env t ob s w = Returns (s', w', e) \<Longrightarrow>
     s' = s \<and> live env w' \<subseteq> live env w \<and> (e = None \<longrightarrow> obj_key t ob \<notin> live env w')"
  by (auto simp: delete_obj_def obind_Returns_iff dest!: Delete_live)

section \<open>Generic objects (generic.go)\<close>

record generic =
  gn_type :: string
  gn_Spec :: kobj

definition NewGeneric :: "string \<Rightarrow> kobj \<Rightarrow> generic" where
  "NewGeneric t s = \<lparr>gn_type = t, gn_Spec = s\<rparr>"

definition Generic_Run :: "'s kenv \<Rightarrow> (generic, 's world) action" where
  "Generic_Run env v w =
     (case Apply env (Concrete (gn_type v)) (gn_Spec v) w of (o1, e, w1) \<Rightarrow> Returns (v\<lparr>gn_Spec := o1\<rparr>, w1, e))"

definition Generic_Cleanup :: "'s kenv \<Rightarrow> (generic, 's world) action" where
  "Generic_Cleanup env v w = delete_obj env (gn_type v) (gn_Spec v) v w"

text \<open>Apply writes the version into the object of the simulation, whose key stays.\<close>

definition generic_key :: "generic \<Rightarrow> key" where
  "generic_key v = obj_key (gn_type v) (gn_Spec v)"

lemma Generic_Run_live:
  "retry_documented env \<Longrightarrow> Generic_Run env v w = Returns (v', w', e) \<Longrightarrow>
     generic_key v' = generic_key v \<and> live env w' \<subseteq> insert (generic_key v) (live env w)"
  using Apply_live [of env "Concrete (gn_type v)" "gn_Spec v" w] Apply_key [of env "Concrete (gn_type v)" "gn_Spec v" w]
  by (cases "Apply env (Concrete (gn_type v)) (gn_Spec v) w") (fastforce simp: Generic_Run_def generic_key_def)

lemma Generic_Cleanup_live:
  "Generic_Cleanup env v w = Returns (v', w', e) \<Longrightarrow>
     v' = v \<and> live env w' \<subseteq> live env w \<and> (e = None \<longrightarrow> generic_key v \<notin> live env w')"
  by (simp add: Generic_Cleanup_def generic_key_def) (drule delete_obj_live, simp)

section \<open>Gateways (kgateway.go)\<close>

record KubeGatewaySpec =
  kg_App :: string
  kg_Name :: string
  kg_Namespace :: string
  kg_Waypoint :: bool

definition WaypointGatewayClassName :: string where
  "WaypointGatewayClassName = ''istio-waypoint''"

definition getGateway :: "KubeGatewaySpec \<Rightarrow> kobj" where
  "getGateway v =
     (let (class, listeners) =
        (if kg_Waypoint v then
           (WaypointGatewayClassName,
            [\<lparr>gl_name = ''mesh'', gl_port = 15008, gl_protocol = ''HBONE'', gl_hostname = None,
              gl_allowedFrom = None, gl_tls = None\<rparr>])
         else
           (''istio'',
            [\<lparr>gl_name = ''http'', gl_port = 80, gl_protocol = ''HTTP'', gl_hostname = Some ''*.example.com'',
              gl_allowedFrom = Some ''All'', gl_tls = None\<rparr>,
             \<lparr>gl_name = ''https'', gl_port = 443, gl_protocol = ''HTTPS'', gl_hostname = Some ''*.example.com'',
              gl_allowedFrom = Some ''All'',
              gl_tls = Some (''Terminate'', [(kg_App v, kg_Namespace v)])\<rparr>]))
      in (new_object ''Gateway'' (GatewaySpec
            \<lparr>gw_addresses = [(''Hostname'', kg_App v @ ''.'' @ kg_Namespace v @ ''.svc.cluster.local'')],
             gw_className = class, gw_listeners = listeners\<rparr>))
           \<lparr>o_name := kg_App v, o_namespace := kg_Namespace v, o_status := ZeroStatus\<rparr>)"

definition KubeGateway_Run :: "'s kenv \<Rightarrow> (KubeGatewaySpec, 's world) action" where
  "KubeGateway_Run env v w = apply_obj env ''Gateway'' (getGateway v) v w"

definition KubeGateway_Cleanup :: "'s kenv \<Rightarrow> (KubeGatewaySpec, 's world) action" where
  "KubeGateway_Cleanup env v w = delete_obj env ''Gateway'' (getGateway v) v w"

section \<open>Service entries (serviceentry.go)\<close>

record ServiceEntrySpec =
  en_App :: string
  en_AppType :: AppType
  en_Namespace :: string

definition getServiceEntry :: "ServiceEntrySpec \<Rightarrow> kobj" where
  "getServiceEntry s =
     (let spec = \<lparr>se_hosts = [en_App s], se_location = ''MESH_INTERNAL'',
                  se_ports = [\<lparr>se_number = 80, se_name = ''http'', se_protocol = ''HTTP'', se_targetPort = 8080\<rparr>],
                  se_resolution = ''DNS'', se_workloadSelector = None\<rparr>;
          spec1 = (if en_AppType s = ExternalType then spec\<lparr>se_location := ''MESH_EXTERNAL''\<rparr>
                   else spec\<lparr>se_workloadSelector := Some [''app'' \<mapsto> en_App s]\<rparr>)
      in (new_object ''ServiceEntry'' (ServiceEntrySpec spec1))
           \<lparr>o_name := en_App s, o_namespace := en_Namespace s, o_status := ZeroStatus\<rparr>)"

definition ServiceEntry_Run :: "'s kenv \<Rightarrow> (ServiceEntrySpec, 's world) action" where
  "ServiceEntry_Run env v w = apply_obj env ''ServiceEntry'' (getServiceEntry v) v w"

definition ServiceEntry_Cleanup :: "'s kenv \<Rightarrow> (ServiceEntrySpec, 's world) action" where
  "ServiceEntry_Cleanup env v w = delete_obj env ''ServiceEntry'' (getServiceEntry v) v w"

section \<open>Workload entries and groups (workloadentry.go, workloadgroup.go)\<close>

record WorkloadEntrySpec =
  wl_App :: string
  wl_Namespace :: string
  wl_Weight :: nat

text \<open>Building the object draws a fresh address, also when it is only needed for its name.\<close>

definition getWorkloadEntry :: "WorkloadEntrySpec \<Rightarrow> 's world \<Rightarrow> kobj \<times> 's world" where
  "getWorkloadEntry s w =
     (let (ip, next1) = GetIP (nextIp w)
      in ((new_object ''WorkloadEntry'' (WorkloadEntrySpec
             \<lparr>we_address = ip, we_weight = wl_Weight s, we_ports = Map.empty, we_labels = [''app'' \<mapsto> wl_App s]\<rparr>))
            \<lparr>o_name := wl_App s, o_namespace := wl_Namespace s, o_status := ZeroStatus\<rparr>,
          w\<lparr>nextIp := next1\<rparr>))"

definition WorkloadEntry_Run :: "'s kenv \<Rightarrow> (WorkloadEntrySpec, 's world) action" where
  "WorkloadEntry_Run env v w = (let (ob, w1) = getWorkloadEntry v w in apply_obj env ''WorkloadEntry'' ob v w1)"

definition WorkloadEntry_Cleanup :: "'s kenv \<Rightarrow> (WorkloadEntrySpec, 's world) action" where
  "WorkloadEntry_Cleanup env v w = (let (ob, w1) = getWorkloadEntry v w in delete_obj env ''WorkloadEntry'' ob v w1)"

definition WorkloadEntry_Refresh :: "'s kenv \<Rightarrow> WorkloadEntrySpec \<Rightarrow> 's world \<Rightarrow>
    (WorkloadEntrySpec \<times> 's world \<times> string \<times> gerror option) outcome" where
  "WorkloadEntry_Refresh env v w =
     (let (weight, r1) = Intn 100 (rnd w);
          v1 = v\<lparr>wl_Weight := weight\<rparr>;
          text = wl_Namespace v1 @ ''/'' @ wl_App v1
      in obind (WorkloadEntry_Run env v1 (w\<lparr>rnd := r1\<rparr>)) (\<lambda>(v2, w2, e). Returns (v2, w2, text, e)))"

record WorkloadGroupSpec =
  wgr_App :: string
  wgr_Namespace :: string

definition getWorkloadGroup :: "WorkloadGroupSpec \<Rightarrow> kobj" where
  "getWorkloadGroup s =
     (new_object ''WorkloadGroup'' (WorkloadGroupSpec
        \<lparr>wg_metadataLabels = [''app'' \<mapsto> wgr_App s],
         wg_template = \<lparr>we_address = [], we_weight = 0, we_ports = [''http'' \<mapsto> 8080], we_labels = [''app'' \<mapsto> wgr_App s]\<rparr>\<rparr>))
       \<lparr>o_name := wgr_App s, o_namespace := wgr_Namespace s, o_status := ZeroStatus\<rparr>"

definition WorkloadGroup_Run :: "'s kenv \<Rightarrow> (WorkloadGroupSpec, 's world) action" where
  "WorkloadGroup_Run env v w = apply_obj env ''WorkloadGroup'' (getWorkloadGroup v) v w"

definition WorkloadGroup_Cleanup :: "'s kenv \<Rightarrow> (WorkloadGroupSpec, 's world) action" where
  "WorkloadGroup_Cleanup env v w = delete_obj env ''WorkloadGroup'' (getWorkloadGroup v) v w"

section \<open>Templated configuration (templated.go)\<close>

datatype cfgval = CBool bool | CInt int | CStr string | CRaw string

type_synonym config = "string \<rightharpoonup> cfgval"

text \<open>
  \<open>te_execute\<close> is \<open>template.Execute\<close>; it is taken to be a function of the template and the
  configuration (a template that calls a random function of sprig is not). A template is its text.
\<close>

record templating =
  te_execute :: "string \<Rightarrow> config \<Rightarrow> gerror + string"
  te_decoder :: decoder

record Templated =
  tp_Template :: string
  tp_Config :: config
  tp_Refresh :: "bool option"
  tp_Refreshable :: bool

definition setupConfig :: "config \<Rightarrow> rng \<Rightarrow> (config \<times> rng) outcome" where
  "setupConfig cfg r =
     (let (n, r1) = Intn 10000 r;
          cfg1 = cfg(''RandNumber'' \<mapsto> CInt (int n + 1))
      in case cfg1 ''Rand'' of
           None \<Rightarrow> Returns (cfg1(''Rand'' \<mapsto> CBool False), r1)
         | Some (CBool b) \<Rightarrow> Returns (cfg1(''Rand'' \<mapsto> CBool (\<not> b)), r1)
         | Some _ \<Rightarrow> Panics ''interface conversion'')"

definition getDefaultRefresh :: "templating \<Rightarrow> Templated \<Rightarrow> bool" where
  "getDefaultRefresh te v =
     (case te_execute te (tp_Template v) (tp_Config v) of
        Inl err \<Rightarrow> False
      | Inr b \<Rightarrow> (if str_contains b ''#refresh=false'' then False else str_contains b ''#refresh=true''))"

definition NewTemplated :: "templating \<Rightarrow> string \<Rightarrow> config \<Rightarrow> bool option \<Rightarrow> rng \<Rightarrow> (Templated \<times> rng) outcome" where
  "NewTemplated te template cfg refresh r =
     obind (setupConfig cfg r) (\<lambda>(cfg1, r1).
       let res = \<lparr>tp_Template = template, tp_Config = cfg1, tp_Refresh = refresh, tp_Refreshable = False\<rparr>
       in Returns (res\<lparr>tp_Refreshable := (case refresh of Some b \<Rightarrow> b | None \<Rightarrow> getDefaultRefresh te res)\<rparr>, r1))"

text \<open>The objects of a template, all moved to the namespace of its configuration.\<close>

definition getTemplated :: "templating \<Rightarrow> Templated \<Rightarrow> (gerror + kobj list) outcome" where
  "getTemplated te v =
     (case te_execute te (tp_Template v) (tp_Config v) of
        Inl err \<Rightarrow> Returns (Inl err)
      | Inr b \<Rightarrow>
          (case ParseYaml (te_decoder te) b of
             Inl err \<Rightarrow> Returns (Inl err)
           | Inr objs \<Rightarrow>
               (if objs = [] then Returns (Inr [])
                else (case tp_Config v ''Namespace'' of
                        Some (CStr ns) \<Rightarrow> Returns (Inr (map (o_namespace_update (\<lambda>_. ns)) objs))
                      | _ \<Rightarrow> Panics ''interface conversion''))))"

definition object_iface :: gotype where
  "object_iface = Interface ''controllers.Object''"

fun ssa_all :: "'s kenv \<Rightarrow> kobj list \<Rightarrow> 's world \<Rightarrow> (gerror option \<times> 's world) outcome" where
  "ssa_all env [] w = Returns (None, w)"
| "ssa_all env (ob # objs) w =
     obind (ApplyRealSSA env object_iface ob w) (\<lambda>(e, w1).
       case e of Some err \<Rightarrow> Returns (Some err, w1) | None \<Rightarrow> ssa_all env objs w1)"

fun delete_all :: "'s kenv \<Rightarrow> kobj list \<Rightarrow> 's world \<Rightarrow> (gerror option \<times> 's world) outcome" where
  "delete_all env [] w = Returns (None, w)"
| "delete_all env (ob # objs) w =
     obind (Delete env object_iface ob w) (\<lambda>(e, w1).
       case e of Some err \<Rightarrow> Returns (Some err, w1) | None \<Rightarrow> delete_all env objs w1)"

definition Templated_Run :: "templating \<Rightarrow> 's kenv \<Rightarrow> (Templated, 's world) action" where
  "Templated_Run te env v w =
     obind (getTemplated te v) (\<lambda>r.
       case r of
         Inl err \<Rightarrow> Returns (v, w, Some err)
       | Inr objs \<Rightarrow> obind (ssa_all env objs w) (\<lambda>(e, w1). Returns (v, w1, e)))"

definition Templated_Cleanup :: "templating \<Rightarrow> 's kenv \<Rightarrow> (Templated, 's world) action" where
  "Templated_Cleanup te env v w =
     obind (getTemplated te v) (\<lambda>r.
       case r of
         Inl err \<Rightarrow> Returns (v, w, Some err)
       | Inr objs \<Rightarrow> obind (delete_all env objs w) (\<lambda>(e, w1). Returns (v, w1, e)))"

definition refresh_name :: "kobj \<Rightarrow> string" where
  "refresh_name ob = snd (snd (o_gvk ob)) @ ''/'' @ o_namespace ob @ ''/'' @ o_name ob"

definition Templated_Refresh :: "templating \<Rightarrow> 's kenv \<Rightarrow> Templated \<Rightarrow> 's world \<Rightarrow>
    (Templated \<times> 's world \<times> string \<times> gerror option) outcome" where
  "Templated_Refresh te env v w =
     obind (setupConfig (tp_Config v) (rnd w)) (\<lambda>(cfg1, r1).
       let (n, r2) = Intn 10000 r1;
           v1 = v\<lparr>tp_Config := cfg1(''RandNumber'' \<mapsto> CInt (int n + 1))\<rparr>;
           w1 = w\<lparr>rnd := r2\<rparr>
       in obind (getTemplated te v1) (\<lambda>r.
            case r of
              Inl err \<Rightarrow> Returns (v1, w1, [], Some err)
            | Inr objs \<Rightarrow>
                obind (ssa_all env objs w1) (\<lambda>(e, w2).
                  case e of
                    Some err \<Rightarrow> Returns (v1, w2, [], Some err)
                  | None \<Rightarrow> Returns (v1, w2, join_with '','' (map refresh_name objs), None))))"

section \<open>What the simulations own\<close>

definition dyn_key :: "'s kenv \<Rightarrow> kobj \<Rightarrow> key option" where
  "dyn_key env ob = map_option (\<lambda>r. obj_key r ob) (to_gvr env (o_gvk ob))"

definition Templated_owned :: "templating \<Rightarrow> 's kenv \<Rightarrow> Templated \<Rightarrow> key set" where
  "Templated_owned te env v =
     (case getTemplated te v of Returns (Inr objs) \<Rightarrow> {k. \<exists>ob \<in> set objs. dyn_key env ob = Some k} | _ \<Rightarrow> {})"

lemma resource_of_iface: "resource_of env object_iface ob = Returns r \<Longrightarrow> dyn_key env ob = Some (obj_key r ob)"
  by (auto simp: resource_of_def object_iface_def dynamicClient_def dyn_key_def split: option.splits)

lemma ssa_all_live:
  "ssa_all env objs w = Returns (e, w') \<Longrightarrow> live env w' \<subseteq> live env w \<union> {k. \<exists>ob \<in> set objs. dyn_key env ob = Some k}"
proof (induction objs arbitrary: w)
  case (Cons ob objs)
  then obtain e1 w1 where a: "ApplyRealSSA env object_iface ob w = Returns (e1, w1)"
    by (auto simp: obind_Returns_iff)
  then obtain r where "resource_of env object_iface ob = Returns r" "live env w1 \<subseteq> insert (obj_key r ob) (live env w)"
    using ApplyRealSSA_live by blast
  then have 1: "live env w1 \<subseteq> live env w \<union> {k. dyn_key env ob = Some k}"
    using resource_of_iface by blast
  show ?case
  proof (cases e1)
    case None
    then have "ssa_all env objs w1 = Returns (e, w')" using Cons.prems a by simp
    then show ?thesis using Cons.IH 1 by fastforce
  next
    case (Some err)
    then show ?thesis using Cons.prems a 1 by auto
  qed
qed simp

lemma delete_all_live:
  "delete_all env objs w = Returns (e, w') \<Longrightarrow>
     live env w' \<subseteq> live env w \<and> (e = None \<longrightarrow> live env w' \<inter> {k. \<exists>ob \<in> set objs. dyn_key env ob = Some k} = {})"
proof (induction objs arbitrary: w)
  case (Cons ob objs)
  then obtain e1 w1 where a: "Delete env object_iface ob w = Returns (e1, w1)"
    by (auto simp: obind_Returns_iff)
  then obtain r where r: "resource_of env object_iface ob = Returns r" "live env w1 \<subseteq> live env w"
    "e1 = None \<longrightarrow> obj_key r ob \<notin> live env w1"
    using Delete_live by blast
  show ?case
  proof (cases e1)
    case None
    then have "delete_all env objs w1 = Returns (e, w')" using Cons.prems a by simp
    then show ?thesis using Cons.IH r resource_of_iface [OF r(1)] None by fastforce
  next
    case (Some err)
    then show ?thesis using Cons.prems a r by auto
  qed
qed simp

lemma Templated_Run_live:
  assumes "Templated_Run te env v w = Returns (v', w', e)"
  shows "v' = v \<and> live env w' \<subseteq> live env w \<union> Templated_owned te env v"
proof -
  obtain r where r: "getTemplated te v = Returns r" using assms by (auto simp: Templated_Run_def obind_Returns_iff)
  show ?thesis
  proof (cases r)
    case (Inl err)
    then show ?thesis using assms r by (auto simp: Templated_Run_def)
  next
    case (Inr objs)
    then have "ssa_all env objs w = Returns (e, w')" "v' = v"
      using assms r by (auto simp: Templated_Run_def obind_Returns_iff)
    then show ?thesis using ssa_all_live [of env objs w e w'] r Inr by (simp add: Templated_owned_def)
  qed
qed

lemma Templated_Cleanup_live:
  assumes "Templated_Cleanup te env v w = Returns (v', w', e)"
  shows "v' = v \<and> live env w' \<subseteq> live env w \<and> (e = None \<longrightarrow> live env w' \<inter> Templated_owned te env v = {})"
proof -
  obtain r where r: "getTemplated te v = Returns r" using assms by (auto simp: Templated_Cleanup_def obind_Returns_iff)
  show ?thesis
  proof (cases r)
    case (Inl err)
    then show ?thesis using assms r by (auto simp: Templated_Cleanup_def)
  next
    case (Inr objs)
    then have "delete_all env objs w = Returns (e, w')" "v' = v"
      using assms r by (auto simp: Templated_Cleanup_def obind_Returns_iff)
    then show ?thesis using delete_all_live [of env objs w e w'] r Inr by (simp add: Templated_owned_def)
  qed
qed

lemma getWorkloadEntry_key: "getWorkloadEntry v w = (ob, w1) \<Longrightarrow>
    obj_key t ob = (t, wl_Namespace v, wl_App v) \<and> live env w1 = live env w"
  by (auto simp: getWorkloadEntry_def obj_key_def live_def Let_def split: prod.splits)

end
