(* ===== verification/App_Sims.thy ===== *)
theory App_Sims
  imports Config_Sims
begin

text \<open>
  The parts of an application (pkg/simulation/app): pods (pod.go), services (service.go) and service
  accounts (serviceAccount.go).
\<close>

section \<open>Pods (pod.go)\<close>

record PodSpecArgs =
  pd_ServiceAccount :: string
  pd_Node :: string
  pd_App :: string
  pd_Namespace :: string
  pd_UID :: string
  pd_IP :: string
  pd_AppType :: AppType

record Pod =
  p_Spec :: PodSpecArgs
  p_created :: bool
  p_xds :: "xds_sim option"

definition NewPod :: "PodSpecArgs \<Rightarrow> 's world \<Rightarrow> Pod \<times> 's world" where
  "NewPod s w =
     (let (s1, w1) = (if pd_UID s = [] then (let (u, r1) = GenUID (rnd w) in (s\<lparr>pd_UID := u\<rparr>, w\<lparr>rnd := r1\<rparr>)) else (s, w));
          (s2, w2) = (if pd_IP s1 = [] then (let (ip, n1) = GetIP (nextIp w1) in (s1\<lparr>pd_IP := ip\<rparr>, w1\<lparr>nextIp := n1\<rparr>)) else (s1, w1))
      in (\<lparr>p_Spec = s2, p_created = False, p_xds = None\<rparr>, w2))"

definition Pod_Name :: "Pod \<Rightarrow> string" where
  "Pod_Name p = pd_App (p_Spec p) @ ''-'' @ pd_UID (p_Spec p)"

definition pod_labels :: "PodSpecArgs \<Rightarrow> smap" where
  "pod_labels s =
     (let labels = [''app'' \<mapsto> pd_App s, ''owner'' \<mapsto> ''pilot-load'', ''sidecar.istio.io/inject'' \<mapsto> ''false''];
          labels1 = (if pd_AppType s = SidecarType then labels(''sidecar.istio.io/inject'' \<mapsto> ''true'') else labels)
      in (if pd_AppType s = WaypointType then labels1(''gateway.istio.io/managed'' \<mapsto> ''istio.io-mesh-controller'')
          else labels1))"

definition getPod :: "Pod \<Rightarrow> kobj" where
  "getPod p =
     (let s = p_Spec p;
          annotations = [''prometheus.io/scrape'' \<mapsto> ''false''];
          annotations1 = (if pd_AppType s = AmbientType then annotations(''ambient.istio.io/redirection'' \<mapsto> ''enabled'')
                          else annotations)
      in (new_object ''Pod'' (PodSpec (empty_podspec
            \<lparr>ps_terminationGracePeriodSeconds := Some 0,
             ps_serviceAccountName := pd_ServiceAccount s,
             ps_containers := [\<lparr>c_name = ''app'', c_image = ''fake'', c_args = [], c_env = []\<rparr>],
             ps_nodeName := pd_Node s,
             ps_nodeSelector := [''pilot-load.istio.io/node'' \<mapsto> ''fake''],
             ps_tolerations := [\<lparr>tol_key = ''pilot-load.istio.io/node'', tol_operator = ''Exists'',
                                 tol_effect = ''NoSchedule''\<rparr>]\<rparr>)))
           \<lparr>o_name := Pod_Name p, o_namespace := pd_Namespace s, o_labels := pod_labels s,
            o_annotations := annotations1, o_status := ZeroStatus\<rparr>)"

definition Millisecond :: int where
  "Millisecond = 1000000"

text \<open>The first part of Run: up to \<open>n\<close> attempts to apply the pod, half a second apart.\<close>

fun apply_pod :: "'s kenv \<Rightarrow> kobj \<Rightarrow> nat \<Rightarrow> gerror option \<Rightarrow> 's world \<Rightarrow> (bool \<times> gerror option \<times> 's world) outcome" where
  "apply_pod env pod 0 terr w = Returns (False, terr, w)"
| "apply_pod env pod (Suc n) terr w =
     obind (ApplyRealSSA env (Concrete ''Pod'') pod w) (\<lambda>(e, w1).
       case e of
         Some err \<Rightarrow>
           apply_pod env pod n (Some (ErrV ''failed to apply pod: '' err))
             (ctx_sleep (kruntime env) (500 * Millisecond) w1)
       | None \<Rightarrow> Returns (True, terr, w1))"

definition pod_xds :: "args \<Rightarrow> Pod \<Rightarrow> xds_sim" where
  "pod_xds ag p =
     \<lparr>x_Labels = o_labels (getPod p), x_Metadata = Map.empty, x_Namespace = o_namespace (getPod p),
      x_ServiceAccount = [], x_Name = o_name (getPod p), x_IP = pd_IP (p_Spec p), x_Cluster = ''Kubernetes'',
      x_AppType = pd_AppType (p_Spec p), x_Delta = ag_DeltaXDS ag, x_cancel = None, x_done = None\<rparr>"

definition Pod_Run :: "args \<Rightarrow> 's kenv \<Rightarrow> (Pod, 's world) action" where
  "Pod_Run ag env p w =
     obind (apply_pod env (getPod p) 10 None w) (\<lambda>(ok, terr, w1).
       let p1 = (if ok then p\<lparr>p_created := True\<rparr> else p)
       in if \<not> p_created p1 then Returns (p1, w1, terr)
          else if HasProxy (pd_AppType (p_Spec p1)) then
            obind (GrpcOptions (ag_Auth ag) (pd_ServiceAccount (p_Spec p1)) (pd_Namespace (p_Spec p1))) (\<lambda>opts.
              obind (xds_Run ag (pod_xds ag p1) w1) (\<lambda>(x, w2, e).
                Returns (p1\<lparr>p_xds := Some x\<rparr>, w2, e)))
          else Returns (p1, w1, None))"

text \<open>\<open>p.xds.Cleanup\<close> on a nil client returns nil.\<close>

definition Pod_Cleanup :: "'s kenv \<Rightarrow> (Pod, 's world) action" where
  "Pod_Cleanup env p w =
     obind (if p_created p then Delete env (Concrete ''Pod'') (getPod p) w else Returns (None, w)) (\<lambda>(e, w1).
       case e of
         Some err \<Rightarrow> Returns (p, w1, Some err)
       | None \<Rightarrow>
           (if HasProxy (pd_AppType (p_Spec p)) then
              (case p_xds p of
                 None \<Rightarrow> Returns (p, w1, None)
               | Some x \<Rightarrow> obind (xds_Cleanup x w1) (\<lambda>(x1, w2, e2). Returns (p\<lparr>p_xds := Some x1\<rparr>, w2, e2)))
            else Returns (p, w1, None)))"

section \<open>Services (service.go)\<close>

record ServiceSpecArgs =
  sc_App :: string
  sc_Namespace :: string
  sc_Waypoint :: bool
  sc_Labels :: smap

definition getService :: "ServiceSpecArgs \<Rightarrow> kobj" where
  "getService p =
     (let ports = [\<lparr>sp_name = ''http'', sp_appProtocol = None, sp_port = 80, sp_targetPort = Some 80\<rparr>,
                   \<lparr>sp_name = ''https'', sp_appProtocol = None, sp_port = 443, sp_targetPort = Some 443\<rparr>];
          (lbls, ports1) =
            (if sc_Waypoint p then
               ((sc_Labels p)(''gateway.istio.io/managed'' \<mapsto> ''istio.io-mesh-controller''),
                [\<lparr>sp_name = ''mesh'', sp_appProtocol = Some ''all'', sp_port = 15008, sp_targetPort = None\<rparr>])
             else (sc_Labels p, ports))
      in (new_object ''Service'' (ServiceSpec
            \<lparr>sv_ports = ports1, sv_type = ''ClusterIP'', sv_selector = [''app'' \<mapsto> sc_App p], sv_clusterIP = [],
             sv_clusterIPs = []\<rparr>))
           \<lparr>o_name := sc_App p, o_namespace := sc_Namespace p, o_labels := lbls, o_status := ZeroStatus\<rparr>)"

definition Service_Run :: "'s kenv \<Rightarrow> (ServiceSpecArgs, 's world) action" where
  "Service_Run env s w = apply_obj env ''Service'' (getService s) s w"

definition Service_Cleanup :: "'s kenv \<Rightarrow> (ServiceSpecArgs, 's world) action" where
  "Service_Cleanup env s w = delete_obj env ''Service'' (getService s) s w"

section \<open>Service accounts (serviceAccount.go)\<close>

record ServiceAccountSpecArgs =
  sa_Namespace :: string
  sa_Name :: string

definition getServiceAccount :: "ServiceAccountSpecArgs \<Rightarrow> kobj" where
  "getServiceAccount p =
     (new_object ''ServiceAccount'' ServiceAccountSpec)\<lparr>o_name := sa_Name p, o_namespace := sa_Namespace p\<rparr>"

definition IgnoreExists :: "'s kenv \<Rightarrow> gerror option \<Rightarrow> gerror option" where
  "IgnoreExists env err = (case err of None \<Rightarrow> None | Some e \<Rightarrow> if IsAlreadyExists env e then None else Some e)"

definition ServiceAccount_Run :: "'s kenv \<Rightarrow> (ServiceAccountSpecArgs, 's world) action" where
  "ServiceAccount_Run env s w =
     obind (apply_obj env ''ServiceAccount'' (getServiceAccount s) s w) (\<lambda>(s1, w1, e). Returns (s1, w1, IgnoreExists env e))"

definition ServiceAccount_Cleanup :: "'s kenv \<Rightarrow> (ServiceAccountSpecArgs, 's world) action" where
  "ServiceAccount_Cleanup env s w = delete_obj env ''ServiceAccount'' (getServiceAccount s) s w"

section \<open>Effects\<close>

text \<open>Waiting is not a request: it leaves the log alone.\<close>

definition sleep_documented :: "'s kenv \<Rightarrow> bool" where
  "sleep_documented env \<longleftrightarrow> (\<forall>d w. log (ctx_sleep (kruntime env) d w) = log w \<and>
     streams (ctx_sleep (kruntime env) d w) = streams w)"

lemma sleep_live: "sleep_documented env \<Longrightarrow> live env (ctx_sleep (kruntime env) d w) = live env w"
  by (simp add: sleep_documented_def live_def)

lemma patcher_error_live:
  assumes "patcher env k b subs w = (Some err, w')"
  shows "live env w' = live env w"
proof -
  obtain r w1 where x: "exec env (Patch_req k b []) w = (r, w1)" by fastforce
  then obtain e where "r = Inl e" "w' = w1" using assms by (cases r) (auto simp: patcher_def)
  then show ?thesis using exec_live [OF x] by simp
qed

lemma ApplyRealSSA_error_live:
  assumes "\<not> hasStatus env ob" and "ApplyRealSSA env T ob w = Returns (Some err, w')"
  shows "live env w' = live env w"
proof -
  obtain r where r: "resource_of env T ob = Returns r" using assms(2) by (auto simp: ApplyRealSSA_def obind_Returns_iff)
  define gv where "gv = (case o_gvk ob of (g, v, knd) \<Rightarrow> if v = [] then gv_of_type env (TypeName T) else (g, v))"
  show ?thesis
  proof (cases "encode env gv ob")
    case (Inl e)
    then show ?thesis using assms r by (auto simp: ApplyRealSSA_def gv_def Let_def split: prod.splits)
  next
    case (Inr b)
    define k where "k = (r, o_namespace ob, o_name ob)"
    obtain e1 w1 where p: "patcher env k b [] w = (e1, w1)" by fastforce
    have "e1 \<noteq> None \<and> w' = w1"
      using assms r Inr p by (auto simp: ApplyRealSSA_def gv_def k_def Let_def split: prod.splits option.splits)
    then show ?thesis
      using patcher_error_live [of env k b "[]" w _ w1] p by auto
  qed
qed

lemma getPod_no_status: "\<not> hasStatus env (getPod p)"
  by (simp add: hasStatus_def hasStatusInternal_def getPod_def Let_def)

lemma getPod_created [simp]: "getPod (p\<lparr>p_created := b\<rparr>) = getPod p" "getPod (p\<lparr>p_xds := x\<rparr>) = getPod p"
  by (simp_all add: getPod_def Pod_Name_def Let_def)

lemma apply_pod_live:
  assumes "sleep_documented env" and "\<not> hasStatus env pod"
  shows "apply_pod env pod n terr w = Returns (ok, e, w') \<Longrightarrow>
     live env w' \<subseteq> (if ok then insert (obj_key ''Pod'' pod) (live env w) else live env w)"
proof (induction n arbitrary: terr w)
  case (Suc n)
  then obtain e1 w1 where a: "ApplyRealSSA env (Concrete ''Pod'') pod w = Returns (e1, w1)"
    by (auto simp: obind_Returns_iff)
  show ?case
  proof (cases e1)
    case None
    have "live env w1 \<subseteq> insert (obj_key ''Pod'' pod) (live env w)" using ApplyRealSSA_live [OF a] by auto
    then show ?thesis using Suc.prems a None by auto
  next
    case (Some err)
    then have "live env w1 = live env w" using ApplyRealSSA_error_live [OF assms(2)] a by blast
    moreover have "apply_pod env pod n (Some (ErrV ''failed to apply pod: '' err))
        (ctx_sleep (kruntime env) (500 * Millisecond) w1) = Returns (ok, e, w')"
      using Suc.prems a Some by simp
    ultimately show ?thesis using Suc.IH sleep_live [OF assms(1)] by metis
  qed
qed simp

text \<open>A pod owns its object once it has been created.\<close>

definition Pod_owned :: "Pod \<Rightarrow> key set" where
  "Pod_owned p = (if p_created p then {obj_key ''Pod'' (getPod p)} else {})"

lemma Pod_owned_xds: "Pod_owned (p\<lparr>p_xds := x\<rparr>) = Pod_owned p"
  by (simp add: Pod_owned_def)

lemma Pod_Run_live:
  assumes "sleep_documented env" and "Pod_Run ag env p w = Returns (p', w', e)"
  shows "live env w' \<subseteq> live env w \<union> Pod_owned p' \<and> getPod p' = getPod p \<and> p_Spec p' = p_Spec p"
proof -
  obtain ok terr w1 where a: "apply_pod env (getPod p) 10 None w = Returns (ok, terr, w1)"
    using assms(2) by (auto simp: Pod_Run_def obind_Returns_iff)
  define p1 where "p1 = (if ok then p\<lparr>p_created := True\<rparr> else p)"
  have l1: "live env w1 \<subseteq> live env w \<union> Pod_owned p1" "getPod p1 = getPod p" "p_Spec p1 = p_Spec p"
    using apply_pod_live [OF assms(1) getPod_no_status a] by (auto simp: p1_def Pod_owned_def)
  have run: "(if \<not> p_created p1 then Returns (p1, w1, terr)
      else if HasProxy (pd_AppType (p_Spec p1)) then
        obind (GrpcOptions (ag_Auth ag) (pd_ServiceAccount (p_Spec p1)) (pd_Namespace (p_Spec p1))) (\<lambda>opts.
          obind (xds_Run ag (pod_xds ag p1) w1) (\<lambda>(x, w2, e). Returns (p1\<lparr>p_xds := Some x\<rparr>, w2, e)))
      else Returns (p1, w1, None)) = Returns (p', w', e)"
    using assms(2) unfolding Pod_Run_def a obind.simps prod.case Let_def p1_def by simp
  consider "p' = p1" "w' = w1"
    | x e2 where "xds_Run ag (pod_xds ag p1) w1 = Returns (x, w', e2)" "p' = p1\<lparr>p_xds := Some x\<rparr>"
  proof (cases "p_created p1 \<and> HasProxy (pd_AppType (p_Spec p1))")
    case True
    then obtain x where "xds_Run ag (pod_xds ag p1) w1 = Returns (x, w', e)" "p' = p1\<lparr>p_xds := Some x\<rparr>"
      using run by (clarsimp simp: obind_Returns_iff)
    then show ?thesis using that(2) by blast
  next
    case False
    then have "p' = p1 \<and> w' = w1" using run by (cases "p_created p1") simp_all
    then show ?thesis using that(1) by blast
  qed
  then show ?thesis
  proof cases
    case 2
    have "Pod_owned p' = Pod_owned p1" unfolding 2(2) by (rule Pod_owned_xds)
    then show ?thesis using l1 xds_Run_live [OF 2(1)] 2(2) by simp
  qed (use l1 in simp)
qed

lemma Pod_Cleanup_live:
  assumes "Pod_Cleanup env p w = Returns (p', w', e)"
  shows "live env w' \<subseteq> live env w \<and> (e = None \<longrightarrow> live env w' \<inter> Pod_owned p = {}) \<and> Pod_owned p' = Pod_owned p"
proof -
  obtain e1 w1 where d: "(if p_created p then Delete env (Concrete ''Pod'') (getPod p) w else Returns (None, w)) = Returns (e1, w1)"
    using assms by (auto simp: Pod_Cleanup_def obind_Returns_iff)
  have l1: "live env w1 \<subseteq> live env w \<and> (e1 = None \<longrightarrow> live env w1 \<inter> Pod_owned p = {})"
    using d by (auto simp: Pod_owned_def split: if_splits dest!: Delete_live)
  consider err where "e1 = Some err" "w' = w1" "p' = p" "e = Some err"
    | "e1 = None" "w' = w1" "p' = p" "e = None"
    | x x1 where "e1 = None" "xds_Cleanup x w1 = Returns (x1, w', e)" "p' = p\<lparr>p_xds := Some x1\<rparr>"
    using assms d by (auto simp: Pod_Cleanup_def obind_Returns_iff split: if_splits option.splits)
  then show ?thesis
  proof cases
    case 3
    have "Pod_owned p' = Pod_owned p" unfolding 3(3) by (rule Pod_owned_xds)
    then show ?thesis using l1 xds_Cleanup_live [OF 3(2)] 3(1) by simp
  qed (use l1 in simp_all)
qed

end
