(* ===== verification/Application.thy ===== *)
theory Application
  imports App_Sims
begin

text \<open>
  Applications (pkg/simulation/app/application.go): a set of pods with the service, gateways, entries
  and templated configuration around them; Run, Cleanup, Refresh and Scale.
\<close>

section \<open>The environment of a simulation\<close>

text \<open>
  Everything a simulation takes from outside: the arguments, the template engine, the Kubernetes
  client, and the schedules by which the goroutines of parallel runs and cleanups interleave, as
  functions of the number of goroutines and the world they start in.
\<close>

record 's simenv =
  sim_args :: args
  engine :: templating
  kube :: "'s kenv"
  run_sched :: "nat \<Rightarrow> 's world \<Rightarrow> par_event list"
  cleanup_sched :: "nat \<Rightarrow> 's world \<Rightarrow> par_event list"

definition env_documented :: "'s simenv \<Rightarrow> bool" where
  "env_documented E \<longleftrightarrow> retry_documented (kube E) \<and> sleep_documented (kube E) \<and>
     (\<forall>n w. RunParallel_possible n (run_sched E n w)) \<and> (\<forall>n w. CleanupParallel_possible n (cleanup_sched E n w))"

lemma env_documented_parts:
  "env_documented E \<Longrightarrow> retry_documented (kube E)" "env_documented E \<Longrightarrow> sleep_documented (kube E)"
  "env_documented E \<Longrightarrow> RunParallel_possible n (run_sched E n w)"
  "env_documented E \<Longrightarrow> CleanupParallel_possible n (cleanup_sched E n w)"
  by (simp_all add: env_documented_def)

section \<open>The parts of an application\<close>

datatype app_sim =
    SConfig Templated
  | SService ServiceSpecArgs
  | SServiceEntry ServiceEntrySpec
  | SWorkloadEntry WorkloadEntrySpec
  | SWorkloadGroup WorkloadGroupSpec
  | SGateway KubeGatewaySpec
  | SPod Pod

definition lift_sim :: "('a \<Rightarrow> 'b) \<Rightarrow> ('a, 'w) action \<Rightarrow> 'a \<Rightarrow> 'w \<Rightarrow> ('b \<times> 'w \<times> gerror option) outcome" where
  "lift_sim C act a w = obind (act a w) (\<lambda>(a1, w1, e). Returns (C a1, w1, e))"

lemma lift_sim_Returns [simp]:
  "lift_sim C act a w = Returns (b, w', e) \<longleftrightarrow> (\<exists>a1. act a w = Returns (a1, w', e) \<and> b = C a1)"
  by (auto simp: lift_sim_def obind_Returns_iff)

fun app_sim_run :: "'s simenv \<Rightarrow> (app_sim, 's world) action" where
  "app_sim_run E (SConfig x) = lift_sim SConfig (Templated_Run (engine E) (kube E)) x"
| "app_sim_run E (SService x) = lift_sim SService (Service_Run (kube E)) x"
| "app_sim_run E (SServiceEntry x) = lift_sim SServiceEntry (ServiceEntry_Run (kube E)) x"
| "app_sim_run E (SWorkloadEntry x) = lift_sim SWorkloadEntry (WorkloadEntry_Run (kube E)) x"
| "app_sim_run E (SWorkloadGroup x) = lift_sim SWorkloadGroup (WorkloadGroup_Run (kube E)) x"
| "app_sim_run E (SGateway x) = lift_sim SGateway (KubeGateway_Run (kube E)) x"
| "app_sim_run E (SPod x) = lift_sim SPod (Pod_Run (sim_args E) (kube E)) x"

fun app_sim_cleanup :: "'s simenv \<Rightarrow> (app_sim, 's world) action" where
  "app_sim_cleanup E (SConfig x) = lift_sim SConfig (Templated_Cleanup (engine E) (kube E)) x"
| "app_sim_cleanup E (SService x) = lift_sim SService (Service_Cleanup (kube E)) x"
| "app_sim_cleanup E (SServiceEntry x) = lift_sim SServiceEntry (ServiceEntry_Cleanup (kube E)) x"
| "app_sim_cleanup E (SWorkloadEntry x) = lift_sim SWorkloadEntry (WorkloadEntry_Cleanup (kube E)) x"
| "app_sim_cleanup E (SWorkloadGroup x) = lift_sim SWorkloadGroup (WorkloadGroup_Cleanup (kube E)) x"
| "app_sim_cleanup E (SGateway x) = lift_sim SGateway (KubeGateway_Cleanup (kube E)) x"
| "app_sim_cleanup E (SPod x) = lift_sim SPod (Pod_Cleanup (kube E)) x"

text \<open>The type names that \<open>%T\<close> prints.\<close>

fun app_sim_type :: "app_sim \<Rightarrow> string" where
  "app_sim_type (SConfig x) = ''*config.Templated''"
| "app_sim_type (SService x) = ''*app.Service''"
| "app_sim_type (SServiceEntry x) = ''*config.ServiceEntry''"
| "app_sim_type (SWorkloadEntry x) = ''*config.WorkloadEntry''"
| "app_sim_type (SWorkloadGroup x) = ''*config.WorkloadGroup''"
| "app_sim_type (SGateway x) = ''*config.KubeGateway''"
| "app_sim_type (SPod x) = ''*app.Pod''"

text \<open>What each part has created, and would remove, by its key.\<close>

fun app_sim_owned :: "'s simenv \<Rightarrow> app_sim \<Rightarrow> key set" where
  "app_sim_owned E (SConfig x) = Templated_owned (engine E) (kube E) x"
| "app_sim_owned E (SService x) = {obj_key ''Service'' (getService x)}"
| "app_sim_owned E (SServiceEntry x) = {obj_key ''ServiceEntry'' (getServiceEntry x)}"
| "app_sim_owned E (SWorkloadEntry x) = {(''WorkloadEntry'', wl_Namespace x, wl_App x)}"
| "app_sim_owned E (SWorkloadGroup x) = {obj_key ''WorkloadGroup'' (getWorkloadGroup x)}"
| "app_sim_owned E (SGateway x) = {obj_key ''Gateway'' (getGateway x)}"
| "app_sim_owned E (SPod x) = Pod_owned x"

lemma WorkloadEntry_Run_live:
  assumes "retry_documented env" and "WorkloadEntry_Run env v w = Returns (v', w', e)"
  shows "v' = v \<and> live env w' \<subseteq> insert (''WorkloadEntry'', wl_Namespace v, wl_App v) (live env w)"
proof -
  obtain ob w1 where g: "getWorkloadEntry v w = (ob, w1)" by fastforce
  have "apply_obj env ''WorkloadEntry'' ob v w1 = Returns (v', w', e)"
    using assms(2) g by (simp add: WorkloadEntry_Run_def)
  then show ?thesis using apply_obj_live [OF assms(1)] getWorkloadEntry_key [OF g] by metis
qed

lemma WorkloadEntry_Cleanup_live:
  assumes "WorkloadEntry_Cleanup env v w = Returns (v', w', e)"
  shows "v' = v \<and> live env w' \<subseteq> live env w \<and>
    (e = None \<longrightarrow> (''WorkloadEntry'', wl_Namespace v, wl_App v) \<notin> live env w')"
proof -
  obtain ob w1 where g: "getWorkloadEntry v w = (ob, w1)" by fastforce
  have "delete_obj env ''WorkloadEntry'' ob v w1 = Returns (v', w', e)"
    using assms g by (simp add: WorkloadEntry_Cleanup_def)
  then show ?thesis using delete_obj_live getWorkloadEntry_key [OF g] by metis
qed

lemmas simple_runs = Service_Run_def ServiceEntry_Run_def WorkloadGroup_Run_def KubeGateway_Run_def
lemmas simple_cleanups = Service_Cleanup_def ServiceEntry_Cleanup_def WorkloadGroup_Cleanup_def KubeGateway_Cleanup_def

lemma app_sim_run_live:
  assumes ok: "env_documented E" and run: "app_sim_run E s w = Returns (s', w', e)"
  shows "live (kube E) w' \<subseteq> live (kube E) w \<union> app_sim_owned E s'"
proof (cases s)
  case (SConfig x)
  then show ?thesis using run Templated_Run_live by fastforce
next
  case (SWorkloadEntry x)
  then show ?thesis using run WorkloadEntry_Run_live [OF env_documented_parts(1) [OF ok]] by fastforce
next
  case (SPod p)
  then show ?thesis using run Pod_Run_live [OF env_documented_parts(2) [OF ok]] by fastforce
qed (use run apply_obj_live [OF env_documented_parts(1) [OF ok]] in \<open>fastforce simp: simple_runs\<close>)+

lemma app_sim_cleanup_live:
  assumes run: "app_sim_cleanup E s w = Returns (s', w', e)"
  shows "live (kube E) w' \<subseteq> live (kube E) w \<and> (e = None \<longrightarrow> live (kube E) w' \<inter> app_sim_owned E s = {}) \<and>
    app_sim_owned E s' = app_sim_owned E s"
proof (cases s)
  case (SConfig x)
  then show ?thesis using run Templated_Cleanup_live by fastforce
next
  case (SWorkloadEntry x)
  then show ?thesis using run WorkloadEntry_Cleanup_live by fastforce
next
  case (SPod p)
  then show ?thesis using run Pod_Cleanup_live by fastforce
qed (use run delete_obj_live in \<open>fastforce simp: simple_cleanups\<close>)+

interpretation app_sims: simulation "app_sim_run E" "app_sim_cleanup E" "app_sim_owned E" "live (kube E)"
    "kruntime (kube E)" "env_documented E" for E :: "'s simenv"
proof (unfold_locales, goal_cases)
  case (1 s w s' w' e)
  then show ?case by (rule app_sim_run_live)
next
  case (2 s w s' w' e)
  then show ?case using app_sim_cleanup_live by blast
next
  case (3 s w s' w')
  then show ?case using app_sim_cleanup_live by blast
next
  case (4 s w s' w' e)
  then show ?case using app_sim_cleanup_live by blast
next
  case (5 d w)
  then show ?case using env_documented_parts(2) sleep_live by blast
qed

section \<open>Applications\<close>

record ConfigTemplate =
  ct_Name :: string
  ct_Config :: config
  ct_Refresh :: "bool option"

text \<open>\<open>as_Node\<close> is the closure that picks a node; it draws from the random source and may panic.\<close>

record ApplicationSpec =
  as_App :: string
  as_Node :: "rng \<Rightarrow> (string \<times> rng) outcome"
  as_Namespace :: string
  as_ServiceAccount :: string
  as_Instances :: int
  as_Type :: AppType
  as_TemplateDefinitions :: smap
  as_Templates :: "ConfigTemplate list"
  as_Labels :: smap

record Application =
  ap_Spec :: ApplicationSpec
  ap_pods :: "Pod list"
  ap_service :: "ServiceSpecArgs option"
  ap_kgateways :: "KubeGatewaySpec list"
  ap_workloadEntry :: "WorkloadEntrySpec option"
  ap_workloadGroup :: "WorkloadGroupSpec option"
  ap_serviceEntry :: "ServiceEntrySpec option"
  ap_configs :: "Templated list"

text \<open>\<open>TemplateDefinitions.Get\<close>.\<close>

definition TemplateDefinitions_Get :: "smap \<Rightarrow> string \<Rightarrow> string outcome" where
  "TemplateDefinitions_Get t name =
     (case t name of None \<Rightarrow> Panics (''unknown template name: '' @ name) | Some x \<Rightarrow> Returns x)"

definition makePod :: "ApplicationSpec \<Rightarrow> 's world \<Rightarrow> (Pod \<times> 's world) outcome" where
  "makePod s w =
     obind (as_Node s (rnd w)) (\<lambda>(node, r1).
       Returns (NewPod \<lparr>pd_ServiceAccount = as_ServiceAccount s, pd_Node = node, pd_App = as_App s,
                        pd_Namespace = as_Namespace s, pd_UID = [], pd_IP = [], pd_AppType = as_Type s\<rparr>
                  (w\<lparr>rnd := r1\<rparr>)))"

fun make_pods :: "ApplicationSpec \<Rightarrow> nat \<Rightarrow> 's world \<Rightarrow> (Pod list \<times> 's world) outcome" where
  "make_pods s 0 w = Returns ([], w)"
| "make_pods s (Suc n) w =
     obind (makePod s w) (\<lambda>(p, w1). obind (make_pods s n w1) (\<lambda>(ps, w2). Returns (p # ps, w2)))"

definition app_config :: "ApplicationSpec \<Rightarrow> ConfigTemplate \<Rightarrow> config" where
  "app_config s tmpl =
     (let cfg = ct_Config tmpl;
          cfg1 = (if cfg ''Namespace'' = None then cfg(''Namespace'' \<mapsto> CStr (as_Namespace s)) else cfg)
      in (if cfg1 ''Name'' = None then cfg1(''Name'' \<mapsto> CStr (as_App s)) else cfg1))"

fun make_configs :: "templating \<Rightarrow> smap \<Rightarrow> (ConfigTemplate \<Rightarrow> config) \<Rightarrow> ConfigTemplate list \<Rightarrow> 's world \<Rightarrow>
    (Templated list \<times> 's world) outcome" where
  "make_configs te defs cfg_of [] w = Returns ([], w)"
| "make_configs te defs cfg_of (tmpl # tmpls) w =
     obind (TemplateDefinitions_Get defs (ct_Name tmpl)) (\<lambda>text.
       obind (NewTemplated te text (cfg_of tmpl) (ct_Refresh tmpl) (rnd w)) (\<lambda>(t, r1).
         obind (make_configs te defs cfg_of tmpls (w\<lparr>rnd := r1\<rparr>)) (\<lambda>(ts, w2). Returns (t # ts, w2))))"

definition empty_application :: "ApplicationSpec \<Rightarrow> Application" where
  "empty_application s = \<lparr>ap_Spec = s, ap_pods = [], ap_service = None, ap_kgateways = [], ap_workloadEntry = None,
     ap_workloadGroup = None, ap_serviceEntry = None, ap_configs = []\<rparr>"

definition NewApplication :: "templating \<Rightarrow> ApplicationSpec \<Rightarrow> 's world \<Rightarrow> (Application \<times> 's world) outcome" where
  "NewApplication te s w =
     obind (make_configs te (as_TemplateDefinitions s) (app_config s) (as_Templates s) w) (\<lambda>(configs, w1).
       let a = (empty_application s)\<lparr>ap_configs := configs\<rparr>;
           entry = \<lparr>en_App = as_App s, en_AppType = as_Type s, en_Namespace = as_Namespace s\<rparr>
       in if as_Type s = ExternalType then Returns (a\<lparr>ap_serviceEntry := Some entry\<rparr>, w1)
          else if as_Type s = VMType then
            Returns (a\<lparr>ap_serviceEntry := Some entry,
                       ap_workloadGroup := Some \<lparr>wgr_App = as_App s, wgr_Namespace = as_Namespace s\<rparr>,
                       ap_workloadEntry := Some \<lparr>wl_App = as_App s, wl_Namespace = as_Namespace s, wl_Weight = 0\<rparr>\<rparr>, w1)
          else
            obind (make_pods s (nat (as_Instances s)) w1) (\<lambda>(pods, w2).
              let a1 = a\<lparr>ap_pods := pods,
                         ap_service := Some \<lparr>sc_App = as_App s, sc_Namespace = as_Namespace s,
                                            sc_Waypoint = (as_Type s = WaypointType), sc_Labels = as_Labels s\<rparr>\<rparr>
              in Returns ((if as_Type s = WaypointType
                           then a1\<lparr>ap_kgateways := [\<lparr>kg_App = as_App s, kg_Name = [], kg_Namespace = as_Namespace s,
                                                    kg_Waypoint = True\<rparr>]\<rparr> else a1), w2)))"

definition opt :: "('a \<Rightarrow> 'b) \<Rightarrow> 'a option \<Rightarrow> 'b list" where
  "opt f x = (case x of None \<Rightarrow> [] | Some y \<Rightarrow> [f y])"

definition fixed_sims :: "Application \<Rightarrow> app_sim list" where
  "fixed_sims w =
     map SConfig (ap_configs w) @ opt SService (ap_service w) @ opt SServiceEntry (ap_serviceEntry w) @
     opt SWorkloadEntry (ap_workloadEntry w) @ opt SWorkloadGroup (ap_workloadGroup w) @ map SGateway (ap_kgateways w)"

definition getSims :: "Application \<Rightarrow> app_sim list" where
  "getSims w = fixed_sims w @ map SPod (ap_pods w)"

text \<open>\<open>GetConfigs\<close>: what of the application can be refreshed.\<close>

definition GetConfigs :: "Application \<Rightarrow> app_sim list" where
  "GetConfigs w = opt SWorkloadEntry (ap_workloadEntry w) @ map SConfig (ap_configs w)"

text \<open>
  The simulations are objects the application points to; after a run their new values are written
  back. Only pods change in Run and Cleanup.
\<close>

definition pods_of :: "app_sim list \<Rightarrow> Pod list" where
  "pods_of ss = concat (map (\<lambda>s. case s of SPod p \<Rightarrow> [p] | _ \<Rightarrow> []) ss)"

definition App_Run :: "'s simenv \<Rightarrow> (Application, 's world) action" where
  "App_Run E a w =
     obind (agg_RunParallel (run_sched E (length (getSims a)) w) (kruntime (kube E)) app_sim_type (app_sim_run E)
              \<lparr>Simulations = getSims a, Delay = 0\<rparr> w)
       (\<lambda>(g, w1, e). Returns (a\<lparr>ap_pods := pods_of (Simulations g)\<rparr>, w1, e))"

definition App_Cleanup :: "'s simenv \<Rightarrow> (Application, 's world) action" where
  "App_Cleanup E a w =
     obind (agg_CleanupParallel (cleanup_sched E (length (getSims a)) w) app_sim_type (app_sim_cleanup E)
              \<lparr>Simulations = ReverseSimulations (getSims a), Delay = 0\<rparr> w)
       (\<lambda>(g, w1, e). Returns (a\<lparr>ap_pods := rev (pods_of (Simulations g))\<rparr>, w1, e))"

section \<open>Refresh and Scale\<close>

text \<open>\<open>rand.IntnRange(0, max)\<close>: a value in \<open>[0, max)\<close>.\<close>

definition pick_pod :: "'a list \<Rightarrow> rng \<Rightarrow> nat \<times> rng" where
  "pick_pod pods r = (if length pods > 1 then Intn (length pods - 1) r else (0, r))"

definition App_Refresh :: "'s simenv \<Rightarrow> Application \<Rightarrow> 's world \<Rightarrow> (Application \<times> 's world \<times> string \<times> gerror option) outcome" where
  "App_Refresh E a w =
     (if ap_pods a = [] then Returns (a, w, ''skipped, no pods'', None)
      else
        (let (i, r1) = pick_pod (ap_pods a) (rnd w)
         in obind (makePod (ap_Spec a) (w\<lparr>rnd := r1\<rparr>)) (\<lambda>(newPod, w1).
              let removed = ap_pods a ! i in
              obind (Pod_Run (sim_args E) (kube E) newPod w1) (\<lambda>(newPod1, w2, e).
                let a1 = a\<lparr>ap_pods := (ap_pods a)[i := newPod1]\<rparr> in
                case e of
                  Some err \<Rightarrow> Returns (a1, w2, [], Some err)
                | None \<Rightarrow>
                    obind (Pod_Cleanup (kube E) removed w2) (\<lambda>(removed1, w3, e3).
                      case e3 of
                        Some err \<Rightarrow> Returns (a1, w3, [], Some err)
                      | None \<Rightarrow> Returns (a1, w3, pd_Namespace (p_Spec newPod1) @ ''/'' @ Pod_Name newPod1, None))))))"

text \<open>Taking out element \<open>i\<close>: the last one takes its place.\<close>

definition swap_remove :: "nat \<Rightarrow> 'a list \<Rightarrow> 'a list" where
  "swap_remove i xs = butlast (xs[i := last xs])"

text \<open>The two loops of ScaleTo; \<open>k\<close> is the number of pods left to remove or to add.\<close>

fun scale_down :: "'s simenv \<Rightarrow> nat \<Rightarrow> Application \<Rightarrow> 's world \<Rightarrow> (Application \<times> 's world \<times> gerror option) outcome" where
  "scale_down E 0 a w = Returns (a, w, None)"
| "scale_down E (Suc k) a w =
     (let (i, r1) = pick_pod (ap_pods a) (rnd w);
          old = ap_pods a ! i;
          a1 = a\<lparr>ap_pods := swap_remove i (ap_pods a)\<rparr>
      in obind (Pod_Cleanup (kube E) old (w\<lparr>rnd := r1\<rparr>)) (\<lambda>(old1, w1, e).
           case e of Some err \<Rightarrow> Returns (a1, w1, Some err) | None \<Rightarrow> scale_down E k a1 w1))"

fun scale_up :: "'s simenv \<Rightarrow> nat \<Rightarrow> Application \<Rightarrow> 's world \<Rightarrow> (Application \<times> 's world \<times> gerror option) outcome" where
  "scale_up E 0 a w = Returns (a, w, None)"
| "scale_up E (Suc k) a w =
     obind (makePod (ap_Spec a) w) (\<lambda>(pod, w1).
       obind (Pod_Run (sim_args E) (kube E) pod w1) (\<lambda>(pod1, w2, e).
         let a1 = a\<lparr>ap_pods := ap_pods a @ [pod1]\<rparr>
         in case e of Some err \<Rightarrow> Returns (a1, w2, Some err) | None \<Rightarrow> scale_up E k a1 w2))"

definition App_ScaleTo :: "'s simenv \<Rightarrow> int \<Rightarrow> Application \<Rightarrow> 's world \<Rightarrow> (Application \<times> 's world \<times> gerror option) outcome" where
  "App_ScaleTo E n a w =
     obind (if n \<ge> 0 then scale_down E (length (ap_pods a) - nat n) a w else Returns (a, w, None)) (\<lambda>(a1, w1, e).
       case e of
         Some err \<Rightarrow> Returns (a1, w1, Some err)
       | None \<Rightarrow> scale_up E (nat n - length (ap_pods a1)) a1 w1)"

definition App_Scale :: "'s simenv \<Rightarrow> int \<Rightarrow> Application \<Rightarrow> 's world \<Rightarrow> (Application \<times> 's world \<times> gerror option) outcome" where
  "App_Scale E delta a w = App_ScaleTo E (int (length (ap_pods a)) + delta) a w"

end
