(* ===== verification/App_Laws.thy ===== *)
theory App_Laws
  imports Application Kube_Memory
begin

text \<open>
  What an application promises (pkg/simulation/app/application.go): Run then Cleanup leaves nothing
  behind, scaling reaches its target, and neither Scale nor Refresh loses track of a pod.
\<close>

section \<open>An environment in memory\<close>

definition memory_sim :: "store simenv" where
  "memory_sim = \<lparr>sim_args = small_args, engine = \<lparr>te_execute = (\<lambda>t c. Inr t), te_decoder = name_decoder\<rparr>,
     kube = memory_env, run_sched = (\<lambda>n w. one_by_one n), cleanup_sched = (\<lambda>n w. one_by_one n)\<rparr>"

lemma memory_sleep: "sleep_documented memory_env"
  by (simp add: sleep_documented_def memory_env_def)

lemma memory_sim_documented: "env_documented memory_sim"
  by (simp add: env_documented_def memory_sim_def memory_retry memory_sleep one_by_one_schedules)

definition sample_spec :: "AppType \<Rightarrow> int \<Rightarrow> ApplicationSpec" where
  "sample_spec t n = \<lparr>as_App = ''app'', as_Node = (\<lambda>r. Returns (''node'', r)), as_Namespace = ''ns'', as_ServiceAccount = ''sa'',
     as_Instances = n, as_Type = t, as_TemplateDefinitions = Map.empty, as_Templates = [], as_Labels = Map.empty\<rparr>"

definition sample_pod :: "string \<Rightarrow> bool \<Rightarrow> Pod" where
  "sample_pod uid b = \<lparr>p_Spec = \<lparr>pd_ServiceAccount = ''sa'', pd_Node = ''node'', pd_App = ''app'', pd_Namespace = ''ns'',
     pd_UID = uid, pd_IP = ''10.0.0.10'', pd_AppType = PlainType\<rparr>, p_created = b, p_xds = None\<rparr>"

definition sample_app :: "bool \<Rightarrow> Application" where
  "sample_app b = (empty_application (sample_spec PlainType 2))\<lparr>ap_pods := [sample_pod ''a'' b, sample_pod ''b'' b]\<rparr>"

lemma memory_sim_parts [simp]:
  "kube memory_sim = memory_env" "sim_args memory_sim = small_args" "run_sched memory_sim n w = one_by_one n"
  "cleanup_sched memory_sim n w = one_by_one n"
  by (simp_all add: memory_sim_def)

lemma memory_ssa: "\<exists>w'. ApplyRealSSA memory_env (Concrete t) ob w = Returns (None, w')"
  by (simp add: ApplyRealSSA_def resource_of_def patcher_def exec_def memory_env_def obj_key_def Let_def split: prod.splits)

lemma memory_delete: "\<exists>w'. Delete memory_env (Concrete t) ob w = Returns (None, w')"
  by (simp add: Delete_def exec_def memory_env_def not_found_def obj_key_def Let_def split: prod.splits option.splits)

definition plain_pod :: "Pod \<Rightarrow> bool" where
  "plain_pod p \<longleftrightarrow> \<not> HasProxy (pd_AppType (p_Spec p))"

lemma memory_Pod_Run:
  assumes "plain_pod p"
  shows "\<exists>w'. Pod_Run ag memory_env p w = Returns (p\<lparr>p_created := True\<rparr>, w', None)"
proof -
  obtain w' where "ApplyRealSSA memory_env (Concrete ''Pod'') (getPod p) w = Returns (None, w')"
    using memory_ssa by blast
  then have "apply_pod memory_env (getPod p) (Suc 9) None w = Returns (True, None, w')"
    by (simp only: apply_pod.simps obind.simps prod.case option.case)
  moreover have "(10::nat) = Suc 9" by simp
  ultimately have "apply_pod memory_env (getPod p) 10 None w = Returns (True, None, w')" by (simp only:)
  then show ?thesis using assms by (simp add: Pod_Run_def plain_pod_def)
qed

lemma memory_Pod_Cleanup:
  assumes "plain_pod p"
  shows "\<exists>w'. Pod_Cleanup memory_env p w = Returns (p, w', None)"
  using memory_delete [of "''Pod''" "getPod p" w] assms by (auto simp: Pod_Cleanup_def plain_pod_def)

fun plain_sim :: "app_sim \<Rightarrow> bool" where
  "plain_sim (SPod p) = plain_pod p"
| "plain_sim s = False"

lemma memory_app_sim_run:
  "plain_sim s \<Longrightarrow> \<exists>s' w'. app_sim_run memory_sim s w = Returns (s', w', None) \<and> plain_sim s'"
  by (cases s) (use memory_Pod_Run in \<open>fastforce simp: plain_pod_def\<close>)+

lemma memory_app_sim_cleanup:
  "plain_sim s \<Longrightarrow> \<exists>s' w'. app_sim_cleanup memory_sim s w = Returns (s', w', None) \<and> plain_sim s'"
  by (cases s) (use memory_Pod_Cleanup in \<open>fastforce simp: plain_pod_def\<close>)+

text \<open>When every call succeeds, so does a parallel run.\<close>

lemma run_par_total:
  assumes "\<And>s w. P s \<Longrightarrow> \<exists>s' w'. act s w = Returns (s', w', None) \<and> P s'"
  shows "\<forall>s \<in> set ss. P s \<Longrightarrow> set (execs es) \<subseteq> {..<length ss} \<Longrightarrow>
    \<exists>ss' w'. run_par what tn act pause es ss w None = Returns (ss', w', None) \<and> (\<forall>s \<in> set ss'. P s)"
proof (induction es arbitrary: ss w)
  case (Cons ev es)
  show ?case
  proof (cases ev)
    case Launch
    then show ?thesis using Cons by simp
  next
    case (Exec i)
    then have "i < length ss" using Cons.prems(2) by simp
    then obtain s' w' where a: "act (ss ! i) w = Returns (s', w', None)" "P s'"
      using assms [of "ss ! i" w] Cons.prems(1) by auto
    have "\<forall>s \<in> set (ss[i := s']). P s" using Cons.prems(1) a(2) set_update_subset_insert [of ss i s'] by blast
    then show ?thesis using Cons.IH [of "ss[i := s']" w'] Cons.prems(2) a(1) Exec by simp
  qed
qed simp

lemma execs_one_by_one: "set (execs (one_by_one n)) = {..<n}"
  using RunParallel_execs one_by_one_schedules(1) by blast

section \<open>Run and Cleanup change nothing but pods\<close>

fun kept :: "app_sim \<Rightarrow> app_sim \<Rightarrow> bool" where
  "kept (SPod p) s' \<longleftrightarrow> (\<exists>p'. s' = SPod p' \<and> p_Spec p' = p_Spec p)"
| "kept s s' \<longleftrightarrow> s' = s"

lemma kept_reflp: "reflp kept"
proof (rule reflpI)
  show "kept s s" for s by (cases s) auto
qed

lemma kept_transp: "transp kept"
proof (rule transpI)
  show "kept r t" if "kept r s" "kept s t" for r s t
    using that by (cases r; cases s) auto
qed

lemma apply_obj_same: "apply_obj env t ob x w = Returns (x', w', e) \<Longrightarrow> x' = x"
  by (auto simp: apply_obj_def Let_def split: prod.splits)

lemma delete_obj_same: "delete_obj env t ob x w = Returns (x', w', e) \<Longrightarrow> x' = x"
  by (auto simp: delete_obj_def obind_Returns_iff)

lemmas run_same = apply_obj_same delete_obj_same
lemmas run_action_defs = simple_runs simple_cleanups WorkloadEntry_Run_def WorkloadEntry_Cleanup_def

lemma Templated_Run_same: "Templated_Run te env v w = Returns (v', w', e) \<Longrightarrow> v' = v"
  using Templated_Run_live by blast

lemma Templated_Cleanup_same: "Templated_Cleanup te env v w = Returns (v', w', e) \<Longrightarrow> v' = v"
  using Templated_Cleanup_live by blast

lemma Pod_Run_Spec: "Pod_Run ag env p w = Returns (p', w', e) \<Longrightarrow> p_Spec p' = p_Spec p"
  by (auto simp: Pod_Run_def obind_Returns_iff Let_def split: if_splits)

lemma Pod_Cleanup_Spec: "Pod_Cleanup env p w = Returns (p', w', e) \<Longrightarrow> p_Spec p' = p_Spec p"
  by (auto simp: Pod_Cleanup_def obind_Returns_iff split: option.splits if_splits)

lemma app_sim_run_kept: "app_sim_run E s w = Returns (s', w', e) \<Longrightarrow> kept s s'"
  by (cases s)
    (auto simp: run_action_defs dest: Templated_Run_same Pod_Run_Spec apply_obj_same split: prod.splits)

lemma app_sim_cleanup_kept: "app_sim_cleanup E s w = Returns (s', w', e) \<Longrightarrow> kept s s'"
  by (cases s)
    (auto simp: run_action_defs dest: Templated_Cleanup_same Pod_Cleanup_Spec delete_obj_same split: prod.splits)

fun is_pod :: "app_sim \<Rightarrow> bool" where
  "is_pod (SPod p) = True"
| "is_pod s = False"

lemma pods_of_append [simp]: "pods_of (xs @ ys) = pods_of xs @ pods_of ys"
  by (simp add: pods_of_def)

lemma pods_of_pods [simp]: "pods_of (map SPod ps) = ps"
  by (induction ps) (simp_all add: pods_of_def)

lemma pods_of_none [simp]: "\<forall>s \<in> set ss. \<not> is_pod s \<Longrightarrow> pods_of ss = []"
  by (induction ss) (auto simp: pods_of_def split: app_sim.splits)

lemma pods_of_rev: "pods_of (rev ss) = rev (pods_of ss)"
  by (induction ss) (auto simp: pods_of_def split: app_sim.splits)

lemma fixed_sims_no_pod: "s \<in> set (fixed_sims a) \<Longrightarrow> \<not> is_pod s"
  by (auto simp: fixed_sims_def opt_def split: option.splits)

lemma kept_fixed: "list_all2 kept ss ss' \<Longrightarrow> \<forall>s \<in> set ss. \<not> is_pod s \<Longrightarrow> ss' = ss"
proof (induction ss ss' rule: list_all2_induct)
  case (Cons s ss s' ss')
  then show ?case by (cases s) auto
qed simp

lemma kept_pods:
  "list_all2 kept (map SPod ps) ss' \<Longrightarrow> ss' = map SPod (pods_of ss') \<and> map p_Spec (pods_of ss') = map p_Spec ps"
proof (induction ps arbitrary: ss')
  case (Cons p ps)
  then obtain p' rest where "ss' = SPod p' # rest" "p_Spec p' = p_Spec p" "list_all2 kept (map SPod ps) rest"
    by (auto simp: list_all2_Cons1)
  then show ?case using Cons.IH by (auto simp: pods_of_def)
qed (simp add: pods_of_def)

text \<open>Writing the pods back gives an application made of exactly the parts that ran.\<close>

lemma getSims_back:
  assumes "list_all2 kept (getSims a) ss"
  shows "getSims (a\<lparr>ap_pods := pods_of ss\<rparr>) = ss \<and> map p_Spec (pods_of ss) = map p_Spec (ap_pods a)"
proof -
  obtain xs ys where ss: "ss = xs @ ys" "list_all2 kept (fixed_sims a) xs" "list_all2 kept (map SPod (ap_pods a)) ys"
    using assms by (auto simp: getSims_def list_all2_append1)
  have "xs = fixed_sims a" using kept_fixed [OF ss(2)] fixed_sims_no_pod by blast
  moreover have "pods_of xs = []" using calculation fixed_sims_no_pod by (metis pods_of_none)
  ultimately show ?thesis using kept_pods [OF ss(3)] ss(1) by (auto simp: getSims_def fixed_sims_def)
qed

lemma App_Run_parts:
  assumes "App_Run E a w = Returns (a1, w1, e)"
  obtains g where "agg_RunParallel (run_sched E (length (getSims a)) w) (kruntime (kube E)) app_sim_type (app_sim_run E)
      \<lparr>Simulations = getSims a, Delay = 0\<rparr> w = Returns (g, w1, e)"
    and "a1 = a\<lparr>ap_pods := pods_of (Simulations g)\<rparr>" and "getSims a1 = Simulations g"
    and "map p_Spec (ap_pods a1) = map p_Spec (ap_pods a)" and "g = \<lparr>Simulations = getSims a1, Delay = 0\<rparr>"
proof -
  obtain g where g: "agg_RunParallel (run_sched E (length (getSims a)) w) (kruntime (kube E)) app_sim_type (app_sim_run E)
      \<lparr>Simulations = getSims a, Delay = 0\<rparr> w = Returns (g, w1, e)" "a1 = a\<lparr>ap_pods := pods_of (Simulations g)\<rparr>"
    using assms by (auto simp: App_Run_def obind_Returns_iff)
  then obtain ss where ss: "run_par ''failed running simulation '' app_sim_type (app_sim_run E)
      (ContextSleep (kruntime (kube E)) 0) (run_sched E (length (getSims a)) w) (getSims a) w None = Returns (ss, w1, e)"
    "g = \<lparr>Simulations = ss, Delay = 0\<rparr>"
    by (auto simp: agg_RunParallel_def obind_Returns_iff)
  have "list_all2 kept (getSims a) ss"
    by (rule run_par_all2 [OF app_sim_run_kept kept_reflp kept_transp ss(1)])
  then show ?thesis using that g ss(2) getSims_back [of a ss] by simp
qed

text \<open>
  C21: Whatever the interleaving of the goroutines and whatever fails while an application starts, a
  Cleanup that reports no error leaves no object in the cluster that was not there before Run.
\<close>

theorem App_cleanup_leaves_nothing:
  assumes "env_documented E" and "App_Run E a w = Returns (a1, w1, e1)" and "App_Cleanup E a1 w1 = Returns (a2, w2, None)"
  shows "live (kube E) w2 \<subseteq> live (kube E) w"
proof -
  obtain g where g: "agg_RunParallel (run_sched E (length (getSims a)) w) (kruntime (kube E)) app_sim_type (app_sim_run E)
      \<lparr>Simulations = getSims a, Delay = 0\<rparr> w = Returns (g, w1, e1)" "g = \<lparr>Simulations = getSims a1, Delay = 0\<rparr>"
    using App_Run_parts [OF assms(2)] by metis
  obtain h where h: "agg_CleanupParallel (cleanup_sched E (length (getSims a1)) w1) app_sim_type (app_sim_cleanup E)
      \<lparr>Simulations = rev (getSims a1), Delay = 0\<rparr> w1 = Returns (h, w2, None)"
    using assms(3) by (auto simp: App_Cleanup_def obind_Returns_iff)
  show ?thesis
    by (rule app_sims.run_then_cleanup_par [OF assms(1) g(1) _ _ ])
      (use env_documented_parts(3,4) [OF assms(1)] h g(2) in simp_all)
qed

lemma sample_sims: "\<forall>s \<in> set (getSims (sample_app b)). plain_sim s"
  by (simp add: getSims_def fixed_sims_def opt_def sample_app_def empty_application_def sample_pod_def plain_pod_def
      HasProxy_def app_type_defs)

lemma memory_App_Run:
  assumes "\<forall>s \<in> set (getSims a). plain_sim s"
  shows "\<exists>a1 w1. App_Run memory_sim a w = Returns (a1, w1, None) \<and> (\<forall>s \<in> set (getSims a1). plain_sim s)"
proof -
  obtain ss w1 where r: "run_par ''failed running simulation '' app_sim_type (app_sim_run memory_sim)
      (ContextSleep (kruntime memory_env) 0) (one_by_one (length (getSims a))) (getSims a) w None = Returns (ss, w1, None)"
    and ss: "\<forall>s \<in> set ss. plain_sim s"
    using run_par_total [of plain_sim "app_sim_run memory_sim", OF memory_app_sim_run assms] execs_one_by_one by blast
  then have run: "App_Run memory_sim a w = Returns (a\<lparr>ap_pods := pods_of ss\<rparr>, w1, None)"
    by (simp add: App_Run_def agg_RunParallel_def)
  have "list_all2 kept (getSims a) ss"
    by (rule run_par_all2 [OF app_sim_run_kept kept_reflp kept_transp r])
  then have "getSims (a\<lparr>ap_pods := pods_of ss\<rparr>) = ss" using getSims_back by blast
  then show ?thesis using run ss by auto
qed

lemma memory_App_Cleanup:
  assumes "\<forall>s \<in> set (getSims a). plain_sim s"
  shows "\<exists>a1 w1. App_Cleanup memory_sim a w = Returns (a1, w1, None)"
proof -
  have "\<exists>ss w1. run_par ''failed cleaning simulation '' app_sim_type (app_sim_cleanup memory_sim)
      (\<lambda>w. w) (one_by_one (length (getSims a))) (rev (getSims a)) w None = Returns (ss, w1, None) \<and> (\<forall>s \<in> set ss. plain_sim s)"
    by (rule run_par_total [of plain_sim]) (use memory_app_sim_cleanup assms execs_one_by_one in simp_all)
  then show ?thesis by (auto simp: App_Cleanup_def agg_CleanupParallel_def)
qed

lemma App_cleanup_leaves_nothing_witness:
  "\<exists>a1 w1 a2 w2. App_Run memory_sim (sample_app False) memory_world = Returns (a1, w1, None) \<and>
     App_Cleanup memory_sim a1 w1 = Returns (a2, w2, None) \<and> live memory_env w2 \<subseteq> live memory_env memory_world"
proof -
  obtain a1 w1 where r: "App_Run memory_sim (sample_app False) memory_world = Returns (a1, w1, None)"
    and p: "\<forall>s \<in> set (getSims a1). plain_sim s"
    using memory_App_Run [OF sample_sims] by blast
  obtain a2 w2 where c: "App_Cleanup memory_sim a1 w1 = Returns (a2, w2, None)"
    using memory_App_Cleanup [OF p] by blast
  show ?thesis using App_cleanup_leaves_nothing [OF memory_sim_documented r c] r c by auto
qed

section \<open>Applications are simulations\<close>

text \<open>An application owns what its parts own; the laws of the interface hold for it in turn.\<close>

definition App_owned :: "'s simenv \<Rightarrow> Application \<Rightarrow> key set" where
  "App_owned E a = \<Union> (app_sim_owned E ` set (getSims a))"

lemma App_Run_live:
  assumes "env_documented E" and "App_Run E a w = Returns (a', w', e)"
  shows "live (kube E) w' \<subseteq> live (kube E) w \<union> App_owned E a'"
proof -
  obtain g where g: "agg_RunParallel (run_sched E (length (getSims a)) w) (kruntime (kube E)) app_sim_type (app_sim_run E)
      \<lparr>Simulations = getSims a, Delay = 0\<rparr> w = Returns (g, w', e)" "getSims a' = Simulations g"
    using App_Run_parts [OF assms(2)] by metis
  show ?thesis
    using app_sims.agg_RunParallel_live [OF assms(1) g(1)] env_documented_parts(3) [OF assms(1)] g(2)
    by (simp add: App_owned_def)
qed

lemma App_Cleanup_live:
  assumes "env_documented E" and "App_Cleanup E a w = Returns (a', w', e)"
  shows "live (kube E) w' \<subseteq> live (kube E) w \<and> (e = None \<longrightarrow> live (kube E) w' \<inter> App_owned E a = {}) \<and>
    App_owned E a' = App_owned E a"
proof -
  let ?es = "cleanup_sched E (length (getSims a)) w"
  obtain ss where ss: "run_par ''failed cleaning simulation '' app_sim_type (app_sim_cleanup E) (\<lambda>w. w) ?es
      (rev (getSims a)) w None = Returns (ss, w', e)" "a' = a\<lparr>ap_pods := rev (pods_of ss)\<rparr>"
    using assms(2) by (auto simp: App_Cleanup_def agg_CleanupParallel_def obind_Returns_iff)
  have "list_all2 kept (rev (getSims a)) ss"
    by (rule run_par_all2 [OF app_sim_cleanup_kept kept_reflp kept_transp ss(1)])
  then have "list_all2 kept (getSims a) (rev ss)" using list_all2_rev [of kept "rev (getSims a)" ss] by simp
  then have sims: "getSims a' = rev ss" using getSims_back [of a "rev ss"] ss(2) by (simp add: pods_of_rev)
  have ex: "distinct (execs ?es)" "set (execs ?es) = {..<length (rev (getSims a))}"
    using CleanupParallel_execs [OF env_documented_parts(4) [OF assms(1)]] by auto
  have live: "live (kube E) w' \<subseteq> live (kube E) w" "map (app_sim_owned E) ss = map (app_sim_owned E) (rev (getSims a))"
    and none: "e = None \<Longrightarrow> \<forall>i < length (rev (getSims a)). live (kube E) w' \<inter> app_sim_owned E (rev (getSims a) ! i) = {}"
    using app_sims.cleanup_par_live [OF assms(1) _ ss(1) ex(1)] ex(2) by auto
  have "set (map (app_sim_owned E) (rev ss)) = set (map (app_sim_owned E) (getSims a))"
    using live(2) by (metis rev_map set_rev rev_rev_ident)
  then have own: "App_owned E a' = App_owned E a" by (simp add: App_owned_def sims)
  have "live (kube E) w' \<inter> app_sim_owned E s = {}" if en: "e = None" and sin: "s \<in> set (getSims a)" for s
  proof -
    obtain i where "i < length (rev (getSims a))" "rev (getSims a) ! i = s"
      using sin by (metis in_set_conv_nth set_rev)
    then show ?thesis using none [OF en] by auto
  qed
  then show ?thesis using live(1) own unfolding App_owned_def by blast
qed

interpretation apps: simulation "App_Run E" "App_Cleanup E" "App_owned E" "live (kube E)" "kruntime (kube E)"
    "env_documented E" for E :: "'s simenv"
proof (unfold_locales, goal_cases)
  case (1 s w s' w' e)
  then show ?case by (rule App_Run_live)
next
  case (2 s w s' w' e)
  then show ?case using App_Cleanup_live by blast
next
  case (3 s w s' w')
  then show ?case using App_Cleanup_live by blast
next
  case (4 s w s' w' e)
  then show ?case using App_Cleanup_live by blast
next
  case (5 d w)
  then show ?case using env_documented_parts(2) sleep_live by blast
qed

section \<open>Scaling\<close>

text \<open>Objects that exist in the cluster and that no pod of the application accounts for.\<close>

definition strays :: "'s simenv \<Rightarrow> Application \<Rightarrow> 's world \<Rightarrow> key set" where
  "strays E a w = live (kube E) w - \<Union> (Pod_owned ` set (ap_pods a))"

lemma live_rnd [simp]: "live env (w\<lparr>rnd := r\<rparr>) = live env w"
  by (simp add: live_def)

lemma live_nextIp [simp]: "live env (w\<lparr>nextIp := r\<rparr>) = live env w"
  by (simp add: live_def)

lemma NewPod_live: "NewPod s w = (p, w') \<Longrightarrow> live env w' = live env w"
  by (auto simp: NewPod_def Let_def split: prod.splits if_splits)

lemma makePod_live: "makePod s w = Returns (p, w') \<Longrightarrow> live env w' = live env w"
proof -
  assume "makePod s w = Returns (p, w')"
  then obtain q r1 where "NewPod q (w\<lparr>rnd := r1\<rparr>) = (p, w')" by (auto simp: makePod_def obind_Returns_iff)
  then show ?thesis using NewPod_live [of q "w\<lparr>rnd := r1\<rparr>" p w' env] by simp
qed

lemma pick_pod_less: "pods \<noteq> [] \<Longrightarrow> pick_pod pods r = (i, r') \<Longrightarrow> i < length pods"
  by (auto simp: pick_pod_def Intn_def split: if_splits intro: less_trans [OF mod_less_divisor])

lemma set_swap_remove:
  assumes "i < length xs"
  shows "set xs = insert (xs ! i) (set (swap_remove i xs))"
proof -
  obtain ys y where xs: "xs = ys @ [y]" using assms by (cases xs rule: rev_cases) auto
  show ?thesis
  proof (cases "i = length ys")
    case True
    then show ?thesis by (auto simp: swap_remove_def xs)
  next
    case False
    then have iy: "i < length ys" using assms xs by simp
    have "swap_remove i xs = ys[i := y]" using iy by (simp add: swap_remove_def xs list_update_append butlast_append)
    moreover have "set ys = insert (ys ! i) (set ys - {ys ! i})" using iy by auto
    moreover have "x \<in> set (ys[i := y])" if "x \<in> set ys" "x \<noteq> ys ! i" for x
      using that by (simp add: in_set_update)
    ultimately show ?thesis
      using iy set_update_memI [OF iy, of y] set_update_subset_insert [of ys i y]
      by (auto simp: xs nth_append)
  qed
qed

lemma length_swap_remove [simp]: "length (swap_remove i xs) = length xs - 1"
  by (simp add: swap_remove_def)

lemma scale_down_spec:
  "k \<le> length (ap_pods a) \<Longrightarrow> scale_down E k a w = Returns (a', w', None) \<Longrightarrow>
   length (ap_pods a') = length (ap_pods a) - k \<and> strays E a' w' \<subseteq> strays E a w"
proof (induction k arbitrary: a w)
  case (Suc k)
  obtain i r1 where i: "pick_pod (ap_pods a) (rnd w) = (i, r1)" by fastforce
  define a1 where "a1 = a\<lparr>ap_pods := swap_remove i (ap_pods a)\<rparr>"
  obtain old1 w1 where c: "Pod_Cleanup (kube E) (ap_pods a ! i) (w\<lparr>rnd := r1\<rparr>) = Returns (old1, w1, None)"
    and rest: "scale_down E k a1 w1 = Returns (a', w', None)"
    using Suc.prems(2) i by (auto simp: obind_Returns_iff a1_def Let_def split: option.splits)
  have "ap_pods a \<noteq> []" using Suc.prems(1) by (cases "ap_pods a") simp_all
  then have "i < length (ap_pods a)" using pick_pod_less [OF _ i] by blast
  then have "set (ap_pods a) = insert (ap_pods a ! i) (set (ap_pods a1))"
    using set_swap_remove by (simp add: a1_def)
  then have "strays E a1 w1 \<subseteq> strays E a w"
    using Pod_Cleanup_live [OF c] by (auto simp: strays_def)
  moreover have "k \<le> length (ap_pods a1)" using Suc.prems(1) by (simp add: a1_def)
  ultimately show ?case using Suc.IH [OF _ rest] Suc.prems(1) by (auto simp: a1_def)
qed simp

lemma scale_up_spec:
  assumes "sleep_documented (kube E)"
  shows "scale_up E k a w = Returns (a', w', e) \<Longrightarrow>
     (e = None \<longrightarrow> length (ap_pods a') = length (ap_pods a) + k) \<and> strays E a' w' \<subseteq> strays E a w"
proof (induction k arbitrary: a w)
  case (Suc k)
  obtain p w1 where p: "makePod (ap_Spec a) w = Returns (p, w1)"
    using Suc.prems by (auto simp: obind_Returns_iff)
  then obtain p1 w2 e1 where r: "Pod_Run (sim_args E) (kube E) p w1 = Returns (p1, w2, e1)"
    using Suc.prems by (auto simp: obind_Returns_iff)
  define a1 where "a1 = a\<lparr>ap_pods := ap_pods a @ [p1]\<rparr>"
  have s: "strays E a1 w2 \<subseteq> strays E a w"
    using Pod_Run_live [OF assms r] makePod_live [OF p, of "kube E"] by (auto simp: strays_def a1_def)
  show ?case
  proof (cases e1)
    case None
    then have "scale_up E k a1 w2 = Returns (a', w', e)" using Suc.prems p r by (simp add: a1_def)
    then show ?thesis using Suc.IH s by (fastforce simp: a1_def)
  next
    case (Some err)
    then show ?thesis using Suc.prems p r s by (auto simp: a1_def)
  qed
qed simp



lemma App_Refresh_spec:
  assumes "env_documented E" and "ap_pods a \<noteq> []" and "App_Refresh E a w = Returns (a', w', msg, None)"
  shows "\<exists>i p. i < length (ap_pods a) \<and> ap_pods a' = (ap_pods a)[i := p] \<and>
    (1 < length (ap_pods a) \<longrightarrow> i < length (ap_pods a) - 1) \<and> strays E a' w' \<subseteq> strays E a w"
proof -
  obtain i r1 where i: "pick_pod (ap_pods a) (rnd w) = (i, r1)" by fastforce
  obtain p w1 where p: "makePod (ap_Spec a) (w\<lparr>rnd := r1\<rparr>) = Returns (p, w1)"
    using assms(2,3) i by (auto simp: App_Refresh_def obind_Returns_iff)
  then obtain p1 w2 where r: "Pod_Run (sim_args E) (kube E) p w1 = Returns (p1, w2, None)"
    using assms(2,3) i by (auto simp: App_Refresh_def obind_Returns_iff Let_def split: option.splits)
  then obtain q w3 where c: "Pod_Cleanup (kube E) (ap_pods a ! i) w2 = Returns (q, w', None)"
    and a': "a' = a\<lparr>ap_pods := (ap_pods a)[i := p1]\<rparr>"
    using assms(2,3) i p by (auto simp: App_Refresh_def obind_Returns_iff Let_def split: option.splits)
  have il: "i < length (ap_pods a)" using pick_pod_less [OF assms(2) i] .
  have "Pod_owned x \<subseteq> Pod_owned (ap_pods a ! i) \<union> \<Union> (Pod_owned ` set (ap_pods a'))" if x: "x \<in> set (ap_pods a)" for x
  proof (cases "x = ap_pods a ! i")
    case False
    then have "x \<in> set (ap_pods a')"
      using x by (simp add: a' in_set_update)
    then show ?thesis by blast
  qed simp
  moreover have "p1 \<in> set (ap_pods a')" using il by (simp add: a' set_update_memI)
  ultimately have sub: "\<Union> (Pod_owned ` set (ap_pods a)) \<union> Pod_owned p1 \<subseteq>
      Pod_owned (ap_pods a ! i) \<union> \<Union> (Pod_owned ` set (ap_pods a'))" by blast
  then have "strays E a' w' \<subseteq> strays E a w"
    using Pod_Run_live [OF env_documented_parts(2) [OF assms(1)] r] makePod_live [OF p, of "kube E"] Pod_Cleanup_live [OF c]
    unfolding strays_def live_rnd by blast
  moreover have "i < length (ap_pods a) - 1" if "1 < length (ap_pods a)"
    using i that by (auto simp: pick_pod_def Intn_def)
  ultimately show ?thesis using il a' by auto
qed


lemma NewPod_AppType: "NewPod s w = (p, w') \<Longrightarrow> pd_AppType (p_Spec p) = pd_AppType s"
  by (auto simp: NewPod_def Let_def split: prod.splits if_splits)

lemma sample_app_Spec [simp]: "ap_Spec (sample_app b) = sample_spec PlainType 2"
  by (simp add: sample_app_def empty_application_def)

lemma makePod_sample: "\<exists>p w1. makePod (sample_spec PlainType n) w = Returns (p, w1) \<and> plain_pod p"
proof -
  obtain p w1 where "NewPod \<lparr>pd_ServiceAccount = ''sa'', pd_Node = ''node'', pd_App = ''app'', pd_Namespace = ''ns'',
      pd_UID = [], pd_IP = [], pd_AppType = PlainType\<rparr> (w\<lparr>rnd := rnd w\<rparr>) = (p, w1)" by fastforce
  then show ?thesis
    using NewPod_AppType [of _ "w\<lparr>rnd := rnd w\<rparr>" p w1]
    by (auto simp: makePod_def sample_spec_def plain_pod_def HasProxy_def app_type_defs)
qed


section \<open>What an application consists of\<close>

lemma NewPod_IP: "NewPod s w = (p, w') \<Longrightarrow> pd_IP s = [] \<Longrightarrow>
    pd_IP (p_Spec p) = fst (GetIP (nextIp w)) \<and> nextIp w' = snd (GetIP (nextIp w)) \<and> \<not> p_created p"
  by (auto simp: NewPod_def Let_def split: prod.splits if_splits)

lemma makePod_IP: "makePod s w = Returns (p, w') \<Longrightarrow>
    pd_IP (p_Spec p) = fst (GetIP (nextIp w)) \<and> nextIp w' = snd (GetIP (nextIp w)) \<and> \<not> p_created p"
  by (auto simp: makePod_def obind_Returns_iff dest!: NewPod_IP)

lemma make_pods_draws: "make_pods s n w = Returns (ps, w') \<Longrightarrow>
    map (\<lambda>p. pd_IP (p_Spec p)) ps = draws GetIP n (nextIp w) \<and> (\<forall>p \<in> set ps. \<not> p_created p)"
  by (induction n arbitrary: w ps) (auto simp: obind_Returns_iff dest!: makePod_IP)

lemma NewApplication_Spec: "NewApplication te s w = Returns (a, w') \<Longrightarrow> ap_Spec a = s"
  by (auto simp: NewApplication_def empty_application_def obind_Returns_iff Let_def split: if_splits)

lemma NewApplication_shape:
  assumes "NewApplication te s w = Returns (a, w')" and "as_Instances s \<le> 2 ^ 32"
  shows "length (ap_pods a) = (if as_Type s \<in> {ExternalType, VMType} then 0 else nat (as_Instances s)) \<and>
    distinct (map (\<lambda>p. pd_IP (p_Spec p)) (ap_pods a)) \<and> (\<forall>p \<in> set (ap_pods a). \<not> p_created p) \<and>
    (ap_service a = None \<longleftrightarrow> as_Type s \<in> {ExternalType, VMType}) \<and>
    (ap_serviceEntry a = None \<longleftrightarrow> as_Type s \<notin> {ExternalType, VMType}) \<and>
    (ap_workloadEntry a = None \<longleftrightarrow> as_Type s \<noteq> VMType) \<and> (ap_workloadGroup a = None \<longleftrightarrow> as_Type s \<noteq> VMType) \<and>
    length (ap_kgateways a) = (if as_Type s = WaypointType then 1 else 0) \<and>
    length (ap_configs a) = length (as_Templates s)"
proof -
  obtain configs w1 where c: "make_configs te (as_TemplateDefinitions s) (app_config s) (as_Templates s) w = Returns (configs, w1)"
    using assms(1) by (auto simp: NewApplication_def obind_Returns_iff)
  have "length configs = length tmpls" if "make_configs te ds f tmpls v = Returns (configs, v')" for ds f tmpls v v'
    using that by (induction tmpls arbitrary: v configs) (auto simp: obind_Returns_iff)
  from this [OF c] have lc: "length configs = length (as_Templates s)" .
  show ?thesis
  proof (cases "as_Type s \<in> {ExternalType, VMType}")
    case True
    then show ?thesis
      using assms(1) c lc by (auto simp: NewApplication_def empty_application_def app_type_defs Let_def)
  next
    case False
    then obtain ps where ps: "make_pods s (nat (as_Instances s)) w1 = Returns (ps, w')" "ap_pods a = ps"
      and parts: "ap_service a \<noteq> None" "ap_serviceEntry a = None" "ap_workloadEntry a = None" "ap_workloadGroup a = None"
        "length (ap_kgateways a) = (if as_Type s = WaypointType then 1 else 0)" "ap_configs a = configs"
      using assms(1) c by (auto simp: NewApplication_def empty_application_def obind_Returns_iff Let_def split: if_splits)
    note d = make_pods_draws [OF ps(1)]
    have "length ps = nat (as_Instances s)" using d length_draws by (metis length_map)
    moreover have "nat (as_Instances s) \<le> 2 ^ 32" using assms(2) by (simp add: nat_le_iff)
    then have "distinct (map (\<lambda>p. pd_IP (p_Spec p)) ps)" using d ips.distinct_draws by simp
    ultimately show ?thesis using False parts d ps(2) lc by auto
  qed
qed

text \<open>
  C24: NewApplication creates as many pods as the specification asks for, none of them running yet and
  no two with the same IP address (up to the 2^32 addresses there are), with a service in front and a
  gateway exactly for waypoints; external services and VMs have no pods but a service entry, and VMs
  alone a workload entry and its group.
\<close>

theorem NewApplication_parts:
  assumes "NewApplication te s w = Returns (a, w')" and "as_Instances s \<le> 2 ^ 32"
  shows "length (ap_pods a) = (if as_Type s \<in> {ExternalType, VMType} then 0 else nat (as_Instances s)) \<and>
    distinct (map (\<lambda>p. pd_IP (p_Spec p)) (ap_pods a)) \<and> (\<forall>p \<in> set (ap_pods a). \<not> p_created p) \<and>
    (ap_service a = None \<longleftrightarrow> as_Type s \<in> {ExternalType, VMType}) \<and>
    (ap_serviceEntry a = None \<longleftrightarrow> as_Type s \<notin> {ExternalType, VMType}) \<and>
    (ap_workloadEntry a = None \<longleftrightarrow> as_Type s \<noteq> VMType) \<and> (ap_workloadGroup a = None \<longleftrightarrow> as_Type s \<noteq> VMType) \<and>
    length (ap_kgateways a) = (if as_Type s = WaypointType then 1 else 0) \<and>
    length (ap_configs a) = length (as_Templates s)"
  by (rule NewApplication_shape [OF assms])

lemma NewApplication_parts_witness:
  "\<exists>a w'. NewApplication (engine memory_sim) (sample_spec PlainType 1) memory_world = Returns (a, w') \<and>
     length (ap_pods a) = 1 \<and> ap_service a \<noteq> None"
proof -
  obtain p w1 where "makePod (sample_spec PlainType 1) memory_world = Returns (p, w1)"
    using makePod_sample by blast
  then have "\<exists>a w'. NewApplication (engine memory_sim) (sample_spec PlainType 1) memory_world = Returns (a, w')"
    by (simp add: NewApplication_def sample_spec_def app_type_defs Let_def)
  then obtain a w' where run: "NewApplication (engine memory_sim) (sample_spec PlainType 1) memory_world = Returns (a, w')" by blast
  show ?thesis using NewApplication_parts [OF run] run by (auto simp: sample_spec_def app_type_defs)
qed

end
