(* ===== verification/Cluster_Config.thy ===== *)
theory Cluster_Config
  imports Application
begin

text \<open>
  The configuration of a simulated cluster (sims/cluster/config.go): its structure, its defaults, the
  sizes it asks for, and reading it. Durations are nanoseconds; counts are unbounded integers (the
  program's are 64 bits wide, far beyond any cluster).
\<close>

section \<open>Structure\<close>

record ApplicationConfig =
  ac_Name :: string
  ac_Type :: AppType
  ac_Replicas :: int
  ac_Pods :: int
  ac_Labels :: smap
  ac_Templates :: "ConfigTemplate list"
  ac_GetNode :: "rng \<Rightarrow> (string \<times> rng) outcome"

record NamespaceConfig =
  nc_GracePeriod :: int
  nc_Name :: string
  nc_Replicas :: int
  nc_Applications :: "ApplicationConfig list"
  nc_Templates :: "ConfigTemplate list"
  nc_Waypoint :: string

record JitterConfig =
  jc_Workloads :: int
  jc_Config :: int

record NodeConfig =
  nco_Name :: string
  nco_Ztunnel :: bool
  nco_Count :: int

record ClusterConfig =
  cc_GracePeriod :: int
  cc_Jitter :: JitterConfig
  cc_Namespaces :: "NamespaceConfig list"
  cc_Nodes :: "NodeConfig list"
  cc_StableNames :: bool
  cc_NodeMetadata :: smap
  cc_Templates :: smap

text \<open>The zero values. A nil \<open>GetNode\<close> panics when it is called.\<close>

definition zero_application :: ApplicationConfig where
  "zero_application = \<lparr>ac_Name = [], ac_Type = [], ac_Replicas = 0, ac_Pods = 0, ac_Labels = Map.empty, ac_Templates = [],
     ac_GetNode = (\<lambda>r. Panics ''nil pointer dereference'')\<rparr>"

definition zero_namespace :: NamespaceConfig where
  "zero_namespace = \<lparr>nc_GracePeriod = 0, nc_Name = [], nc_Replicas = 0, nc_Applications = [], nc_Templates = [],
     nc_Waypoint = []\<rparr>"

definition zero_config :: ClusterConfig where
  "zero_config = \<lparr>cc_GracePeriod = 0, cc_Jitter = \<lparr>jc_Workloads = 0, jc_Config = 0\<rparr>, cc_Namespaces = [], cc_Nodes = [],
     cc_StableNames = False, cc_NodeMetadata = Map.empty, cc_Templates = Map.empty\<rparr>"

section \<open>Defaults\<close>

definition default_application :: "ApplicationConfig \<Rightarrow> ApplicationConfig" where
  "default_application dp =
     (let dp1 = (if ac_Replicas dp = 0 then dp\<lparr>ac_Replicas := 1\<rparr> else dp)
      in (if ac_Type dp1 = [] then dp1\<lparr>ac_Type := PlainType\<rparr> else dp1))"

definition default_namespace :: "NamespaceConfig \<Rightarrow> NamespaceConfig" where
  "default_namespace ns =
     (let ns1 = (if nc_Replicas ns = 0 then ns\<lparr>nc_Replicas := 1\<rparr> else ns)
      in ns1\<lparr>nc_Applications := map default_application (nc_Applications ns1)\<rparr>)"

definition ApplyDefaults :: "ClusterConfig \<Rightarrow> ClusterConfig" where
  "ApplyDefaults c =
     (let ret = (if cc_Nodes c = [] then c\<lparr>cc_Nodes := [\<lparr>nco_Name = ''default'', nco_Ztunnel = False, nco_Count = 1\<rparr>]\<rparr> else c)
      in ret\<lparr>cc_Namespaces := map default_namespace (cc_Namespaces ret)\<rparr>)"

section \<open>Sizes\<close>

fun app_pods :: "ApplicationConfig list \<Rightarrow> int \<Rightarrow> int" where
  "app_pods [] apps = apps"
| "app_pods (ac # as) apps = app_pods as (apps + ac_Replicas ac * ac_Pods ac)"

fun pod_count :: "NamespaceConfig list \<Rightarrow> int \<Rightarrow> int" where
  "pod_count [] cnt = cnt"
| "pod_count (ns # nss) cnt = pod_count nss (cnt + app_pods (nc_Applications ns) 0 * nc_Replicas ns)"

definition PodCount :: "ClusterConfig \<Rightarrow> int" where
  "PodCount c = pod_count (cc_Namespaces c) 0"

fun node_count :: "NodeConfig list \<Rightarrow> int \<Rightarrow> int" where
  "node_count [] cnt = cnt"
| "node_count (n # ns) cnt = node_count ns (cnt + nco_Count n)"

definition NodeCount :: "ClusterConfig \<Rightarrow> int" where
  "NodeCount c = node_count (cc_Nodes c) 0"

text \<open>\<open>logClusterConfig\<close>: the three numbers it reports (namespaces, applications, pods).\<close>

fun log_applications :: "int \<Rightarrow> ApplicationConfig list \<Rightarrow> int \<times> int \<Rightarrow> int \<times> int" where
  "log_applications r [] acc = acc"
| "log_applications r (ac # as) (applications, pods) =
     log_applications r as (applications + ac_Replicas ac * r, pods + ac_Replicas ac * ac_Pods ac * r)"

fun log_namespaces :: "NamespaceConfig list \<Rightarrow> int \<times> int \<times> int \<Rightarrow> int \<times> int \<times> int" where
  "log_namespaces [] acc = acc"
| "log_namespaces (ns # nss) (namespaces, acc) =
     log_namespaces nss (namespaces + nc_Replicas ns, log_applications (nc_Replicas ns) (nc_Applications ns) acc)"

definition logClusterConfig :: "ClusterConfig \<Rightarrow> int \<times> int \<times> int" where
  "logClusterConfig c = log_namespaces (cc_Namespaces c) (0, 0, 0)"

section \<open>Reading\<close>

definition defaultConfig :: ClusterConfig where
  "defaultConfig = zero_config\<lparr>cc_Namespaces := [zero_namespace\<lparr>nc_Applications := [zero_application\<lparr>ac_Pods := 1\<rparr>]\<rparr>]\<rparr>"

text \<open>
  \<open>unmarshal\<close> is the YAML decoder, \<open>builtin\<close> the templates of LoadBuiltin. A built-in template is
  taken only where the configuration has none of its name.
\<close>

definition ReadConfig :: "(string \<Rightarrow> gerror + ClusterConfig) \<Rightarrow> smap \<Rightarrow> string \<Rightarrow> gerror + ClusterConfig" where
  "ReadConfig unmarshal builtin cfgBytes =
     (case unmarshal cfgBytes of
        Inl err \<Rightarrow> Inl (ErrV ''failed to unmarshall configFile: '' err)
      | Inr config \<Rightarrow> Inr (ApplyDefaults (config\<lparr>cc_Templates := builtin ++ cc_Templates config\<rparr>)))"

definition ReadConfigFile :: "(string \<Rightarrow> gerror + ClusterConfig) \<Rightarrow> smap \<Rightarrow> (gerror + string) \<Rightarrow>
    (string \<Rightarrow> gerror + string) \<Rightarrow> string \<Rightarrow> gerror + ClusterConfig" where
  "ReadConfigFile unmarshal builtin stdin read_file filename =
     (if filename = [] then Inr defaultConfig
      else (case (if filename = ''-'' then stdin else read_file filename) of
              Inl err \<Rightarrow> Inl (ErrText (''failed to read configFile file: '' @ filename))
            | Inr bytes \<Rightarrow> ReadConfig unmarshal builtin bytes))"

section \<open>Facts\<close>

lemma default_application_idem [simp]: "default_application (default_application d) = default_application d"
  by (simp add: default_application_def Let_def PlainType_def)

lemma default_namespace_idem [simp]: "default_namespace (default_namespace ns) = default_namespace ns"
  by (simp add: default_namespace_def Let_def comp_def)

lemma ApplyDefaults_idem: "ApplyDefaults (ApplyDefaults c) = ApplyDefaults c"
  by (simp add: ApplyDefaults_def Let_def comp_def)

lemma app_pods_sum: "app_pods as n = n + (\<Sum>ac \<leftarrow> as. ac_Replicas ac * ac_Pods ac)"
  by (induction as n rule: app_pods.induct) simp_all

lemma pod_count_sum:
  "pod_count nss n = n + (\<Sum>ns \<leftarrow> nss. (\<Sum>ac \<leftarrow> nc_Applications ns. ac_Replicas ac * ac_Pods ac) * nc_Replicas ns)"
  by (induction nss n rule: pod_count.induct) (simp_all add: app_pods_sum)

lemma node_count_sum: "node_count ns n = n + (\<Sum>nd \<leftarrow> ns. nco_Count nd)"
  by (induction ns n rule: node_count.induct) simp_all

lemma log_applications_pods: "snd (log_applications r as acc) = snd acc + (\<Sum>ac \<leftarrow> as. ac_Replicas ac * ac_Pods ac) * r"
  by (induction r as acc rule: log_applications.induct) (simp_all add: algebra_simps)

lemma log_namespaces_pods:
  "snd (snd (log_namespaces nss acc)) =
     snd (snd acc) + (\<Sum>ns \<leftarrow> nss. (\<Sum>ac \<leftarrow> nc_Applications ns. ac_Replicas ac * ac_Pods ac) * nc_Replicas ns)"
  by (induction nss acc rule: log_namespaces.induct) (simp_all add: log_applications_pods)

text \<open>A configuration that is ready for use: nothing is left at its zero value.\<close>

definition config_ready :: "ClusterConfig \<Rightarrow> bool" where
  "config_ready c \<longleftrightarrow> cc_Nodes c \<noteq> [] \<and>
     list_all (\<lambda>ns. nc_Replicas ns \<noteq> 0 \<and> list_all (\<lambda>ac. ac_Replicas ac \<noteq> 0 \<and> ac_Type ac \<noteq> []) (nc_Applications ns)) (cc_Namespaces c)"

lemma ApplyDefaults_ready: "config_ready (ApplyDefaults c)"
  by (auto simp: config_ready_def ApplyDefaults_def default_namespace_def default_application_def Let_def list_all_iff PlainType_def
      split: if_splits)



text \<open>
  The configuration used without a file is not complete: its replica counts are zero, so a cluster built
  from it has no pod (and no node to put one on).
\<close>

lemma default_config_empty: "ReadConfigFile um b i rd [] = Inr defaultConfig" "\<not> config_ready defaultConfig" "PodCount defaultConfig = 0"
  by (simp_all add: ReadConfigFile_def config_ready_def defaultConfig_def zero_config_def zero_namespace_def zero_application_def
      PodCount_def)

end
