(* ===== verification/Cluster_Parts.thy ===== *)
theory Cluster_Parts
  imports App_Laws Cluster_Config
begin

text \<open>
  The Kubernetes objects of a cluster: namespaces (sims/cluster/kubernetes_namespace.go) and nodes with
  their leases and ztunnels (sims/cluster/node.go).
\<close>

section \<open>Kubernetes namespaces\<close>

record KubernetesNamespaceSpec =
  kn_Name :: string
  kn_Labels :: smap

definition getKubernetesNamespace :: "KubernetesNamespaceSpec \<Rightarrow> kobj" where
  "getKubernetesNamespace s =
     (new_object ''Namespace'' NamespaceSpec)
       \<lparr>o_name := kn_Name s, o_labels := kn_Labels s, o_status := Status (NamespaceStatus ''Active'')\<rparr>"

text \<open>
  The retry loop of Run with \<open>k\<close> attempts left; \<open>sleep.UntilContext\<close> reports whether the context was
  still alive when the wait ended.
\<close>

fun apply_namespace :: "'s kenv \<Rightarrow> KubernetesNamespaceSpec \<Rightarrow> nat \<Rightarrow> gerror option \<Rightarrow> 's world \<Rightarrow> gerror option \<times> 's world" where
  "apply_namespace env n 0 err w = (err, w)"
| "apply_namespace env n (Suc k) err w =
     (case Apply env (Concrete ''Namespace'') (getKubernetesNamespace n) w of
        (o1, None, w1) \<Rightarrow> (None, w1)
      | (o1, Some e, w1) \<Rightarrow>
          (let w2 = ctx_sleep (kruntime env) (500 * Millisecond) w1
           in if IsDone (kruntime env) w2 then (Some e, w2) else apply_namespace env n k (Some e) w2))"

definition KubernetesNamespace_Run :: "'s kenv \<Rightarrow> (KubernetesNamespaceSpec, 's world) action" where
  "KubernetesNamespace_Run env n w = (case apply_namespace env n 100 None w of (e, w1) \<Rightarrow> Returns (n, w1, e))"

definition KubernetesNamespace_Cleanup :: "'s kenv \<Rightarrow> (KubernetesNamespaceSpec, 's world) action" where
  "KubernetesNamespace_Cleanup env n w = delete_obj env ''Namespace'' (getKubernetesNamespace n) n w"

lemma apply_namespace_live:
  assumes "retry_documented env" and "sleep_documented env"
  shows "apply_namespace env n k err w = (e, w') \<Longrightarrow>
    live env w' \<subseteq> insert (obj_key ''Namespace'' (getKubernetesNamespace n)) (live env w)"
proof (induction k arbitrary: err w)
  case (Suc k)
  obtain o1 e1 w1 where a: "Apply env (Concrete ''Namespace'') (getKubernetesNamespace n) w = (o1, e1, w1)"
    by (metis prod_cases3)
  have l1: "live env w1 \<subseteq> insert (obj_key ''Namespace'' (getKubernetesNamespace n)) (live env w)"
    using Apply_live [OF assms(1) a] by simp
  define w2 where "w2 = ctx_sleep (kruntime env) (500 * Millisecond) w1"
  have l2: "live env w2 = live env w1" using sleep_live [OF assms(2)] by (simp add: w2_def)
  show ?case
  proof (cases e1)
    case None
    then show ?thesis using Suc.prems a l1 by simp
  next
    case (Some err1)
    show ?thesis
    proof (cases "IsDone (kruntime env) w2")
      case True
      then show ?thesis using Suc.prems a Some l1 l2 by (simp add: w2_def Let_def)
    next
      case False
      then have "apply_namespace env n k (Some err1) w2 = (e, w')"
        using Suc.prems a Some by (simp add: w2_def Let_def)
      then show ?thesis using Suc.IH l1 l2 by blast
    qed
  qed
qed auto

section \<open>Nodes\<close>

record NodeSpecArgs =
  no_Name :: string
  no_Region :: string
  no_Zone :: string
  no_Ztunnel :: bool

record Node =
  n_Spec :: NodeSpecArgs
  n_uid :: string
  n_start :: int
  n_xds :: "xds_sim option"

definition NewNode :: "NodeSpecArgs \<Rightarrow> 's world \<Rightarrow> Node" where
  "NewNode s w = \<lparr>n_Spec = s, n_uid = [], n_start = now w, n_xds = None\<rparr>"

definition node_resources :: "string \<rightharpoonup> int" where
  "node_resources = [''cpu'' \<mapsto> 32, ''memory'' \<mapsto> 256 * 1024 * 1024 * 1024, ''pods'' \<mapsto> 255]"

definition getNode :: "Node \<Rightarrow> int \<Rightarrow> kobj" where
  "getNode n time =
     (let s = n_Spec n
      in (new_object ''Node'' (NodeSpec [\<lparr>tn_key = ''pilot-load.istio.io/node'', tn_value = ''fake'', tn_effect = ''NoSchedule''\<rparr>]))
           \<lparr>o_name := no_Name s,
            o_labels := [''topology.kubernetes.io/zone'' \<mapsto> no_Zone s, ''topology.kubernetes.io/region'' \<mapsto> no_Region s,
                         ''kubernetes.io/hostname'' \<mapsto> no_Name s, ''kubernetes.io/role'' \<mapsto> ''agent'',
                         ''pilot-load.istio.io/node'' \<mapsto> ''fake''],
            o_status := Status (NodeStatus
              \<lparr>nd_capacity = node_resources, nd_allocatable = node_resources, nd_phase = ''Running'',
               nd_conditions = [\<lparr>ncd_type = ''Ready'', ncd_reason = ''KubeletReady'', ncd_message = ''kubelet is posting ready status'',
                                 ncd_status = ''True'', ncd_lastHeartbeatTime = time, ncd_lastTransitionTime = n_start n\<rparr>],
               nd_nodeInfo = [''kubeletVersion'' \<mapsto> ''fake'', ''kubeProxyVersion'' \<mapsto> ''fake'', ''operatingSystem'' \<mapsto> ''linux'',
                              ''architecture'' \<mapsto> ''amd64'']\<rparr>)\<rparr>)"

definition getLease :: "Node \<Rightarrow> int \<Rightarrow> kobj" where
  "getLease n time =
     (let s = n_Spec n
      in (new_object ''Lease'' (LeaseSpec
            \<lparr>ls_owner = \<lparr>ow_apiVersion = ''v1'', ow_kind = ''Node'', ow_name = no_Name s, ow_uid = n_uid n\<rparr>,
             ls_holderIdentity = no_Name s, ls_durationSeconds = 40, ls_renewTime = time\<rparr>))
           \<lparr>o_name := no_Name s, o_namespace := ''kube-node-lease''\<rparr>)"

text \<open>
  One turn of the goroutine that renews the lease while the context lasts: None when it ends, otherwise
  the time until the next turn in seconds.
\<close>

definition lease_tick :: "'s kenv \<Rightarrow> Node \<Rightarrow> 's world \<Rightarrow> nat option \<times> 's world" where
  "lease_tick env n w =
     (if ctx_done (kruntime env) w then (None, w)
      else case Apply env (Concrete ''Lease'') (getLease n (now w)) w of
             (o1, Some err, w1) \<Rightarrow> (Some 1, w1)
           | (o1, None, w1) \<Rightarrow> (Some 20, w1))"

definition node_xds :: "Node \<Rightarrow> string \<Rightarrow> xds_sim" where
  "node_xds n ip =
     \<lparr>x_Labels = Map.empty, x_Metadata = Map.empty, x_Namespace = ''istio-system'', x_ServiceAccount = [],
      x_Name = ''ztunnel-'' @ no_Name (n_Spec n), x_IP = ip, x_Cluster = ''Kubernetes'', x_AppType = ZtunnelType,
      x_Delta = True, x_cancel = None, x_done = None\<rparr>"

text \<open>Run applies the node, starts the lease goroutine (whose turns are \<open>lease_tick\<close>) and the ztunnel.\<close>

definition Node_Run :: "args \<Rightarrow> 's kenv \<Rightarrow> (Node, 's world) action" where
  "Node_Run ag env n w =
     (case ApplyRes env (Concrete ''Node'') (getNode n (now w)) w of
        (nm, Some err, w1) \<Rightarrow> Returns (n, w1, Some err)
      | (nm, None, w1) \<Rightarrow>
          (let n1 = n\<lparr>n_uid := (case nm of None \<Rightarrow> [] | Some x \<Rightarrow> o_uid x)\<rparr>
           in if no_Ztunnel (n_Spec n1) then
                (let (ip, next) = GetIP (nextIp w1)
                 in obind (GrpcOptions (ag_Auth ag) ''ztunnel'' ''istio-system'') (\<lambda>opts.
                      obind (xds_Run ag (node_xds n1 ip) (w1\<lparr>nextIp := next\<rparr>)) (\<lambda>(x, w2, e).
                        Returns (n1\<lparr>n_xds := Some x\<rparr>, w2, e))))
              else Returns (n1, w1, None)))"

definition Node_Cleanup :: "'s kenv \<Rightarrow> (Node, 's world) action" where
  "Node_Cleanup env n w =
     obind (case n_xds n of
              None \<Rightarrow> Returns (n, w, None)
            | Some x \<Rightarrow> obind (xds_Cleanup x w) (\<lambda>(x1, w1, e1). Returns (n\<lparr>n_xds := Some x1\<rparr>, w1, e1)))
       (\<lambda>(n1, w1, xdsErr).
         obind (Delete env (Concrete ''Node'') (getNode n1 (now w1)) w1) (\<lambda>(e2, w2).
           obind (Delete env (Concrete ''Lease'') (getLease n1 (now w2)) w2) (\<lambda>(e3, w3).
             Returns (n1, w3, errors_Join [xdsErr, e2, e3]))))"

section \<open>Effects of nodes\<close>

definition Node_owned :: "Node \<Rightarrow> key set" where
  "Node_owned n = {(''Node'', [], no_Name (n_Spec n)), (''Lease'', ''kube-node-lease'', no_Name (n_Spec n))}"

lemma node_keys:
  "obj_key ''Node'' (getNode n t) = (''Node'', [], no_Name (n_Spec n))"
  "obj_key ''Lease'' (getLease n t) = (''Lease'', ''kube-node-lease'', no_Name (n_Spec n))"
  by (simp_all add: obj_key_def getNode_def getLease_def new_object_def Let_def)

lemma Node_Run_live:
  assumes "retry_documented env" and "Node_Run ag env n w = Returns (n', w', e)"
  shows "live env w' \<subseteq> live env w \<union> Node_owned n' \<and> n_Spec n' = n_Spec n"
proof -
  obtain nm e1 w1 where a: "ApplyRes env (Concrete ''Node'') (getNode n (now w)) w = (nm, e1, w1)"
    by (metis prod_cases3)
  have l1: "live env w1 \<subseteq> live env w \<union> Node_owned n"
    using ApplyRes_live [OF assms(1) a] by (auto simp: Node_owned_def node_keys)
  show ?thesis
  proof (cases e1)
    case (Some err)
    then show ?thesis using assms(2) a l1 by (simp add: Node_Run_def)
  next
    case None
    define n1 where "n1 = n\<lparr>n_uid := (case nm of None \<Rightarrow> [] | Some x \<Rightarrow> o_uid x)\<rparr>"
    have same: "n_Spec n1 = n_Spec n" "Node_owned n1 = Node_owned n" by (simp_all add: n1_def Node_owned_def)
    obtain ip nx where ip: "GetIP (nextIp w1) = (ip, nx)" by (rule prod.exhaust)
    show ?thesis
    proof (cases "no_Ztunnel (n_Spec n1)")
      case True
      then obtain x where "xds_Run ag (node_xds n1 ip) (w1\<lparr>nextIp := nx\<rparr>) = Returns (x, w', e)" "n' = n1\<lparr>n_xds := Some x\<rparr>"
        using assms(2) a None ip unfolding Node_Run_def n1_def [symmetric]
        by (auto simp: n1_def [symmetric] obind_Returns_iff Let_def split: prod.splits)
      then show ?thesis using xds_Run_live [of ag "node_xds n1 ip"] l1 same by (fastforce simp: Node_owned_def)
    next
      case False
      then have "n' = n1 \<and> w' = w1" using assms(2) a None unfolding Node_Run_def by (simp add: n1_def [symmetric] Let_def)
      then show ?thesis using l1 same by simp
    qed
  qed
qed

lemma lease_tick_live:
  assumes "retry_documented env"
  shows "live env (snd (lease_tick env n w)) \<subseteq> live env w \<union> Node_owned n"
proof -
  obtain o1 e1 w1 where a: "Apply env (Concrete ''Lease'') (getLease n (now w)) w = (o1, e1, w1)" by (metis prod_cases3)
  show ?thesis
    using Apply_live [OF assms a] a by (auto simp: lease_tick_def Node_owned_def node_keys split: option.splits)
qed

lemma errors_Join_None: "errors_Join es = None \<longleftrightarrow> (\<forall>e \<in> set es. e = None)"
  by (induction es) (auto simp: errors_Join_def split: option.splits)

lemma Node_Cleanup_live:
  assumes "Node_Cleanup env n w = Returns (n', w', e)"
  shows "live env w' \<subseteq> live env w \<and> (e = None \<longrightarrow> live env w' \<inter> Node_owned n = {}) \<and> Node_owned n' = Node_owned n"
proof -
  obtain w1 e1 where x: "(case n_xds n of None \<Rightarrow> Returns (n, w, None)
      | Some x \<Rightarrow> obind (xds_Cleanup x w) (\<lambda>(x1, w1, e1). Returns (n\<lparr>n_xds := Some x1\<rparr>, w1, e1))) = Returns (n', w1, e1)"
    and rest: "obind (Delete env (Concrete ''Node'') (getNode n' (now w1)) w1) (\<lambda>(e2, w2).
           obind (Delete env (Concrete ''Lease'') (getLease n' (now w2)) w2) (\<lambda>(e3, w3).
             Returns (n', w3, errors_Join [e1, e2, e3]))) = Returns (n', w', e)"
    using assms by (auto simp: Node_Cleanup_def obind_Returns_iff)
  have l1: "live env w1 = live env w" and spec: "n_Spec n' = n_Spec n"
    using x by (auto simp: obind_Returns_iff split: option.splits dest!: xds_Cleanup_live [where env = env])
  obtain e2 w2 e3 where d: "Delete env (Concrete ''Node'') (getNode n' (now w1)) w1 = Returns (e2, w2)"
    "Delete env (Concrete ''Lease'') (getLease n' (now w2)) w2 = Returns (e3, w')" "e = errors_Join [e1, e2, e3]"
    using rest by (auto simp: obind_Returns_iff)
  have k1: "live env w2 \<subseteq> live env w1" "e2 = None \<Longrightarrow> obj_key ''Node'' (getNode n' (now w1)) \<notin> live env w2"
    using Delete_live [OF d(1)] by auto
  have k2: "live env w' \<subseteq> live env w2" "e3 = None \<Longrightarrow> obj_key ''Lease'' (getLease n' (now w2)) \<notin> live env w'"
    using Delete_live [OF d(2)] by auto
  have "e = None \<Longrightarrow> e2 = None \<and> e3 = None" using errors_Join_None [of "[e1, e2, e3]"] d(3) by auto
  then show ?thesis using l1 k1 k2 spec unfolding node_keys by (auto simp: Node_owned_def)
qed

text \<open>
  A lease renewed after the node's Cleanup is back: the goroutine ends with the context, not with the node.
\<close>

fun lease_ticks :: "'s kenv \<Rightarrow> nat \<Rightarrow> Node \<Rightarrow> 's world \<Rightarrow> 's world" where
  "lease_ticks env 0 n w = w"
| "lease_ticks env (Suc k) n w = lease_ticks env k n (snd (lease_tick env n w))"

lemma lease_ticks_live:
  assumes "retry_documented env"
  shows "live env (lease_ticks env k n w) \<subseteq> live env w \<union> Node_owned n"
proof (induction k arbitrary: w)
  case (Suc k)
  show ?case
    using Suc [of "snd (lease_tick env n w)"] lease_tick_live [OF assms, of n w] by auto
qed simp

text \<open>
  However often a node's lease has been renewed, a Cleanup of the node that reports no error leaves
  neither the node nor its lease, and nothing else, of what its Run and the renewals made.
\<close>

theorem Node_cleanup_leaves_nothing:
  assumes "retry_documented env" and "Node_Run ag env n w = Returns (n1, w1, e1)"
    and "Node_Cleanup env n1 (lease_ticks env k n1 w1) = Returns (n2, w2, None)"
  shows "live env w2 \<subseteq> live env w - Node_owned n1"
  using Node_Run_live [OF assms(1,2)] lease_ticks_live [OF assms(1), of k n1 w1] Node_Cleanup_live [OF assms(3)] by blast

definition sample_node :: Node where
  "sample_node = \<lparr>n_Spec = \<lparr>no_Name = ''n'', no_Region = ''region'', no_Zone = ''zone'', no_Ztunnel = False\<rparr>, n_uid = [],
     n_start = 0, n_xds = None\<rparr>"

lemma memory_Node_Cleanup: "n_xds n = None \<Longrightarrow> \<exists>w'. Node_Cleanup memory_env n w = Returns (n, w', None)"
proof -
  assume n: "n_xds n = None"
  obtain w1 where d1: "Delete memory_env (Concrete ''Node'') (getNode n (now w)) w = Returns (None, w1)"
    using memory_delete by blast
  obtain w2 where d2: "Delete memory_env (Concrete ''Lease'') (getLease n (now w1)) w1 = Returns (None, w2)"
    using memory_delete by blast
  show ?thesis using n d1 d2 by (simp add: Node_Cleanup_def errors_Join_None)
qed

lemma Node_cleanup_leaves_nothing_witness:
  "\<exists>n1 w1 w2. Node_Run small_args memory_env sample_node memory_world = Returns (n1, w1, None) \<and>
     Node_Cleanup memory_env n1 (lease_ticks memory_env 2 n1 w1) = Returns (n1, w2, None) \<and>
     live memory_env w2 \<subseteq> live memory_env memory_world - Node_owned n1"
proof -
  have "\<exists>n1 w1. Node_Run small_args memory_env sample_node memory_world = Returns (n1, w1, None) \<and> n_xds n1 = None"
    by (simp add: Node_Run_def sample_node_def ApplyRes_def internalApply_def exec_def memory_env_def memory_world_def not_found_def
        hasStatus_def hasStatusInternal_def getNode_def updateStatus_def updateStatus_fn_def refresh_version_def obj_key_def
        numeral_3_eq_3 Let_def next_version_def new_object_def)
  then obtain n1 w1 where run: "Node_Run small_args memory_env sample_node memory_world = Returns (n1, w1, None)" and x: "n_xds n1 = None"
    by blast
  obtain w2 where cl: "Node_Cleanup memory_env n1 (lease_ticks memory_env 2 n1 w1) = Returns (n1, w2, None)"
    using memory_Node_Cleanup [OF x] by blast
  show ?thesis using Node_cleanup_leaves_nothing [OF memory_retry run cl] run cl by blast
qed

text \<open>
  A failing start is cleaned up while the context still lasts (\<open>ExecuteSimulations\<close>), and then the
  goroutine's next turn brings the lease back.
\<close>

lemma lease_returns:
  "(''Lease'', ''kube-node-lease'', ''n'') \<in> live memory_env (snd (lease_tick memory_env sample_node memory_world))"
  by (simp add: lease_tick_def sample_node_def Apply_def internalApply_def exec_def memory_env_def memory_world_def not_found_def
      hasStatus_def hasStatusInternal_def getLease_def obj_key_def live_def new_object_def Let_def next_version_def)

end
