(* ===== verification/Cluster_Namespace.thy ===== *)
theory Cluster_Namespace
  imports Cluster_Parts
begin

text \<open>
  Namespaces of a cluster (sims/cluster/namespace.go): the Kubernetes namespace, its configuration and
  service account, and its applications.
\<close>

section \<open>Building a namespace\<close>

record NamespaceSpecArgs =
  nsp_Name :: string
  nsp_TemplateDefinitions :: smap
  nsp_Deployments :: "ApplicationConfig list"
  nsp_Templates :: "ConfigTemplate list"
  nsp_StableNames :: bool
  nsp_Waypoint :: string
  nsp_GracePeriod :: int

record Namespace =
  ns_Spec :: NamespaceSpecArgs
  ns_ns :: KubernetesNamespaceSpec
  ns_sa :: "(string \<times> ServiceAccountSpecArgs) list"
  ns_deployments :: "Application list"
  ns_configs :: "Templated list"

text \<open>\<open>strings.Cut(s, "/")\<close>: None when there is no separator.\<close>

definition cut_slash :: "string \<Rightarrow> (string \<times> string) option" where
  "cut_slash s =
     (if CHR ''/'' \<in> set s
      then Some (takeWhile (\<lambda>c. c \<noteq> CHR ''/'') s, drop 1 (dropWhile (\<lambda>c. c \<noteq> CHR ''/'') s))
      else None)"

definition ns_labels :: "string \<Rightarrow> smap" where
  "ns_labels waypoint =
     (let nsLabels = [''istio-injection'' \<mapsto> ''enabled'']
      in if waypoint \<noteq> [] then
           (case cut_slash waypoint of
              Some (ns, name) \<Rightarrow>
                nsLabels(''istio.io/use-waypoint'' \<mapsto> name @ ''-static'', ''istio.io/use-waypoint-namespace'' \<mapsto> ns)
            | None \<Rightarrow> nsLabels(''istio.io/use-waypoint'' \<mapsto> waypoint @ ''-static''))
         else nsLabels)"

definition app_spec :: "NamespaceSpecArgs \<Rightarrow> ApplicationConfig \<Rightarrow> string \<Rightarrow> ApplicationSpec" where
  "app_spec n d suffix =
     \<lparr>as_App = StringDefault (ac_Name d) ''app'' @ ''-'' @ suffix, as_Node = ac_GetNode d, as_Namespace = nsp_Name n,
      as_ServiceAccount = ''default'', as_Instances = ac_Pods d, as_Type = ac_Type d,
      as_TemplateDefinitions = nsp_TemplateDefinitions n, as_Templates = ac_Templates d, as_Labels = ac_Labels d\<rparr>"

definition createApplication :: "templating \<Rightarrow> NamespaceSpecArgs \<Rightarrow> ApplicationConfig \<Rightarrow> string \<Rightarrow> 's world \<Rightarrow>
    (Application \<times> 's world) outcome" where
  "createApplication te n d suffix w = NewApplication te (app_spec n d suffix) w"

text \<open>The replicas of deployment number \<open>idx\<close>, from replica \<open>r\<close> on, with \<open>k\<close> of them left.\<close>

fun make_replicas :: "templating \<Rightarrow> NamespaceSpecArgs \<Rightarrow> nat \<Rightarrow> ApplicationConfig \<Rightarrow> nat \<Rightarrow> nat \<Rightarrow> 's world \<Rightarrow>
    (Application list \<times> 's world) outcome" where
  "make_replicas te s idx d r 0 w = Returns ([], w)"
| "make_replicas te s idx d r (Suc k) w =
     (let (suffix, r1) = GenUIDOrStableIdentifier (nsp_StableNames s) idx r (rnd w);
          suffix1 = (if ac_Type d = WaypointType then ''static'' else suffix)
      in obind (createApplication te s d suffix1 (w\<lparr>rnd := r1\<rparr>)) (\<lambda>(a, w1).
           obind (make_replicas te s idx d (Suc r) k w1) (\<lambda>(rest, w2). Returns (a # rest, w2))))"

fun make_deployments :: "templating \<Rightarrow> NamespaceSpecArgs \<Rightarrow> nat \<Rightarrow> ApplicationConfig list \<Rightarrow> 's world \<Rightarrow>
    (Application list \<times> 's world) outcome" where
  "make_deployments te s idx [] w = Returns ([], w)"
| "make_deployments te s idx (d # ds) w =
     obind (make_replicas te s idx d 0 (nat (ac_Replicas d)) w) (\<lambda>(as, w1).
       obind (make_deployments te s (Suc idx) ds w1) (\<lambda>(rest, w2). Returns (as @ rest, w2)))"

definition NewNamespace :: "templating \<Rightarrow> NamespaceSpecArgs \<Rightarrow> 's world \<Rightarrow> (Namespace \<times> 's world) outcome" where
  "NewNamespace te s w =
     obind (make_configs te (nsp_TemplateDefinitions s)
              (\<lambda>tmpl. (ct_Config tmpl)(''Namespace'' \<mapsto> CStr (nsp_Name s))) (nsp_Templates s) w) (\<lambda>(configs, w1).
       obind (make_deployments te s 0 (nsp_Deployments s) w1) (\<lambda>(deps, w2).
         Returns (\<lparr>ns_Spec = s, ns_ns = \<lparr>kn_Name = nsp_Name s, kn_Labels = ns_labels (nsp_Waypoint s)\<rparr>,
                   ns_sa = [(''default'', \<lparr>sa_Namespace = nsp_Name s, sa_Name = ''default''\<rparr>)],
                   ns_deployments = deps, ns_configs = configs\<rparr>, w2)))"

section \<open>Its simulations\<close>

datatype ns_sim =
    NNamespace KubernetesNamespaceSpec
  | NConfig Templated
  | NServiceAccount ServiceAccountSpecArgs
  | NApp Application

fun ns_sim_run :: "'s simenv \<Rightarrow> (ns_sim, 's world) action" where
  "ns_sim_run E (NNamespace x) = lift_sim NNamespace (KubernetesNamespace_Run (kube E)) x"
| "ns_sim_run E (NConfig x) = lift_sim NConfig (Templated_Run (engine E) (kube E)) x"
| "ns_sim_run E (NServiceAccount x) = lift_sim NServiceAccount (ServiceAccount_Run (kube E)) x"
| "ns_sim_run E (NApp x) = lift_sim NApp (App_Run E) x"

fun ns_sim_cleanup :: "'s simenv \<Rightarrow> (ns_sim, 's world) action" where
  "ns_sim_cleanup E (NNamespace x) = lift_sim NNamespace (KubernetesNamespace_Cleanup (kube E)) x"
| "ns_sim_cleanup E (NConfig x) = lift_sim NConfig (Templated_Cleanup (engine E) (kube E)) x"
| "ns_sim_cleanup E (NServiceAccount x) = lift_sim NServiceAccount (ServiceAccount_Cleanup (kube E)) x"
| "ns_sim_cleanup E (NApp x) = lift_sim NApp (App_Cleanup E) x"

fun ns_sim_type :: "ns_sim \<Rightarrow> string" where
  "ns_sim_type (NNamespace x) = ''*cluster.KubernetesNamespace''"
| "ns_sim_type (NConfig x) = ''*config.Templated''"
| "ns_sim_type (NServiceAccount x) = ''*app.ServiceAccount''"
| "ns_sim_type (NApp x) = ''*app.Application''"

fun ns_sim_owned :: "'s simenv \<Rightarrow> ns_sim \<Rightarrow> key set" where
  "ns_sim_owned E (NNamespace x) = {obj_key ''Namespace'' (getKubernetesNamespace x)}"
| "ns_sim_owned E (NConfig x) = Templated_owned (engine E) (kube E) x"
| "ns_sim_owned E (NServiceAccount x) = {obj_key ''ServiceAccount'' (getServiceAccount x)}"
| "ns_sim_owned E (NApp x) = App_owned E x"

lemma ServiceAccount_Run_live:
  assumes "retry_documented env" and "ServiceAccount_Run env s w = Returns (s', w', e)"
  shows "s' = s \<and> live env w' \<subseteq> insert (obj_key ''ServiceAccount'' (getServiceAccount s)) (live env w)"
proof -
  obtain e1 where a: "apply_obj env ''ServiceAccount'' (getServiceAccount s) s w = Returns (s', w', e1)"
    using assms(2) by (auto simp: ServiceAccount_Run_def obind_Returns_iff)
  show ?thesis by (rule apply_obj_live [OF assms(1) a])
qed

lemma ns_sim_run_live:
  assumes ok: "env_documented E" and run: "ns_sim_run E s w = Returns (s', w', e)"
  shows "live (kube E) w' \<subseteq> live (kube E) w \<union> ns_sim_owned E s'"
proof (cases s)
  case (NNamespace x)
  then obtain e1 where "apply_namespace (kube E) x 100 None w = (e1, w')" "s' = NNamespace x"
    using run by (auto simp: KubernetesNamespace_Run_def split: prod.splits)
  then show ?thesis using apply_namespace_live [OF env_documented_parts(1,2) [OF ok]] by auto
next
  case (NConfig x)
  then obtain x' where "Templated_Run (engine E) (kube E) x w = Returns (x', w', e)" "s' = NConfig x'" using run by auto
  then show ?thesis using Templated_Run_live by (metis ns_sim_owned.simps(2))
next
  case (NServiceAccount x)
  then obtain x' where "ServiceAccount_Run (kube E) x w = Returns (x', w', e)" "s' = NServiceAccount x'" using run by auto
  then show ?thesis using ServiceAccount_Run_live [OF env_documented_parts(1) [OF ok]] by fastforce
next
  case (NApp x)
  then obtain x' where "App_Run E x w = Returns (x', w', e)" "s' = NApp x'" using run by auto
  then show ?thesis using App_Run_live [OF ok] by (metis ns_sim_owned.simps(4))
qed

lemma ns_sim_cleanup_live:
  assumes ok: "env_documented E" and run: "ns_sim_cleanup E s w = Returns (s', w', e)"
  shows "live (kube E) w' \<subseteq> live (kube E) w \<and> (e = None \<longrightarrow> live (kube E) w' \<inter> ns_sim_owned E s = {}) \<and>
    ns_sim_owned E s' = ns_sim_owned E s"
proof (cases s)
  case (NNamespace x)
  then obtain x' where "delete_obj (kube E) ''Namespace'' (getKubernetesNamespace x) x w = Returns (x', w', e)" "s' = NNamespace x'"
    using run by (auto simp: KubernetesNamespace_Cleanup_def)
  then show ?thesis using delete_obj_live NNamespace by fastforce
next
  case (NConfig x)
  then obtain x' where "Templated_Cleanup (engine E) (kube E) x w = Returns (x', w', e)" "s' = NConfig x'" using run by auto
  then show ?thesis using Templated_Cleanup_live NConfig by fastforce
next
  case (NServiceAccount x)
  then obtain x' where "delete_obj (kube E) ''ServiceAccount'' (getServiceAccount x) x w = Returns (x', w', e)" "s' = NServiceAccount x'"
    using run by (auto simp: ServiceAccount_Cleanup_def)
  then show ?thesis using delete_obj_live NServiceAccount by fastforce
next
  case (NApp x)
  then obtain x' where "App_Cleanup E x w = Returns (x', w', e)" "s' = NApp x'" using run by auto
  then show ?thesis using App_Cleanup_live [OF ok] NApp by simp
qed

interpretation ns_sims: simulation "ns_sim_run E" "ns_sim_cleanup E" "ns_sim_owned E" "live (kube E)"
    "kruntime (kube E)" "env_documented E" for E :: "'s simenv"
proof (unfold_locales, goal_cases)
  case (1 s w s' w' e)
  then show ?case by (rule ns_sim_run_live)
next
  case (2 s w s' w' e)
  then show ?case using ns_sim_cleanup_live by blast
next
  case (3 s w s' w')
  then show ?case using ns_sim_cleanup_live by blast
next
  case (4 s w s' w' e)
  then show ?case using ns_sim_cleanup_live by blast
next
  case (5 d w)
  then show ?case using env_documented_parts(2) sleep_live by blast
qed

section \<open>Run and Cleanup\<close>

definition ns_base_sims :: "Namespace \<Rightarrow> ns_sim list" where
  "ns_base_sims n = NNamespace (ns_ns n) # map NConfig (ns_configs n) @ map (\<lambda>(k, sa). NServiceAccount sa) (ns_sa n)"

definition ns_all_sims :: "Namespace \<Rightarrow> ns_sim list" where
  "ns_all_sims n = ns_base_sims n @ map NApp (ns_deployments n)"

text \<open>
  The loop over the deployments: each in an aggregate of its own, then the grace period; it ends without
  an error when the context does. Applications are objects: what a run makes of them is written back.
\<close>

fun run_deployments :: "'s simenv \<Rightarrow> int \<Rightarrow> Application list \<Rightarrow> 's world \<Rightarrow> (Application list \<times> 's world \<times> gerror option) outcome" where
  "run_deployments E grace [] w = Returns ([], w, None)"
| "run_deployments E grace (dep # deps) w =
     obind (agg_Run (kruntime (kube E)) (\<lambda>a. ''*app.Application'') (App_Run E) \<lparr>Simulations = [dep], Delay = 0\<rparr> w) (\<lambda>(g, w1, e).
       case e of
         Some err \<Rightarrow> Returns (Simulations g @ deps, w1, Some (ErrV ''failed to run deployment: '' err))
       | None \<Rightarrow>
           (let w2 = ContextSleep (kruntime (kube E)) grace w1
            in if IsDone (kruntime (kube E)) w2 then Returns (Simulations g @ deps, w2, None)
               else obind (run_deployments E grace deps w2) (\<lambda>(rest, w3, e3). Returns (Simulations g @ rest, w3, e3))))"

definition Namespace_Run :: "'s simenv \<Rightarrow> (Namespace, 's world) action" where
  "Namespace_Run E n w =
     obind (agg_Run (kruntime (kube E)) ns_sim_type (ns_sim_run E) \<lparr>Simulations = ns_base_sims n, Delay = 0\<rparr> w) (\<lambda>(g, w1, e).
       case e of
         Some err \<Rightarrow> Returns (n, w1, Some err)
       | None \<Rightarrow>
           obind (run_deployments E (nsp_GracePeriod (ns_Spec n)) (ns_deployments n) w1) (\<lambda>(deps, w2, e2).
             Returns (n\<lparr>ns_deployments := deps\<rparr>, w2, e2)))"

definition apps_of :: "ns_sim list \<Rightarrow> Application list" where
  "apps_of ss = concat (map (\<lambda>s. case s of NApp a \<Rightarrow> [a] | _ \<Rightarrow> []) ss)"

definition Namespace_Cleanup :: "'s simenv \<Rightarrow> (Namespace, 's world) action" where
  "Namespace_Cleanup E n w =
     obind (agg_Cleanup ns_sim_type (ns_sim_cleanup E) \<lparr>Simulations = ReverseSimulations (ns_all_sims n), Delay = 0\<rparr> w)
       (\<lambda>(g, w1, e). Returns (n\<lparr>ns_deployments := rev (apps_of (Simulations g))\<rparr>, w1, e))"


section \<open>A namespace is a simulation\<close>

fun ns_kept :: "ns_sim \<Rightarrow> ns_sim \<Rightarrow> bool" where
  "ns_kept (NApp a) s' \<longleftrightarrow> (\<exists>a'. s' = NApp a')"
| "ns_kept s s' \<longleftrightarrow> s' = s"

lemma ns_kept_reflp: "reflp ns_kept"
proof (rule reflpI)
  show "ns_kept s s" for s by (cases s) auto
qed

lemma ns_sim_run_kept: "ns_sim_run E s w = Returns (s', w', e) \<Longrightarrow> ns_kept s s'"
  by (cases s)
    (auto simp: KubernetesNamespace_Run_def ServiceAccount_Run_def obind_Returns_iff split: prod.splits
      dest: Templated_Run_same apply_obj_same)

lemma ns_sim_cleanup_kept: "ns_sim_cleanup E s w = Returns (s', w', e) \<Longrightarrow> ns_kept s s'"
  by (cases s)
    (auto simp: KubernetesNamespace_Cleanup_def ServiceAccount_Cleanup_def
      dest: Templated_Cleanup_same delete_obj_same)

fun is_app :: "ns_sim \<Rightarrow> bool" where
  "is_app (NApp a) = True"
| "is_app s = False"

lemma ns_kept_base: "list_all2 ns_kept ss ss' \<Longrightarrow> \<forall>s \<in> set ss. \<not> is_app s \<Longrightarrow> ss' = ss"
proof (induction ss ss' rule: list_all2_induct)
  case (Cons s ss s' ss')
  then show ?case by (cases s) auto
qed simp

lemma ns_kept_apps: "list_all2 ns_kept (map NApp as) ss' \<Longrightarrow> ss' = map NApp (apps_of ss')"
proof (induction as arbitrary: ss')
  case (Cons a as)
  then obtain a' rest where "ss' = NApp a' # rest" "list_all2 ns_kept (map NApp as) rest" by (auto simp: list_all2_Cons1)
  then show ?case using Cons.IH by (auto simp: apps_of_def)
qed (simp add: apps_of_def)

lemma base_no_app: "s \<in> set (ns_base_sims n) \<Longrightarrow> \<not> is_app s"
  by (auto simp: ns_base_sims_def)

lemma apps_of_append [simp]: "apps_of (xs @ ys) = apps_of xs @ apps_of ys"
  by (simp add: apps_of_def)

lemma apps_of_none [simp]: "\<forall>s \<in> set ss. \<not> is_app s \<Longrightarrow> apps_of ss = []"
  by (induction ss) (auto simp: apps_of_def split: ns_sim.splits)

lemma apps_of_rev: "apps_of (rev ss) = rev (apps_of ss)"
  by (induction ss) (auto simp: apps_of_def split: ns_sim.splits)

lemma ns_sims_back:
  assumes "list_all2 ns_kept (ns_all_sims n) ss"
  shows "ns_all_sims (n\<lparr>ns_deployments := apps_of ss\<rparr>) = ss"
proof -
  obtain xs ys where ss: "ss = xs @ ys" "list_all2 ns_kept (ns_base_sims n) xs" "list_all2 ns_kept (map NApp (ns_deployments n)) ys"
    using assms by (auto simp: ns_all_sims_def list_all2_append1)
  have xs: "xs = ns_base_sims n" using ns_kept_base [OF ss(2)] base_no_app by blast
  then have none: "apps_of xs = []" using base_no_app by (metis apps_of_none)
  have "ns_base_sims (n\<lparr>ns_deployments := apps_of ss\<rparr>) = xs" using xs by (simp add: ns_base_sims_def)
  then show ?thesis using ns_kept_apps [OF ss(3)] ss(1) none by (simp add: ns_all_sims_def)
qed

definition Namespace_owned :: "'s simenv \<Rightarrow> Namespace \<Rightarrow> key set" where
  "Namespace_owned E n = \<Union> (ns_sim_owned E ` set (ns_all_sims n))"

lemma run_deployments_live:
  assumes ok: "env_documented E"
  shows "run_deployments E grace deps w = Returns (deps', w', e) \<Longrightarrow>
    live (kube E) w' \<subseteq> live (kube E) w \<union> \<Union> (App_owned E ` set deps')"
proof (induction deps arbitrary: w deps')
  case (Cons dep deps)
  let ?rt = "kruntime (kube E)"
  obtain g w1 e1 where g: "agg_Run ?rt (\<lambda>a. ''*app.Application'') (App_Run E) \<lparr>Simulations = [dep], Delay = 0\<rparr> w = Returns (g, w1, e1)"
    using Cons.prems by (auto simp: obind_Returns_iff)
  have l1: "live (kube E) w1 \<subseteq> live (kube E) w \<union> \<Union> (App_owned E ` set (Simulations g))"
    by (rule apps.agg_Run_live [OF ok g])
  define w2 where "w2 = ContextSleep ?rt grace w1"
  have l2: "live (kube E) w2 = live (kube E) w1"
    using sleep_live [OF env_documented_parts(2) [OF ok]] by (simp add: w2_def ContextSleep_def)
  show ?case
  proof (cases e1)
    case (Some err)
    then show ?thesis using Cons.prems g l1 by auto
  next
    case None
    show ?thesis
    proof (cases "IsDone ?rt w2")
      case True
      then show ?thesis using Cons.prems g None l1 l2 by (auto simp: w2_def Let_def)
    next
      case False
      then obtain rest where r: "run_deployments E grace deps w2 = Returns (rest, w', e)" "deps' = Simulations g @ rest"
        using Cons.prems g None by (auto simp: w2_def Let_def obind_Returns_iff)
      show ?thesis using Cons.IH [OF r(1)] l1 l2 r(2) by auto
    qed
  qed
qed simp

lemma Namespace_Run_live:
  assumes ok: "env_documented E" and run: "Namespace_Run E n w = Returns (n', w', e)"
  shows "live (kube E) w' \<subseteq> live (kube E) w \<union> Namespace_owned E n'"
proof -
  obtain g w1 e1 where g: "agg_Run (kruntime (kube E)) ns_sim_type (ns_sim_run E) \<lparr>Simulations = ns_base_sims n, Delay = 0\<rparr> w
      = Returns (g, w1, e1)"
    using run by (auto simp: Namespace_Run_def obind_Returns_iff)
  then obtain ss where ss: "run_seq (kruntime (kube E)) ns_sim_type (ns_sim_run E) 0 (ns_base_sims n) w = Returns (ss, w1, e1)"
    "Simulations g = ss" by (auto simp: agg_Run_def obind_Returns_iff)
  have "ss = ns_base_sims n"
  proof (rule ns_kept_base)
    show "list_all2 ns_kept (ns_base_sims n) ss" by (rule run_seq_all2 [OF ns_sim_run_kept ns_kept_reflp ss(1)])
    show "\<forall>s \<in> set (ns_base_sims n). \<not> is_app s" using base_no_app by blast
  qed
  then have l1: "live (kube E) w1 \<subseteq> live (kube E) w \<union> \<Union> (ns_sim_owned E ` set (ns_base_sims n))"
    using ns_sims.agg_Run_live [OF ok g] ss(2) by simp
  show ?thesis
  proof (cases e1)
    case (Some err)
    then have "n' = n" "w' = w1" using run g by (simp_all add: Namespace_Run_def)
    then show ?thesis using l1 by (auto simp: Namespace_owned_def ns_all_sims_def)
  next
    case None
    then obtain deps where d: "run_deployments E (nsp_GracePeriod (ns_Spec n)) (ns_deployments n) w1 = Returns (deps, w', e)"
      "n' = n\<lparr>ns_deployments := deps\<rparr>"
      using run g by (auto simp: Namespace_Run_def obind_Returns_iff)
    have "ns_all_sims n' = ns_base_sims n @ map NApp deps" by (simp add: d(2) ns_all_sims_def ns_base_sims_def)
    then show ?thesis using l1 run_deployments_live [OF ok d(1)] by (auto simp: Namespace_owned_def)
  qed
qed

lemma Namespace_Cleanup_live:
  assumes ok: "env_documented E" and run: "Namespace_Cleanup E n w = Returns (n', w', e)"
  shows "live (kube E) w' \<subseteq> live (kube E) w \<and> (e = None \<longrightarrow> live (kube E) w' \<inter> Namespace_owned E n = {}) \<and>
    Namespace_owned E n' = Namespace_owned E n"
proof -
  obtain ss where ss: "cleanup_seq ns_sim_type (ns_sim_cleanup E) (rev (ns_all_sims n)) w None = Returns (ss, w', e)"
    "n' = n\<lparr>ns_deployments := rev (apps_of ss)\<rparr>"
    using run by (auto simp: Namespace_Cleanup_def agg_Cleanup_def obind_Returns_iff)
  note l = ns_sims.cleanup_seq_live [OF ok ss(1)]
  have "list_all2 ns_kept (rev (ns_all_sims n)) ss" by (rule cleanup_seq_all2 [OF ns_sim_cleanup_kept ss(1)])
  then have "list_all2 ns_kept (ns_all_sims n) (rev ss)" using list_all2_rev [of ns_kept "rev (ns_all_sims n)" ss] by simp
  then have "ns_all_sims n' = rev ss" using ns_sims_back [of n "rev ss"] ss(2) by (simp add: apps_of_rev)
  then show ?thesis using l by (simp add: Namespace_owned_def)
qed

interpretation namespaces: simulation "Namespace_Run E" "Namespace_Cleanup E" "Namespace_owned E" "live (kube E)"
    "kruntime (kube E)" "env_documented E" for E :: "'s simenv"
proof (unfold_locales, goal_cases)
  case (1 s w s' w' e)
  then show ?case by (rule Namespace_Run_live)
next
  case (2 s w s' w' e)
  then show ?case using Namespace_Cleanup_live by blast
next
  case (3 s w s' w')
  then show ?case using Namespace_Cleanup_live by blast
next
  case (4 s w s' w' e)
  then show ?case using Namespace_Cleanup_live by blast
next
  case (5 d w)
  then show ?case using env_documented_parts(2) sleep_live by blast
qed

end
