(* ===== verification/Cluster.thy ===== *)
theory Cluster
  imports Cluster_Namespace
begin

text \<open>
  A simulated cluster (sims/cluster/cluster.go, cluster_scaler.go): building it from its configuration,
  running and cleaning it up, the kubelet's reconciliation of pods, and the scaler.
\<close>

section \<open>Building a cluster\<close>

record Cluster =
  clu_Name :: string
  clu_Spec :: ClusterConfig
  clu_namespaces :: "Namespace list"
  clu_nodes :: "Node list"
  clu_running :: bool

text \<open>A random node's name; \<open>rand.Intn\<close> panics when there is none.\<close>

definition SelectNode :: "Node list \<Rightarrow> rng \<Rightarrow> (string \<times> rng) outcome" where
  "SelectNode nodes r =
     (if nodes = [] then Panics ''invalid argument to Intn''
      else let (i, r1) = Intn (length nodes) r in Returns (no_Name (n_Spec (nodes ! i)), r1))"

fun make_node_replicas :: "NodeConfig \<Rightarrow> nat \<Rightarrow> 's world \<Rightarrow> Node list \<times> 's world" where
  "make_node_replicas node 0 w = ([], w)"
| "make_node_replicas node (Suc k) w =
     (let (uid, r1) = GenUID (rnd w);
          w1 = w\<lparr>rnd := r1\<rparr>;
          n = NewNode \<lparr>no_Name = nco_Name node @ ''-'' @ uid, no_Region = ''region'', no_Zone = ''zone'',
                       no_Ztunnel = nco_Ztunnel node\<rparr> w1;
          (rest, w2) = make_node_replicas node k w1
      in (n # rest, w2))"

fun make_nodes :: "NodeConfig list \<Rightarrow> 's world \<Rightarrow> Node list \<times> 's world" where
  "make_nodes [] w = ([], w)"
| "make_nodes (node # nodes) w =
     (let (ns, w1) = make_node_replicas node (nat (nco_Count node)) w; (rest, w2) = make_nodes nodes w1
      in (ns @ rest, w2))"

definition ns_spec :: "ClusterConfig \<Rightarrow> Node list \<Rightarrow> NamespaceConfig \<Rightarrow> string \<Rightarrow> NamespaceSpecArgs" where
  "ns_spec cfg nodes ns name =
     \<lparr>nsp_Name = name, nsp_TemplateDefinitions = cc_Templates cfg,
      nsp_Deployments = map (\<lambda>d. d\<lparr>ac_GetNode := SelectNode nodes\<rparr>) (nc_Applications ns),
      nsp_Templates = nc_Templates ns, nsp_StableNames = cc_StableNames cfg, nsp_Waypoint = nc_Waypoint ns,
      nsp_GracePeriod = nc_GracePeriod ns\<rparr>"

fun make_ns_replicas :: "templating \<Rightarrow> ClusterConfig \<Rightarrow> Node list \<Rightarrow> nat \<Rightarrow> NamespaceConfig \<Rightarrow> nat \<Rightarrow> nat \<Rightarrow> 's world \<Rightarrow>
    (Namespace list \<times> 's world) outcome" where
  "make_ns_replicas te cfg nodes nsId ns r 0 w = Returns ([], w)"
| "make_ns_replicas te cfg nodes nsId ns r (Suc k) w =
     (let name = StringDefault (nc_Name ns) ''namespace'';
          (name1, r1) = (if nc_Replicas ns > 1
                         then (let (uid, r1) = GenUIDOrStableIdentifier (cc_StableNames cfg) nsId r (rnd w)
                               in (name @ ''-'' @ uid, r1))
                         else (name, rnd w))
      in obind (NewNamespace te (ns_spec cfg nodes ns name1) (w\<lparr>rnd := r1\<rparr>)) (\<lambda>(n, w1).
           obind (make_ns_replicas te cfg nodes nsId ns (Suc r) k w1) (\<lambda>(rest, w2). Returns (n # rest, w2))))"

fun make_namespaces :: "templating \<Rightarrow> ClusterConfig \<Rightarrow> Node list \<Rightarrow> nat \<Rightarrow> NamespaceConfig list \<Rightarrow> 's world \<Rightarrow>
    (Namespace list \<times> 's world) outcome" where
  "make_namespaces te cfg nodes nsId [] w = Returns ([], w)"
| "make_namespaces te cfg nodes nsId (ns # nss) w =
     obind (make_ns_replicas te cfg nodes nsId ns 0 (nat (nc_Replicas ns)) w) (\<lambda>(as, w1).
       obind (make_namespaces te cfg nodes (Suc nsId) nss w1) (\<lambda>(rest, w2). Returns (as @ rest, w2)))"

text \<open>Go's division truncates towards zero.\<close>

definition quot :: "int \<Rightarrow> int \<Rightarrow> int" where
  "quot a b = (if 0 \<le> a then a div b else - ((- a) div b))"

text \<open>\<open>log.Fatalf\<close> ends the process: the outcome is Panics with its message.\<close>

definition NewCluster :: "templating \<Rightarrow> ClusterConfig \<Rightarrow> 's world \<Rightarrow> (Cluster \<times> 's world) outcome" where
  "NewCluster te cfg w =
     (let needNodes = quot (PodCount cfg) 255
      in if NodeCount cfg < needNodes then Panics ''have fewer nodes than needed''
         else (let (nodes, w1) = make_nodes (cc_Nodes cfg) w
               in obind (make_namespaces te cfg nodes 0 (cc_Namespaces cfg) w1) (\<lambda>(nss, w2).
                    Returns (\<lparr>clu_Name = ''primary'', clu_Spec = cfg, clu_namespaces = nss, clu_nodes = nodes,
                              clu_running = False\<rparr>, w2))))"

text \<open>\<open>Build\<close>: node metadata replaces the arguments' metadata.\<close>

definition Build :: "templating \<Rightarrow> args \<Rightarrow> ClusterConfig \<Rightarrow> 's world \<Rightarrow> (args \<times> Cluster \<times> 's world) outcome" where
  "Build te ag config w =
     (let ag1 = (if cc_NodeMetadata config \<noteq> Map.empty then ag\<lparr>ag_Metadata := cc_NodeMetadata config\<rparr> else ag)
      in obind (NewCluster te config w) (\<lambda>(c, w1). Returns (ag1, c, w1)))"

section \<open>Run and Cleanup\<close>

datatype cluster_sim = CNode Node | CNamespace Namespace

fun cluster_sim_run :: "'s simenv \<Rightarrow> (cluster_sim, 's world) action" where
  "cluster_sim_run E (CNode x) = lift_sim CNode (Node_Run (sim_args E) (kube E)) x"
| "cluster_sim_run E (CNamespace x) = lift_sim CNamespace (Namespace_Run E) x"

fun cluster_sim_cleanup :: "'s simenv \<Rightarrow> (cluster_sim, 's world) action" where
  "cluster_sim_cleanup E (CNode x) = lift_sim CNode (Node_Cleanup (kube E)) x"
| "cluster_sim_cleanup E (CNamespace x) = lift_sim CNamespace (Namespace_Cleanup E) x"

fun cluster_sim_type :: "cluster_sim \<Rightarrow> string" where
  "cluster_sim_type (CNode x) = ''*cluster.Node''"
| "cluster_sim_type (CNamespace x) = ''*cluster.Namespace''"

fun cluster_sim_owned :: "'s simenv \<Rightarrow> cluster_sim \<Rightarrow> key set" where
  "cluster_sim_owned E (CNode x) = Node_owned x"
| "cluster_sim_owned E (CNamespace x) = Namespace_owned E x"

definition getIstioResources :: "Cluster \<Rightarrow> cluster_sim list" where
  "getIstioResources c = []"

definition clu_getSims :: "Cluster \<Rightarrow> cluster_sim list" where
  "clu_getSims c = map CNode (clu_nodes c) @ getIstioResources c @ map CNamespace (clu_namespaces c)"

definition nodes_of :: "cluster_sim list \<Rightarrow> Node list" where
  "nodes_of ss = concat (map (\<lambda>s. case s of CNode n \<Rightarrow> [n] | CNamespace n \<Rightarrow> []) ss)"

definition nss_of :: "cluster_sim list \<Rightarrow> Namespace list" where
  "nss_of ss = concat (map (\<lambda>s. case s of CNode n \<Rightarrow> [] | CNamespace n \<Rightarrow> [n]) ss)"

text \<open>
  The loop over the namespaces; the flag tells whether it came to its end (and not to the end of the
  context).
\<close>

fun run_namespaces :: "'s simenv \<Rightarrow> int \<Rightarrow> Namespace list \<Rightarrow> 's world \<Rightarrow>
    (Namespace list \<times> 's world \<times> gerror option \<times> bool) outcome" where
  "run_namespaces E grace [] w = Returns ([], w, None, True)"
| "run_namespaces E grace (ns # nss) w =
     obind (agg_Run (kruntime (kube E)) (\<lambda>n. ''*cluster.Namespace'') (Namespace_Run E) \<lparr>Simulations = [ns], Delay = 0\<rparr> w) (\<lambda>(g, w1, e).
       case e of
         Some err \<Rightarrow> Returns (Simulations g @ nss, w1, Some (ErrV ''failed to bootstrap namespace: '' err), False)
       | None \<Rightarrow>
           (let w2 = ContextSleep (kruntime (kube E)) grace w1
            in if IsDone (kruntime (kube E)) w2 then Returns (Simulations g @ nss, w2, None, False)
               else obind (run_namespaces E grace nss w2) (\<lambda>(rest, w3, e3, b). Returns (Simulations g @ rest, w3, e3, b))))"

text \<open>
  Run: nodes, Istio resources, namespaces; then the running channel is closed (a second time is a panic)
  and the scaler starts, whose Run returns nil. The kubelet's goroutine is \<open>reconcile_pod\<close>, the
  scaler's are the refreshes below.
\<close>

definition Cluster_Run :: "'s simenv \<Rightarrow> (Cluster, 's world) action" where
  "Cluster_Run E c w =
     obind (agg_Run (kruntime (kube E)) cluster_sim_type (cluster_sim_run E) \<lparr>Simulations = map CNode (clu_nodes c), Delay = 0\<rparr> w) (\<lambda>(g, w1, e).
       let c1 = c\<lparr>clu_nodes := nodes_of (Simulations g)\<rparr> in
       case e of
         Some err \<Rightarrow> Returns (c1, w1, Some (ErrV ''failed to bootstrap nodes: '' err))
       | None \<Rightarrow>
           obind (agg_Run (kruntime (kube E)) cluster_sim_type (cluster_sim_run E) \<lparr>Simulations = getIstioResources c1, Delay = 0\<rparr> w1) (\<lambda>(g2, w2, e2).
             case e2 of
               Some err \<Rightarrow> Returns (c1, w2, Some (ErrV ''failed to bootstrap istio resources: '' err))
             | None \<Rightarrow>
                 obind (run_namespaces E (cc_GracePeriod (clu_Spec c1)) (clu_namespaces c1) w2) (\<lambda>(nss, w3, e3, all).
                   let c2 = c1\<lparr>clu_namespaces := nss\<rparr> in
                   if e3 = None \<and> all then
                     (if clu_running c2 then Panics ''close of closed channel'' else Returns (c2\<lparr>clu_running := True\<rparr>, w3, None))
                   else Returns (c2, w3, e3))))"

definition Cluster_Cleanup :: "'s simenv \<Rightarrow> (Cluster, 's world) action" where
  "Cluster_Cleanup E c w =
     obind (agg_CleanupParallel (cleanup_sched E (length (clu_getSims c)) w) cluster_sim_type (cluster_sim_cleanup E)
              \<lparr>Simulations = ReverseSimulations (clu_getSims c), Delay = 0\<rparr> w)
       (\<lambda>(g, w1, e). Returns (c\<lparr>clu_nodes := rev (nodes_of (Simulations g)), clu_namespaces := rev (nss_of (Simulations g))\<rparr>, w1, e))"

section \<open>The kubelet: reconciling pods\<close>

text \<open>
  The transform of the informer: what it keeps of a pod. (The type assertion of a pod that is not one
  cannot fail here: the informer holds pods.)
\<close>

definition StripPodUnusedFields :: "kobj \<Rightarrow> kobj" where
  "StripPodUnusedFields ob =
     (let ob1 = ob\<lparr>o_managedFields := [], o_annotations := Map.empty, o_labels := Map.empty\<rparr>
      in case (o_spec ob1, o_status ob1) of
           (PodSpec sp, st) \<Rightarrow>
             ob1\<lparr>o_spec := PodSpec (empty_podspec
                    \<lparr>ps_nodeSelector := ps_nodeSelector sp,
                     ps_containers := map (\<lambda>c. \<lparr>c_name = c_name c, c_image = c_image c, c_args = [], c_env = []\<rparr>) (ps_containers sp),
                     ps_serviceAccountName := ps_serviceAccountName sp, ps_nodeName := ps_nodeName sp\<rparr>),
                 o_status := (case st of
                     Status (PodStatus s) \<Rightarrow>
                       Status (PodStatus (s\<lparr>st_conditions := [], st_initContainerStatuses := [], st_containerStatuses := []\<rparr>))
                   | _ \<Rightarrow> st)\<rparr>
         | _ \<Rightarrow> ob1)"

text \<open>The phase of a pod object, and its status as a record.\<close>

definition pod_status :: "kobj \<Rightarrow> podstatus" where
  "pod_status ob = (case o_status ob of Status (PodStatus s) \<Rightarrow> s | _ \<Rightarrow> empty_podstatus)"

definition pod_spec :: "kobj \<Rightarrow> podspec" where
  "pod_spec ob = (case o_spec ob of PodSpec s \<Rightarrow> s | _ \<Rightarrow> empty_podspec)"

text \<open>The status the kubelet gives to a pod: running and ready, with an IP of its own.\<close>

definition running_status :: "kobj \<Rightarrow> int \<Rightarrow> string \<Rightarrow> podstatus" where
  "running_status p time ip =
     (pod_status p)
       \<lparr>st_phase := ''Running'',
        st_conditions := [\<lparr>cond_type = ''Ready'', cond_status = ''True'', cond_lastTransitionTime = time\<rparr>,
                          \<lparr>cond_type = ''ContainersReady'', cond_status = ''True'', cond_lastTransitionTime = time\<rparr>],
        st_podIP := ip,
        st_containerStatuses := map (\<lambda>c. \<lparr>cs_name = c_name c, cs_running = Some time, cs_terminated = None, cs_ready = True,
                                         cs_image = c_image c\<rparr>) (ps_containers (pod_spec p))\<rparr>"

text \<open>
  The reconciler of watchPods; \<open>cached\<close> is the informer's copy of the pod (None when it has none).
  \<open>pods.Delete\<close> is a plain delete of the client, without the grace period of zero.
\<close>

definition reconcile_pod :: "'s kenv \<Rightarrow> kobj option \<Rightarrow> 's world \<Rightarrow> gerror option \<times> 's world" where
  "reconcile_pod env cached w =
     (case cached of
        None \<Rightarrow> (None, w)
      | Some p \<Rightarrow>
          if ps_nodeSelector (pod_spec p) ''pilot-load.istio.io/node'' \<noteq> Some ''fake'' then (None, w)
          else if o_deletionTimestamp p \<noteq> None then
            (case exec env (Delete_req (obj_key ''Pod'' p) (-1)) w of
               (Inl err, w1) \<Rightarrow> (if IsNotFound env err then (None, w1) else (Some (ErrV ''delete: '' err), w1))
             | (Inr x, w1) \<Rightarrow> (None, w1))
          else if st_phase (pod_status p) = ''Running'' then (None, w)
          else if ps_nodeName (pod_spec p) = [] then (None, w)
          else
            (let (ip, next) = GetIP (nextIp w);
                 p1 = p\<lparr>o_status := Status (PodStatus (running_status p (now w) ip)), o_spec := PodSpec empty_podspec\<rparr>
             in case ApplyStatusRealSSA env (Concrete ''Pod'') p1 (w\<lparr>nextIp := next\<rparr>) of
                  (Some err, w1) \<Rightarrow> (Some (ErrV ''apply status: '' err), w1)
                | (None, w1) \<Rightarrow> (None, w1)))"

section \<open>The scaler\<close>

definition GetRefreshableInstances :: "Cluster \<Rightarrow> Application list" where
  "GetRefreshableInstances c = concat (map ns_deployments (clu_namespaces c))"

text \<open>\<open>model.IsRefreshable\<close>: templated configuration says so itself, everything else always is.\<close>

definition IsRefreshable :: "app_sim \<Rightarrow> bool" where
  "IsRefreshable s = (case s of SConfig t \<Rightarrow> tp_Refreshable t | _ \<Rightarrow> True)"

definition GetRefreshableConfig :: "Cluster \<Rightarrow> app_sim list" where
  "GetRefreshableConfig c = filter IsRefreshable (concat (map GetConfigs (GetRefreshableInstances c)))"

text \<open>Writing back the application at position \<open>i\<close> of the flattened list.\<close>

fun update_app :: "nat \<Rightarrow> Application \<Rightarrow> Namespace list \<Rightarrow> Namespace list" where
  "update_app i a [] = []"
| "update_app i a (n # ns) =
     (if i < length (ns_deployments n) then n\<lparr>ns_deployments := (ns_deployments n)[i := a]\<rparr> # ns
      else n # update_app (i - length (ns_deployments n)) a ns)"

text \<open>
  One tick of the workload ticker: a random application is refreshed; errors are logged. None of the
  arms ends the loop.
\<close>

definition scaler_workload_tick :: "'s simenv \<Rightarrow> Cluster \<Rightarrow> 's world \<Rightarrow> (Cluster \<times> 's world \<times> gerror option) outcome" where
  "scaler_workload_tick E c w =
     (let wls = GetRefreshableInstances c
      in if wls = [] then Returns (c, w, None)
         else (let (i, r1) = Intn (length wls) (rnd w)
               in obind (App_Refresh E (wls ! i) (w\<lparr>rnd := r1\<rparr>)) (\<lambda>(a, w1, info, e).
                    Returns (c\<lparr>clu_namespaces := update_app i a (clu_namespaces c)\<rparr>, w1, e))))"

text \<open>
  Refreshable configuration by its place: the workload entry or the k-th template of application \<open>i\<close>.
\<close>

datatype cfg_ref = RefEntry nat | RefConfig nat nat

definition app_refs :: "nat \<Rightarrow> Application \<Rightarrow> cfg_ref list" where
  "app_refs i a = (if ap_workloadEntry a = None then [] else [RefEntry i]) @ map (RefConfig i) [0..<length (ap_configs a)]"

fun deref :: "Application list \<Rightarrow> cfg_ref \<Rightarrow> app_sim" where
  "deref as (RefEntry i) = SWorkloadEntry (the (ap_workloadEntry (as ! i)))"
| "deref as (RefConfig i k) = SConfig (ap_configs (as ! i) ! k)"

fun assign :: "cfg_ref \<Rightarrow> app_sim \<Rightarrow> Cluster \<Rightarrow> Cluster" where
  "assign (RefEntry i) (SWorkloadEntry x) c =
     c\<lparr>clu_namespaces := update_app i ((GetRefreshableInstances c ! i)\<lparr>ap_workloadEntry := Some x\<rparr>) (clu_namespaces c)\<rparr>"
| "assign (RefConfig i k) (SConfig t) c =
     c\<lparr>clu_namespaces := update_app i ((GetRefreshableInstances c ! i)\<lparr>ap_configs := (ap_configs (GetRefreshableInstances c ! i))[k := t]\<rparr>)
        (clu_namespaces c)\<rparr>"
| "assign r s c = c"

definition config_refs :: "Cluster \<Rightarrow> cfg_ref list" where
  "config_refs c =
     (let as = GetRefreshableInstances c
      in filter (\<lambda>r. IsRefreshable (deref as r)) (concat (map (\<lambda>i. app_refs i (as ! i)) [0..<length as])))"

fun refresh_config :: "'s simenv \<Rightarrow> app_sim \<Rightarrow> 's world \<Rightarrow> (app_sim \<times> 's world \<times> string \<times> gerror option) outcome" where
  "refresh_config E (SWorkloadEntry x) w =
     obind (WorkloadEntry_Refresh (kube E) x w) (\<lambda>(x1, w1, info, e). Returns (SWorkloadEntry x1, w1, info, e))"
| "refresh_config E (SConfig t) w =
     obind (Templated_Refresh (engine E) (kube E) t w) (\<lambda>(t1, w1, info, e). Returns (SConfig t1, w1, info, e))"
| "refresh_config E s w = Returns (s, w, [], None)"

definition scaler_config_tick :: "'s simenv \<Rightarrow> Cluster \<Rightarrow> 's world \<Rightarrow> (Cluster \<times> 's world \<times> gerror option) outcome" where
  "scaler_config_tick E c w =
     (let cfgs = config_refs c
      in if cfgs = [] then Returns (c, w, None)
         else (let (i, r1) = Intn (length cfgs) (rnd w)
               in obind (refresh_config E (deref (GetRefreshableInstances c) (cfgs ! i)) (w\<lparr>rnd := r1\<rparr>)) (\<lambda>(s, w1, info, e).
                    Returns (assign (cfgs ! i) s c, w1, e))))"

text \<open>
  \<open>makeTicker\<close> gives a channel that never fires for a period that is not positive. The scaler's loop,
  driven by its events.
\<close>

datatype scaler_event = WorkloadTick | ConfigTick | ScalerDone

definition makeTicker :: "int \<Rightarrow> bool" where
  "makeTicker t = (if t \<le> 0 then False else True)"

fun ClusterScaler_loop :: "'s simenv \<Rightarrow> scaler_event list \<Rightarrow> Cluster \<Rightarrow> 's world \<Rightarrow> (Cluster \<times> 's world) outcome" where
  "ClusterScaler_loop E [] c w = Returns (c, w)"
| "ClusterScaler_loop E (ScalerDone # es) c w = Returns (c, w)"
| "ClusterScaler_loop E (WorkloadTick # es) c w =
     (if makeTicker (jc_Workloads (cc_Jitter (clu_Spec c)))
      then obind (scaler_workload_tick E c w) (\<lambda>(c1, w1, e). ClusterScaler_loop E es c1 w1)
      else ClusterScaler_loop E es c w)"
| "ClusterScaler_loop E (ConfigTick # es) c w =
     (if makeTicker (jc_Config (cc_Jitter (clu_Spec c)))
      then obind (scaler_config_tick E c w) (\<lambda>(c1, w1, e). ClusterScaler_loop E es c1 w1)
      else ClusterScaler_loop E es c w)"

end
