(* ===== verification/Cluster_Laws.thy ===== *)
theory Cluster_Laws
  imports Cluster
begin

text \<open>
  A cluster as a simulation: its Cleanup leaves nothing of what ran, whatever the background work (lease
  renewals, the kubelet, the scaler) did in between.
\<close>

section \<open>A cluster is a simulation\<close>

lemma cluster_sim_run_live:
  assumes ok: "env_documented E" and run: "cluster_sim_run E s w = Returns (s', w', e)"
  shows "live (kube E) w' \<subseteq> live (kube E) w \<union> cluster_sim_owned E s'"
proof (cases s)
  case (CNode n)
  then obtain n' where "Node_Run (sim_args E) (kube E) n w = Returns (n', w', e)" "s' = CNode n'" using run by auto
  then show ?thesis using Node_Run_live [OF env_documented_parts(1) [OF ok]] by fastforce
next
  case (CNamespace n)
  then obtain n' where "Namespace_Run E n w = Returns (n', w', e)" "s' = CNamespace n'" using run by auto
  then show ?thesis using Namespace_Run_live [OF ok] by (metis cluster_sim_owned.simps(2))
qed

lemma cluster_sim_cleanup_live:
  assumes ok: "env_documented E" and run: "cluster_sim_cleanup E s w = Returns (s', w', e)"
  shows "live (kube E) w' \<subseteq> live (kube E) w \<and> (e = None \<longrightarrow> live (kube E) w' \<inter> cluster_sim_owned E s = {}) \<and>
    cluster_sim_owned E s' = cluster_sim_owned E s"
proof (cases s)
  case (CNode n)
  then obtain n' where "Node_Cleanup (kube E) n w = Returns (n', w', e)" "s' = CNode n'" using run by auto
  then show ?thesis using Node_Cleanup_live CNode by simp
next
  case (CNamespace n)
  then obtain n' where "Namespace_Cleanup E n w = Returns (n', w', e)" "s' = CNamespace n'" using run by auto
  then show ?thesis using Namespace_Cleanup_live [OF ok] CNamespace by simp
qed

interpretation cluster_sims: simulation "cluster_sim_run E" "cluster_sim_cleanup E" "cluster_sim_owned E" "live (kube E)"
    "kruntime (kube E)" "env_documented E" for E :: "'s simenv"
proof (unfold_locales, goal_cases)
  case (1 s w s' w' e)
  then show ?case by (rule cluster_sim_run_live)
next
  case (2 s w s' w' e)
  then show ?case using cluster_sim_cleanup_live by blast
next
  case (3 s w s' w')
  then show ?case using cluster_sim_cleanup_live by blast
next
  case (4 s w s' w' e)
  then show ?case using cluster_sim_cleanup_live by blast
next
  case (5 d w)
  then show ?case using env_documented_parts(2) sleep_live by blast
qed

definition Cluster_owned :: "'s simenv \<Rightarrow> Cluster \<Rightarrow> key set" where
  "Cluster_owned E c = \<Union> (Node_owned ` set (clu_nodes c)) \<union> \<Union> (Namespace_owned E ` set (clu_namespaces c))"

lemma Cluster_owned_sims: "Cluster_owned E c = \<Union> (cluster_sim_owned E ` set (clu_getSims c))"
  by (auto simp: Cluster_owned_def clu_getSims_def getIstioResources_def)

lemma run_namespaces_live:
  assumes ok: "env_documented E"
  shows "run_namespaces E grace nss w = Returns (nss', w', e, b) \<Longrightarrow>
    live (kube E) w' \<subseteq> live (kube E) w \<union> \<Union> (Namespace_owned E ` set nss')"
proof (induction nss arbitrary: w nss' b)
  case (Cons ns nss)
  let ?rt = "kruntime (kube E)"
  obtain g w1 e1 where g: "agg_Run ?rt (\<lambda>n. ''*cluster.Namespace'') (Namespace_Run E) \<lparr>Simulations = [ns], Delay = 0\<rparr> w = Returns (g, w1, e1)"
    using Cons.prems by (auto simp: obind_Returns_iff)
  have l1: "live (kube E) w1 \<subseteq> live (kube E) w \<union> \<Union> (Namespace_owned E ` set (Simulations g))"
    by (rule namespaces.agg_Run_live [OF ok g])
  define w2 where "w2 = ContextSleep ?rt grace w1"
  have l2: "live (kube E) w2 = live (kube E) w1"
    using sleep_live [OF env_documented_parts(2) [OF ok]] by (simp add: w2_def ContextSleep_def)
  show ?case
  proof (cases e1)
    case (Some err)
    then show ?thesis using Cons.prems g l1 by auto
  next
    case None
    show ?thesis
    proof (cases "IsDone ?rt w2")
      case True
      then show ?thesis using Cons.prems g None l1 l2 by (auto simp: w2_def Let_def)
    next
      case False
      then obtain rest where r: "run_namespaces E grace nss w2 = Returns (rest, w', e, b)" "nss' = Simulations g @ rest"
        using Cons.prems g None by (auto simp: w2_def Let_def obind_Returns_iff)
      show ?thesis using Cons.IH [OF r(1)] l1 l2 r(2) by auto
    qed
  qed
qed simp

text \<open>Node runs give back nodes.\<close>

fun is_node :: "cluster_sim \<Rightarrow> bool" where
  "is_node (CNode n) = True"
| "is_node (CNamespace n) = False"

lemma run_kind: "cluster_sim_run E s w = Returns (s', w', e) \<Longrightarrow> is_node s' = is_node s"
  by (cases s) auto

lemma cleanup_kind: "cluster_sim_cleanup E s w = Returns (s', w', e) \<Longrightarrow> is_node s' = is_node s"
  by (cases s) auto

definition same_kind :: "cluster_sim \<Rightarrow> cluster_sim \<Rightarrow> bool" where
  "same_kind s s' \<longleftrightarrow> is_node s' = is_node s"

lemma same_kind_order: "reflp same_kind" "transp same_kind"
  by (auto simp: same_kind_def reflp_def transp_def)

lemma same_kind_nodes: "list_all2 same_kind (map CNode ns) ss \<Longrightarrow> ss = map CNode (nodes_of ss) \<and> nss_of ss = []"
proof (induction ns arbitrary: ss)
  case (Cons n ns)
  then obtain s rest where s: "ss = s # rest" "same_kind (CNode n) s" "list_all2 same_kind (map CNode ns) rest"
    by (auto simp: list_all2_Cons1)
  then obtain n' where "s = CNode n'" by (cases s) (auto simp: same_kind_def)
  then show ?case using Cons.IH [OF s(3)] s(1) by (auto simp: nodes_of_def nss_of_def)
qed (simp add: nodes_of_def nss_of_def)

lemma same_kind_nss: "list_all2 same_kind (map CNamespace ns) ss \<Longrightarrow> ss = map CNamespace (nss_of ss) \<and> nodes_of ss = []"
proof (induction ns arbitrary: ss)
  case (Cons n ns)
  then obtain s rest where s: "ss = s # rest" "same_kind (CNamespace n) s" "list_all2 same_kind (map CNamespace ns) rest"
    by (auto simp: list_all2_Cons1)
  then obtain n' where "s = CNamespace n'" by (cases s) (auto simp: same_kind_def)
  then show ?case using Cons.IH [OF s(3)] s(1) by (auto simp: nodes_of_def nss_of_def)
qed (simp add: nodes_of_def nss_of_def)

lemma Cluster_Run_live:
  assumes ok: "env_documented E" and run: "Cluster_Run E c w = Returns (c', w', e)"
  shows "live (kube E) w' \<subseteq> live (kube E) w \<union> Cluster_owned E c'"
proof -
  obtain g w1 e1 where g: "agg_Run (kruntime (kube E)) cluster_sim_type (cluster_sim_run E)
      \<lparr>Simulations = map CNode (clu_nodes c), Delay = 0\<rparr> w = Returns (g, w1, e1)"
    using run by (auto simp: Cluster_Run_def obind_Returns_iff)
  define c1 where "c1 = c\<lparr>clu_nodes := nodes_of (Simulations g)\<rparr>"
  have "list_all2 same_kind (map CNode (clu_nodes c)) (Simulations g)"
  proof -
    obtain ss where ss: "run_seq (kruntime (kube E)) cluster_sim_type (cluster_sim_run E) 0 (map CNode (clu_nodes c)) w = Returns (ss, w1, e1)"
      "Simulations g = ss" using g by (auto simp: agg_Run_def obind_Returns_iff)
    have "same_kind s s'" if "cluster_sim_run E s v = Returns (s', v', e)" for s v s' v' e
      using run_kind [OF that] by (simp add: same_kind_def)
    then show ?thesis using run_seq_all2 [OF _ same_kind_order(1) ss(1)] ss(2) by simp
  qed
  then have "Simulations g = map CNode (clu_nodes c1)" using same_kind_nodes by (simp add: c1_def)
  then have l1: "live (kube E) w1 \<subseteq> live (kube E) w \<union> \<Union> (Node_owned ` set (clu_nodes c1))"
    using cluster_sims.agg_Run_live [OF ok g] by (simp add: image_image)
  show ?thesis
  proof (cases e1)
    case (Some err)
    then have "c' = c1" "w' = w1" using run g by (simp_all add: Cluster_Run_def c1_def Let_def)
    then show ?thesis using l1 by (auto simp: Cluster_owned_def)
  next
    case None
    have nil: "agg_Run (kruntime (kube E)) cluster_sim_type (cluster_sim_run E) \<lparr>Simulations = getIstioResources c1, Delay = 0\<rparr> w1
        = Returns (\<lparr>Simulations = [], Delay = 0\<rparr>, w1, None)"
      by (simp add: agg_Run_def getIstioResources_def)
    obtain nss e3 b where r: "run_namespaces E (cc_GracePeriod (clu_Spec c1)) (clu_namespaces c1) w1 = Returns (nss, w', e3, b)"
      "clu_nodes c' = clu_nodes c1" "clu_namespaces c' = nss"
      using run g None nil by (auto simp: Cluster_Run_def c1_def [symmetric] obind_Returns_iff Let_def split: if_splits)
    show ?thesis using run_namespaces_live [OF ok r(1)] l1 r(2,3) by (auto simp: Cluster_owned_def)
  qed
qed

lemma Cluster_Cleanup_live:
  assumes ok: "env_documented E" and run: "Cluster_Cleanup E c w = Returns (c', w', None)"
  shows "live (kube E) w' \<subseteq> live (kube E) w - Cluster_owned E c"
proof -
  obtain g where g: "agg_CleanupParallel (cleanup_sched E (length (clu_getSims c)) w) cluster_sim_type (cluster_sim_cleanup E)
      \<lparr>Simulations = rev (clu_getSims c), Delay = 0\<rparr> w = Returns (g, w', None)"
    using run by (auto simp: Cluster_Cleanup_def obind_Returns_iff)
  show ?thesis
    using cluster_sims.agg_CleanupParallel_live [OF ok g] env_documented_parts(4) [OF ok]
    unfolding Cluster_owned_sims by auto
qed


section \<open>Background work\<close>

lemma ApplyStatusRealSSA_live:
  assumes "ApplyStatusRealSSA env T p w = (e, w')"
  shows "live env w' = live env w"
proof (cases "encode env (gv_of_type env (TypeName T)) p")
  case (Inl err)
  then show ?thesis using assms by (simp add: ApplyStatusRealSSA_def)
next
  case (Inr b)
  obtain r w1 where x: "exec env (Patch_req (TypeName T, o_namespace p, o_name p) b [''status'']) w = (r, w1)" by fastforce
  then have "w' = w1" using assms Inr by (cases r) (simp_all add: ApplyStatusRealSSA_def Let_def)
  moreover have "live env w1 = live env w" using exec_live [OF x] by simp
  ultimately show ?thesis by simp
qed

lemma reconcile_pod_worlds:
  assumes run: "reconcile_pod env (Some p) w = (e, w')" and ip: "GetIP (nextIp w) = (ip, next1)"
    and a: "ApplyStatusRealSSA env (Concrete ''Pod'') (p\<lparr>o_status := Status (PodStatus (running_status p (now w) ip)),
      o_spec := PodSpec empty_podspec\<rparr>) (w\<lparr>nextIp := next1\<rparr>) = (e1, w1)"
    and d: "exec env (Delete_req (obj_key ''Pod'' p) (-1)) w = (r, w2)"
  shows "w' = w \<or> w' = w1 \<or> w' = w2"
proof (cases "ps_nodeSelector (pod_spec p) ''pilot-load.istio.io/node'' = Some ''fake''")
  case True
  note True' = True
  show ?thesis
  proof (cases "o_deletionTimestamp p")
    case None
    show ?thesis
    proof (cases "st_phase (pod_status p) = ''Running'' \<or> ps_nodeName (pod_spec p) = []")
      case True
      then show ?thesis using run None by (auto simp: reconcile_pod_def split: if_splits)
    next
      case False
      then show ?thesis using run None True' ip a by (cases e1) (simp_all add: reconcile_pod_def)
    qed
  next
    case (Some t)
    then show ?thesis using run True d by (cases r) (simp_all add: reconcile_pod_def split: if_splits)
  qed
qed (use run in \<open>simp add: reconcile_pod_def\<close>)

lemma reconcile_pod_live:
  "reconcile_pod env cached w = (e, w') \<Longrightarrow> live env w' \<subseteq> live env w"
proof -
  assume run: "reconcile_pod env cached w = (e, w')"
  have patch: "live env w2 = live env w1" if "ApplyStatusRealSSA env T p w1 = (e2, w2)" for T p w1 e2 w2
    by (rule ApplyStatusRealSSA_live [OF that])
  have del: "live env w2 \<subseteq> live env w1" if "exec env (Delete_req k g) w1 = (r, w2)" for k g w1 r w2
    using exec_live [OF that] by (cases r) auto
  show ?thesis
  proof (cases cached)
    case None
    then show ?thesis using run by (simp add: reconcile_pod_def)
  next
    case (Some p)
    obtain ip next1 where ip: "GetIP (nextIp w) = (ip, next1)" by (rule prod.exhaust)
    define p1 where "p1 = p\<lparr>o_status := Status (PodStatus (running_status p (now w) ip)), o_spec := PodSpec empty_podspec\<rparr>"
    obtain e1 w1 where a: "ApplyStatusRealSSA env (Concrete ''Pod'') p1 (w\<lparr>nextIp := next1\<rparr>) = (e1, w1)" by fastforce
    obtain r w2 where d: "exec env (Delete_req (obj_key ''Pod'' p) (-1)) w = (r, w2)" by fastforce
    have "w' = w \<or> w' = w1 \<or> w' = w2"
      by (rule reconcile_pod_worlds [OF run [unfolded Some] ip a [unfolded p1_def] d])
    then show ?thesis using patch [OF a] del [OF d] by auto
  qed
qed

text \<open>
  Templated configuration whose refreshes keep its objects: the random entries of the configuration reach their
  contents and not their names.
\<close>

definition name_stable :: "templating \<Rightarrow> 's kenv \<Rightarrow> Templated \<Rightarrow> bool" where
  "name_stable te env v \<longleftrightarrow>
     (\<forall>n b. Templated_owned te env (v\<lparr>tp_Config := (tp_Config v)(''RandNumber'' \<mapsto> CInt n, ''Rand'' \<mapsto> CBool b)\<rparr>) = Templated_owned te env v)"

fun stable_sim :: "'s simenv \<Rightarrow> app_sim \<Rightarrow> bool" where
  "stable_sim E (SConfig t) = name_stable (engine E) (kube E) t"
| "stable_sim E s = True"

definition stable_names :: "'s simenv \<Rightarrow> Cluster \<Rightarrow> bool" where
  "stable_names E c \<longleftrightarrow> (\<forall>a \<in> set (GetRefreshableInstances c). \<forall>t \<in> set (ap_configs a). name_stable (engine E) (kube E) t)"

text \<open>
  One step of what goes on beside the main goroutine: a lease renewal, a reconciled pod, a workload of
  the scaler refreshed without an error (a refresh that fails loses track of the pod it replaced), a configuration
  refreshed with or without an error.
\<close>

inductive background :: "'s simenv \<Rightarrow> Cluster \<times> 's world \<Rightarrow> Cluster \<times> 's world \<Rightarrow> bool" for E where
  lease: "n \<in> set (clu_nodes c) \<Longrightarrow> background E (c, w) (c, snd (lease_tick (kube E) n w))"
| reconcile: "background E (c, w) (c, snd (reconcile_pod (kube E) cached w))"
| workload: "scaler_workload_tick E c w = Returns (c', w', None) \<Longrightarrow> background E (c, w) (c', w')"
| config: "stable_names E c \<Longrightarrow> scaler_config_tick E c w = Returns (c', w', e) \<Longrightarrow> background E (c, w) (c', w')"

lemma set_concat_update_app:
  "i < length (concat (map ns_deployments nss)) \<Longrightarrow>
   \<exists>j k. j < length nss \<and> k < length (ns_deployments (nss ! j)) \<and> concat (map ns_deployments nss) ! i = ns_deployments (nss ! j) ! k \<and>
     update_app i a nss = nss[j := (nss ! j)\<lparr>ns_deployments := (ns_deployments (nss ! j))[k := a]\<rparr>]"
proof (induction nss arbitrary: i)
  case (Cons n nss)
  show ?case
  proof (cases "i < length (ns_deployments n)")
    case True
    then show ?thesis by (intro exI [of _ 0] exI [of _ i]) (simp add: nth_append)
  next
    case False
    then have "i - length (ns_deployments n) < length (concat (map ns_deployments nss))" using Cons.prems by simp
    from Cons.IH [OF this] obtain j k where jk: "j < length nss" "k < length (ns_deployments (nss ! j))"
      "concat (map ns_deployments nss) ! (i - length (ns_deployments n)) = ns_deployments (nss ! j) ! k"
      "update_app (i - length (ns_deployments n)) a nss = nss[j := (nss ! j)\<lparr>ns_deployments := (ns_deployments (nss ! j))[k := a]\<rparr>]"
      by blast
    then show ?thesis using False by (intro exI [of _ "Suc j"] exI [of _ k]) (simp add: nth_append)
  qed
qed simp

lemma Refresh_owned:
  assumes ok: "env_documented E" and run: "App_Refresh E a w = Returns (a', w', info, None)"
  shows "live (kube E) w' \<subseteq> live (kube E) w \<union> App_owned E a' \<and> live (kube E) w' \<inter> App_owned E a \<subseteq> App_owned E a'"
proof (cases "ap_pods a = []")
  case True
  then show ?thesis using run by (auto simp: App_Refresh_def)
next
  case False
  obtain i p where a': "ap_pods a' = (ap_pods a)[i := p]" and s: "strays E a' w' \<subseteq> strays E a w"
    using App_Refresh_spec [OF ok False run] by blast
  have "\<exists>ps. a' = a\<lparr>ap_pods := ps\<rparr>"
    using run False by (auto simp: App_Refresh_def obind_Returns_iff Let_def split: prod.splits option.splits)
  then have f: "fixed_sims a' = fixed_sims a" by (auto simp: fixed_sims_def)
  have own: "App_owned E x = \<Union> (app_sim_owned E ` set (fixed_sims x)) \<union> \<Union> (Pod_owned ` set (ap_pods x))" for x
    by (auto simp: App_owned_def getSims_def)
  show ?thesis using s f unfolding own strays_def by auto
qed

text \<open>Replacing one application: what it owned may be lost, and nothing else.\<close>

lemma update_app_owned:
  assumes i: "i < length (GetRefreshableInstances c)" and c': "c' = c\<lparr>clu_namespaces := update_app i a (clu_namespaces c)\<rparr>"
  shows "Cluster_owned E c \<subseteq> Cluster_owned E c' \<union> App_owned E (GetRefreshableInstances c ! i)" "App_owned E a \<subseteq> Cluster_owned E c'"
proof -
  let ?wls = "GetRefreshableInstances c"
  obtain j k where jk: "j < length (clu_namespaces c)" "k < length (ns_deployments (clu_namespaces c ! j))"
    "?wls ! i = ns_deployments (clu_namespaces c ! j) ! k"
    "clu_namespaces c' = (clu_namespaces c)[j := (clu_namespaces c ! j)\<lparr>ns_deployments := (ns_deployments (clu_namespaces c ! j))[k := a]\<rparr>]"
    using set_concat_update_app [of i "clu_namespaces c" a] i c' by (auto simp: GetRefreshableInstances_def)
  define n where "n = clu_namespaces c ! j"
  define n' where "n' = n\<lparr>ns_deployments := (ns_deployments n)[k := a]\<rparr>"
  have nown: "Namespace_owned E x = \<Union> (ns_sim_owned E ` set (ns_base_sims x)) \<union> \<Union> (App_owned E ` set (ns_deployments x))" for x
    by (auto simp: Namespace_owned_def ns_all_sims_def)
  have base: "ns_base_sims n' = ns_base_sims n" by (simp add: n'_def ns_base_sims_def)
  have kn: "k < length (ns_deployments n)" using jk(2) by (simp add: n_def)
  have old: "Namespace_owned E n \<subseteq> Namespace_owned E n' \<union> App_owned E (?wls ! i)"
  proof -
    have "x \<in> set (ns_deployments n')" if "x \<in> set (ns_deployments n)" "x \<noteq> ?wls ! i" for x
      using in_set_update [of x "ns_deployments n" k a] that jk(3) by (simp add: n_def n'_def)
    then show ?thesis unfolding nown base by blast
  qed
  have new: "App_owned E a \<subseteq> Namespace_owned E n'"
    unfolding nown using kn by (auto simp: n'_def intro: set_update_memI)
  have inn: "n' \<in> set (clu_namespaces c')" using jk(1,4) by (simp add: n_def n'_def set_update_memI)
  show "App_owned E a \<subseteq> Cluster_owned E c'" using new inn by (auto simp: Cluster_owned_def)
  show "Cluster_owned E c \<subseteq> Cluster_owned E c' \<union> App_owned E (?wls ! i)"
  proof
    fix x assume "x \<in> Cluster_owned E c"
    then consider "x \<in> \<Union> (Node_owned ` set (clu_nodes c))" | m where "m < length (clu_namespaces c)" "x \<in> Namespace_owned E (clu_namespaces c ! m)"
      by (auto simp: Cluster_owned_def in_set_conv_nth)
    then show "x \<in> Cluster_owned E c' \<union> App_owned E (?wls ! i)"
    proof cases
      case 1
      then show ?thesis using c' by (auto simp: Cluster_owned_def)
    next
      case 2
      show ?thesis
      proof (cases "m = j")
        case True
        then show ?thesis using 2(2) old inn by (auto simp: Cluster_owned_def n_def)
      next
        case False
        then have "clu_namespaces c' ! m = clu_namespaces c ! m" using jk(4) by simp
        moreover have "m < length (clu_namespaces c')" using 2(1) jk(4) by simp
        ultimately have "clu_namespaces c ! m \<in> set (clu_namespaces c')" by (metis nth_mem)
        then show ?thesis using 2(2) by (auto simp: Cluster_owned_def)
      qed
    qed
  qed
qed

text \<open>A tick of the workload ticker is the refresh of one application.\<close>

lemma workload_tick_refreshes:
  assumes "scaler_workload_tick E c w = Returns (c', w', e)"
  obtains "GetRefreshableInstances c = []" "c' = c" "w' = w" "e = None"
    | i r1 a info where "i < length (GetRefreshableInstances c)"
      "App_Refresh E (GetRefreshableInstances c ! i) (w\<lparr>rnd := r1\<rparr>) = Returns (a, w', info, e)"
      "c' = c\<lparr>clu_namespaces := update_app i a (clu_namespaces c)\<rparr>"
proof (cases "GetRefreshableInstances c = []")
  case True
  then have "c' = c \<and> w' = w \<and> e = None" using assms by (simp add: scaler_workload_tick_def)
  with True show thesis by (elim conjE) (rule that(1))
next
  case False
  obtain i r1 where i: "Intn (length (GetRefreshableInstances c)) (rnd w) = (i, r1)" by fastforce
  then obtain a info where "App_Refresh E (GetRefreshableInstances c ! i) (w\<lparr>rnd := r1\<rparr>) = Returns (a, w', info, e)"
    "c' = c\<lparr>clu_namespaces := update_app i a (clu_namespaces c)\<rparr>"
    using assms False by (auto simp: scaler_workload_tick_def obind_Returns_iff)
  moreover have "i < length (GetRefreshableInstances c)" using i False by (auto simp: Intn_def)
  ultimately show thesis by (rule that(2) [rotated])
qed

section \<open>Refreshing configuration\<close>

lemma setupConfig_entries:
  assumes "setupConfig cfg r = Returns (cfg1, r1)"
  shows "\<exists>n b. cfg1 = cfg(''RandNumber'' \<mapsto> CInt n, ''Rand'' \<mapsto> CBool b)"
  using assms by (auto simp: setupConfig_def Let_def split: prod.splits option.splits cfgval.splits)

lemma Templated_Refresh_live:
  assumes run: "Templated_Refresh te env v w = Returns (v', w', info, e)" and st: "name_stable te env v"
  shows "Templated_owned te env v' = Templated_owned te env v \<and> live env w' \<subseteq> live env w \<union> Templated_owned te env v'"
proof -
  obtain cfg1 r1 where s: "setupConfig (tp_Config v) (rnd w) = Returns (cfg1, r1)"
    using run by (auto simp: Templated_Refresh_def obind_Returns_iff)
  obtain n r2 where n: "Intn 10000 r1 = (n, r2)" by fastforce
  define v1 where "v1 = v\<lparr>tp_Config := cfg1(''RandNumber'' \<mapsto> CInt (int n + 1))\<rparr>"
  have rest: "obind (getTemplated te v1) (\<lambda>r. case r of Inl err \<Rightarrow> Returns (v1, w\<lparr>rnd := r2\<rparr>, [], Some err)
      | Inr objs \<Rightarrow> obind (ssa_all env objs (w\<lparr>rnd := r2\<rparr>)) (\<lambda>(e, w2). case e of
            Some err \<Rightarrow> Returns (v1, w2, [], Some err)
          | None \<Rightarrow> Returns (v1, w2, join_with '','' (map refresh_name objs), None))) = Returns (v', w', info, e)"
    using run s n unfolding v1_def by (simp add: Templated_Refresh_def Let_def)
  obtain m b where "cfg1 = (tp_Config v)(''RandNumber'' \<mapsto> CInt m, ''Rand'' \<mapsto> CBool b)" using setupConfig_entries [OF s] by blast
  then have "cfg1(''RandNumber'' \<mapsto> CInt (int n + 1)) = (tp_Config v)(''RandNumber'' \<mapsto> CInt (int n + 1), ''Rand'' \<mapsto> CBool b)" by auto
  then have own: "Templated_owned te env v1 = Templated_owned te env v" using st by (simp add: name_stable_def v1_def)
  obtain g where g: "getTemplated te v1 = Returns g" using rest by (auto simp: obind_Returns_iff)
  show ?thesis
  proof (cases g)
    case (Inl err)
    then show ?thesis using rest g own by auto
  next
    case (Inr objs)
    obtain e1 w2 where a: "ssa_all env objs (w\<lparr>rnd := r2\<rparr>) = Returns (e1, w2)" using rest g Inr by (auto simp: obind_Returns_iff)
    then have "v' = v1 \<and> w' = w2" using rest g Inr by (auto split: option.splits)
    then show ?thesis using ssa_all_live [OF a] own g Inr by (simp add: Templated_owned_def)
  qed
qed

lemma refresh_config_live:
  assumes ok: "env_documented E" and run: "refresh_config E s w = Returns (s', w', info, e)" and st: "stable_sim E s"
  shows "app_sim_owned E s' = app_sim_owned E s \<and> live (kube E) w' \<subseteq> live (kube E) w \<union> app_sim_owned E s'"
proof (cases s)
  case (SConfig t)
  then obtain t1 where "Templated_Refresh (engine E) (kube E) t w = Returns (t1, w', info, e)" "s' = SConfig t1"
    using run by (auto simp: obind_Returns_iff)
  then show ?thesis using Templated_Refresh_live st SConfig by fastforce
next
  case (SWorkloadEntry x)
  then obtain k r1 x1 where "WorkloadEntry_Run (kube E) (x\<lparr>wl_Weight := k\<rparr>) (w\<lparr>rnd := r1\<rparr>) = Returns (x1, w', e)" "s' = SWorkloadEntry x1"
    using run by (auto simp: obind_Returns_iff WorkloadEntry_Refresh_def Let_def split: prod.splits)
  then show ?thesis using WorkloadEntry_Run_live [OF env_documented_parts(1) [OF ok]] SWorkloadEntry by fastforce
qed (use run in auto)

lemma App_owned_map: "App_owned E a = \<Union> (set (map (app_sim_owned E) (getSims a)))"
  by (simp add: App_owned_def)

text \<open>The place of a configuration exists, and writing a refreshed one back keeps what its application owns.\<close>

lemma assign_app:
  assumes ref: "ref \<in> set (config_refs c)" and s: "refresh_config E (deref (GetRefreshableInstances c) ref) w = Returns (s, w', info, e)"
    and own: "app_sim_owned E s = app_sim_owned E (deref (GetRefreshableInstances c) ref)"
  obtains i a where "i < length (GetRefreshableInstances c)" "assign ref s c = c\<lparr>clu_namespaces := update_app i a (clu_namespaces c)\<rparr>"
    "App_owned E a = App_owned E (GetRefreshableInstances c ! i)" "app_sim_owned E s \<subseteq> App_owned E a"
proof -
  let ?as = "GetRefreshableInstances c"
  obtain i where i: "i < length ?as" "ref \<in> set (app_refs i (?as ! i))" using ref by (auto simp: config_refs_def Let_def)
  show thesis
  proof (cases ref)
    case (RefEntry i0)
    then have i0: "i0 = i" "ap_workloadEntry (?as ! i) \<noteq> None" using i(2) by (auto simp: app_refs_def split: if_splits)
    then obtain x0 where x0: "ap_workloadEntry (?as ! i) = Some x0" by blast
    obtain x where x: "s = SWorkloadEntry x" using s RefEntry by (auto simp: obind_Returns_iff)
    define a where "a = (?as ! i)\<lparr>ap_workloadEntry := Some x\<rparr>"
    have "App_owned E a = App_owned E (?as ! i)"
      using own x RefEntry i0 x0 by (simp add: App_owned_map getSims_def fixed_sims_def a_def opt_def)
    moreover have "app_sim_owned E s \<subseteq> App_owned E a"
      by (auto simp: x a_def App_owned_def getSims_def fixed_sims_def opt_def)
    ultimately show thesis using that [OF i(1), of a] RefEntry i0 x by (simp add: a_def)
  next
    case (RefConfig i0 k)
    then have i0: "i0 = i" "k < length (ap_configs (?as ! i))" using i(2) by (auto simp: app_refs_def split: if_splits)
    obtain t where t: "s = SConfig t" using s RefConfig by (auto simp: obind_Returns_iff)
    define a where "a = (?as ! i)\<lparr>ap_configs := (ap_configs (?as ! i))[k := t]\<rparr>"
    have "map (app_sim_owned E) (map SConfig (ap_configs a)) = map (app_sim_owned E) (map SConfig (ap_configs (?as ! i)))"
      using own t RefConfig i0 by (simp add: a_def map_update list_update_same_conv)
    then have "App_owned E a = App_owned E (?as ! i)"
      by (simp only: App_owned_map getSims_def fixed_sims_def map_append) (simp add: a_def)
    moreover have "SConfig t \<in> set (getSims a)"
      using set_update_memI [OF i0(2), of t] by (simp add: a_def getSims_def fixed_sims_def)
    then have "app_sim_owned E s \<subseteq> App_owned E a" unfolding t App_owned_def by blast
    ultimately show thesis using that [OF i(1), of a] RefConfig i0 t by (simp add: a_def)
  qed
qed

lemma stable_deref:
  assumes st: "stable_names E c" and ref: "ref \<in> set (config_refs c)"
  shows "stable_sim E (deref (GetRefreshableInstances c) ref)"
proof (cases ref)
  case (RefConfig i k)
  then have "i < length (GetRefreshableInstances c)" "k < length (ap_configs (GetRefreshableInstances c ! i))"
    using ref by (auto simp: config_refs_def app_refs_def Let_def split: if_splits)
  then show ?thesis using st RefConfig unfolding stable_names_def by (metis deref.simps(2) nth_mem stable_sim.simps(1))
qed simp

lemma config_tick_live:
  assumes ok: "env_documented E" and st: "stable_names E c" and run: "scaler_config_tick E c w = Returns (c', w', e)"
  shows "live (kube E) w' \<subseteq> live (kube E) w \<union> Cluster_owned E c' \<and> Cluster_owned E c \<subseteq> Cluster_owned E c'"
proof (cases "config_refs c = []")
  case True
  then show ?thesis using run by (simp add: scaler_config_tick_def)
next
  case False
  obtain k r1 where k: "Intn (length (config_refs c)) (rnd w) = (k, r1)" by fastforce
  then obtain s info where s: "refresh_config E (deref (GetRefreshableInstances c) (config_refs c ! k)) (w\<lparr>rnd := r1\<rparr>) = Returns (s, w', info, e)"
    and c': "c' = assign (config_refs c ! k) s c" using run False by (auto simp: scaler_config_tick_def obind_Returns_iff Let_def)
  have ref: "config_refs c ! k \<in> set (config_refs c)" using k False by (auto simp: Intn_def)
  note r = refresh_config_live [OF ok s stable_deref [OF st ref]]
  obtain i a where a: "i < length (GetRefreshableInstances c)" "c' = c\<lparr>clu_namespaces := update_app i a (clu_namespaces c)\<rparr>"
    "App_owned E a = App_owned E (GetRefreshableInstances c ! i)" "app_sim_owned E s \<subseteq> App_owned E a"
    using assign_app [OF ref s] r c' by metis
  note u = update_app_owned [OF a(1,2), of E, unfolded a(3)]
  have "app_sim_owned E s \<subseteq> Cluster_owned E c'" using order_trans [OF a(4) u(2) [folded a(3)]] .
  moreover have "Cluster_owned E c \<subseteq> Cluster_owned E c'" by (rule order_trans [OF u(1) Un_least [OF order_refl u(2)]])
  moreover have "live (kube E) w' \<subseteq> live (kube E) w \<union> app_sim_owned E s" using conjunct2 [OF r] by simp
  ultimately show ?thesis by blast
qed

lemma background_live:
  assumes ok: "env_documented E" and st: "background E (c, w) (c', w')"
    and inv: "live (kube E) w \<subseteq> L \<union> Cluster_owned E c"
  shows "live (kube E) w' \<subseteq> L \<union> Cluster_owned E c'"
  using st
proof (cases rule: background.cases)
  case (lease n)
  then show ?thesis using lease_tick_live [OF env_documented_parts(1) [OF ok], of n w] inv by (auto simp: Cluster_owned_def)
next
  case (reconcile cached)
  then show ?thesis using reconcile_pod_live [of "kube E" cached w] inv by (metis prod.collapse order_trans)
next
  case workload
  then show ?thesis
  proof (cases rule: workload_tick_refreshes)
    case (2 i r1 a info)
    show ?thesis using update_app_owned [OF 2(1,3), of E] Refresh_owned [OF ok 2(2)] inv by simp blast
  qed (use inv in simp)
next
  case (config e)
  then show ?thesis using config_tick_live [OF ok] inv by blast
qed

interpretation cluster_runs: step_invariant "background E"
    "\<lambda>s. live (kube E) (snd s) \<subseteq> L \<union> Cluster_owned E (fst s)" "env_documented E"
  by unfold_locales (use background_live in \<open>metis prod.collapse\<close>)

lemma background_star_live:
  assumes ok: "env_documented E" and "(background E)\<^sup>*\<^sup>* s s'"
  shows "live (kube E) (snd s) \<subseteq> L \<union> Cluster_owned E (fst s) \<Longrightarrow> live (kube E) (snd s') \<subseteq> L \<union> Cluster_owned E (fst s')"
  by (rule cluster_runs.star_inv [OF assms])

text \<open>
  C20: A cluster cleans up after itself: after its Run, with or without an error, and after any number of
  lease renewals, pod reconciliations, refreshes of workloads that succeed and of configurations whose names are
  stable, in any order, a Cleanup that reports no error leaves nothing in Kubernetes that was not there before Run.
\<close>

theorem Cluster_cleanup_leaves_nothing:
  assumes "env_documented E" and "Cluster_Run E c w = Returns (c1, w1, e1)"
    and "(background E)\<^sup>*\<^sup>* (c1, w1) (c2, w2)" and "Cluster_Cleanup E c2 w2 = Returns (c3, w3, None)"
  shows "live (kube E) w3 \<subseteq> live (kube E) w"
  using background_star_live [OF assms(1,3), of "live (kube E) w"] Cluster_Run_live [OF assms(1,2)]
    Cluster_Cleanup_live [OF assms(1,4)] by auto


definition sample_namespace :: Namespace where
  "sample_namespace =
     \<lparr>ns_Spec = \<lparr>nsp_Name = ''ns'', nsp_TemplateDefinitions = Map.empty, nsp_Deployments = [], nsp_Templates = [],
                nsp_StableNames = True, nsp_Waypoint = [], nsp_GracePeriod = 0\<rparr>,
      ns_ns = \<lparr>kn_Name = ''ns'', kn_Labels = ns_labels []\<rparr>,
      ns_sa = [(''default'', \<lparr>sa_Namespace = ''ns'', sa_Name = ''default''\<rparr>)], ns_deployments = [], ns_configs = []\<rparr>"

definition sample_cluster :: Cluster where
  "sample_cluster = \<lparr>clu_Name = ''primary'', clu_Spec = zero_config, clu_namespaces = [sample_namespace],
     clu_nodes = [sample_node], clu_running = False\<rparr>"

lemma memory_Apply: "\<exists>o2 w'. Apply memory_env (Concrete t) ob w = (o2, None, w')"
  by (cases "srv_state w (obj_key t ob)")
    (simp_all add: Apply_def internalApply_def exec_def memory_env_def not_found_def hasStatus_def hasStatusInternal_def
      update_def update_fn_def updateStatus_def updateStatus_fn_def refresh_version_def obj_key_def numeral_3_eq_3
      Let_def next_version_def split: kstatus.splits)

lemma memory_ns_Run: "\<exists>w'. Namespace_Run memory_sim sample_namespace w = Returns (sample_namespace, w', None)"
proof -
  obtain o1 w1 where a: "Apply memory_env (Concrete ''Namespace'') (getKubernetesNamespace (ns_ns sample_namespace)) w = (o1, None, w1)"
    using memory_Apply by blast
  have "apply_namespace memory_env (ns_ns sample_namespace) (Suc 99) None w = (None, w1)"
    by (simp only: apply_namespace.simps a prod.case option.case)
  moreover have "(100::nat) = Suc 99" by simp
  ultimately have k: "KubernetesNamespace_Run memory_env (ns_ns sample_namespace) w = Returns (ns_ns sample_namespace, w1, None)"
    unfolding KubernetesNamespace_Run_def by (simp only: prod.case)
  define w2 where "w2 = ContextSleep (kruntime memory_env) 0 w1"
  let ?sa = "\<lparr>sa_Namespace = ''ns'', sa_Name = ''default''\<rparr>"
  obtain o3 w3 where b: "Apply memory_env (Concrete ''ServiceAccount'') (getServiceAccount ?sa) w2 = (o3, None, w3)"
    using memory_Apply by blast
  have alive: "\<not> IsDone (kruntime memory_env) v" for v by (simp add: IsDone_def memory_env_def)
  have sims: "ns_base_sims sample_namespace = [NNamespace (ns_ns sample_namespace), NServiceAccount ?sa]"
    by (simp add: ns_base_sims_def sample_namespace_def)
  have "agg_Run (kruntime memory_env) ns_sim_type (ns_sim_run memory_sim) \<lparr>Simulations = ns_base_sims sample_namespace, Delay = 0\<rparr> w =
      Returns (\<lparr>Simulations = ns_base_sims sample_namespace, Delay = 0\<rparr>, ContextSleep (kruntime memory_env) 0 w3, None)"
    using k b alive by (simp add: agg_Run_def sims lift_sim_def w2_def ServiceAccount_Run_def apply_obj_def IgnoreExists_def)
  then show ?thesis by (simp add: Namespace_Run_def) (simp add: sample_namespace_def)
qed

lemma cleanup_seq_total:
  assumes "\<And>s w. P s \<Longrightarrow> \<exists>s' w'. cleanup s w = Returns (s', w', None)"
  shows "\<forall>s \<in> set ss. P s \<Longrightarrow> \<exists>ss' w'. cleanup_seq tn cleanup ss w None = Returns (ss', w', None)"
proof (induction ss arbitrary: w)
  case (Cons s ss)
  obtain s' w' where a: "cleanup s w = Returns (s', w', None)" using assms [of s w] Cons.prems by auto
  then show ?case using Cons.IH [of w'] Cons.prems by auto
qed simp

lemma memory_delete_obj: "\<exists>w'. delete_obj memory_env t ob x w = Returns (x, w', None)"
  using memory_delete [of t ob w] by (auto simp: delete_obj_def)

definition bare_namespace :: "Namespace \<Rightarrow> bool" where
  "bare_namespace n \<longleftrightarrow> ns_deployments n = [] \<and> ns_configs n = []"

fun bare_ns_sim :: "ns_sim \<Rightarrow> bool" where
  "bare_ns_sim (NNamespace x) = True"
| "bare_ns_sim (NServiceAccount x) = True"
| "bare_ns_sim s = False"

lemma memory_ns_sim_cleanup: "bare_ns_sim s \<Longrightarrow> \<exists>s' w'. ns_sim_cleanup memory_sim s w = Returns (s', w', None)"
  by (cases s) (use memory_delete_obj in \<open>fastforce simp: KubernetesNamespace_Cleanup_def ServiceAccount_Cleanup_def\<close>)+

lemma memory_Namespace_Cleanup:
  assumes "bare_namespace n"
  shows "\<exists>n' w'. Namespace_Cleanup memory_sim n w = Returns (n', w', None) \<and> bare_namespace n'"
proof -
  have bare: "\<forall>s \<in> set (rev (ns_all_sims n)). bare_ns_sim s"
    using assms by (auto simp: ns_all_sims_def ns_base_sims_def bare_namespace_def)
  obtain ss w' where ss: "cleanup_seq ns_sim_type (ns_sim_cleanup memory_sim) (rev (ns_all_sims n)) w None = Returns (ss, w', None)"
    using cleanup_seq_total [of bare_ns_sim "ns_sim_cleanup memory_sim", OF memory_ns_sim_cleanup bare] by blast
  have "\<not> is_app s" if "bare_ns_sim s" for s using that by (cases s) auto
  then have none: "\<forall>s \<in> set (rev (ns_all_sims n)). \<not> is_app s" using bare by blast
  have "ss = rev (ns_all_sims n)"
    by (rule ns_kept_base [OF cleanup_seq_all2 [OF ns_sim_cleanup_kept ss] none])
  then have "apps_of ss = []" using none by (metis apps_of_none)
  then show ?thesis using ss assms by (simp add: Namespace_Cleanup_def agg_Cleanup_def bare_namespace_def)
qed

fun bare_sim :: "cluster_sim \<Rightarrow> bool" where
  "bare_sim (CNode n) \<longleftrightarrow> n_xds n = None"
| "bare_sim (CNamespace n) \<longleftrightarrow> bare_namespace n"

lemma memory_cluster_sim_cleanup: "bare_sim s \<Longrightarrow> \<exists>s' w'. cluster_sim_cleanup memory_sim s w = Returns (s', w', None) \<and> bare_sim s'"
proof (cases s)
  case (CNode n)
  then show "bare_sim s \<Longrightarrow> ?thesis" using memory_Node_Cleanup [of n w] by auto
next
  case (CNamespace n)
  then show "bare_sim s \<Longrightarrow> ?thesis" using memory_Namespace_Cleanup [of n w] by auto
qed

lemma memory_Node_Run:
  "\<exists>n1 w1. Node_Run small_args memory_env sample_node w = Returns (n1, w1, None) \<and> n_xds n1 = None"
  by (cases "srv_state w (''Node'', [], ''n'')")
    (simp_all add: Node_Run_def sample_node_def ApplyRes_def internalApply_def exec_def memory_env_def not_found_def
      hasStatus_def hasStatusInternal_def getNode_def update_def update_fn_def updateStatus_def updateStatus_fn_def
      refresh_version_def obj_key_def numeral_3_eq_3 Let_def next_version_def new_object_def)

lemma sample_cluster_run:
  "\<exists>c1 w1 c3 w3. Cluster_Run memory_sim sample_cluster memory_world = Returns (c1, w1, None) \<and> clu_running c1 \<and> clu_nodes c1 \<noteq> [] \<and>
     (background memory_sim)\<^sup>*\<^sup>* (c1, w1) (c1, snd (lease_tick memory_env (hd (clu_nodes c1)) w1)) \<and>
     Cluster_Cleanup memory_sim c1 (snd (lease_tick memory_env (hd (clu_nodes c1)) w1)) = Returns (c3, w3, None)"
proof -
  let ?rt = "kruntime memory_env"
  have alive: "\<not> IsDone ?rt v" for v by (simp add: IsDone_def memory_env_def)
  obtain n1 w1 where n: "Node_Run small_args memory_env sample_node memory_world = Returns (n1, w1, None)" "n_xds n1 = None"
    using memory_Node_Run by blast
  define w2 where "w2 = ContextSleep ?rt 0 w1"
  obtain w3 where m: "Namespace_Run memory_sim sample_namespace w2 = Returns (sample_namespace, w3, None)"
    using memory_ns_Run by blast
  define w4 where "w4 = ContextSleep ?rt 0 (ContextSleep ?rt 0 w3)"
  define c1 where "c1 = sample_cluster\<lparr>clu_nodes := [n1], clu_running := True\<rparr>"
  have run: "Cluster_Run memory_sim sample_cluster memory_world = Returns (c1, w4, None)"
    using n(1) m alive
    by (simp add: Cluster_Run_def agg_Run_def lift_sim_def sample_cluster_def zero_config_def nodes_of_def getIstioResources_def w2_def w4_def c1_def)
  let ?v = "snd (lease_tick memory_env (hd (clu_nodes c1)) w4)"
  have st: "(background memory_sim)\<^sup>*\<^sup>* (c1, w4) (c1, ?v)"
    by (rule r_into_rtranclp) (use background.lease [of "hd (clu_nodes c1)" c1 memory_sim w4] in \<open>simp add: c1_def\<close>)
  have "\<forall>s \<in> set (rev (clu_getSims c1)). bare_sim s"
    using n(2) by (simp add: clu_getSims_def getIstioResources_def c1_def sample_cluster_def sample_namespace_def bare_namespace_def)
  then have "\<exists>ss w'. run_par ''failed cleaning simulation '' cluster_sim_type (cluster_sim_cleanup memory_sim) (\<lambda>w. w)
      (one_by_one (length (clu_getSims c1))) (rev (clu_getSims c1)) ?v None = Returns (ss, w', None) \<and> (\<forall>s \<in> set ss. bare_sim s)"
    by (intro run_par_total [OF memory_cluster_sim_cleanup]) (simp_all add: execs_one_by_one)
  then obtain c3 w5 where cl: "Cluster_Cleanup memory_sim c1 ?v = Returns (c3, w5, None)"
    by (auto simp: Cluster_Cleanup_def agg_CleanupParallel_def)
  have "clu_running c1" "clu_nodes c1 \<noteq> []" by (simp_all add: c1_def)
  then show ?thesis using run st cl by blast
qed

lemma Cluster_cleanup_leaves_nothing_witness:
  "\<exists>c1 w1 c3 w3. Cluster_Run memory_sim sample_cluster memory_world = Returns (c1, w1, None) \<and> clu_running c1 \<and>
     Cluster_Cleanup memory_sim c1 (snd (lease_tick memory_env (hd (clu_nodes c1)) w1)) = Returns (c3, w3, None) \<and>
     live memory_env w3 \<subseteq> live memory_env memory_world"
proof -
  obtain c1 w1 c3 w3 where run: "Cluster_Run memory_sim sample_cluster memory_world = Returns (c1, w1, None)" "clu_running c1"
    and st: "(background memory_sim)\<^sup>*\<^sup>* (c1, w1) (c1, snd (lease_tick memory_env (hd (clu_nodes c1)) w1))"
    and cl: "Cluster_Cleanup memory_sim c1 (snd (lease_tick memory_env (hd (clu_nodes c1)) w1)) = Returns (c3, w3, None)"
    using sample_cluster_run by blast
  have "kube memory_sim = memory_env" by (simp add: memory_sim_def)
  then show ?thesis using Cluster_cleanup_leaves_nothing [OF memory_sim_documented run(1) st cl] run cl by auto
qed

end
