(* ===== verification/Cluster_Scaler.thy ===== *)
theory Cluster_Scaler
  imports Cluster_Laws
begin

text \<open>
  The cluster scaler (\<open>sims/cluster/cluster_scaler.go\<close>) as a state machine: Run starts a goroutine that takes
  ticks until the end of its context, Cleanup cancels that context and waits for the goroutine. What refreshes
  that fail cost: each leaves at most one pod behind. What it costs that the cluster's Run drops the scaler it
  starts, so that no Cleanup waits for it: a refresh may come after everything has been cleaned up. And what
  templates cost that name their objects at random.
\<close>

section \<open>Refreshes that fail\<close>

lemma Pod_owned_le1: "finite (Pod_owned p) \<and> card (Pod_owned p) \<le> 1"
  by (simp add: Pod_owned_def)

lemma App_owned_parts:
  "App_owned E x = \<Union> (app_sim_owned E ` set (fixed_sims x)) \<union> \<Union> (Pod_owned ` set (ap_pods x))"
  by (auto simp: App_owned_def getSims_def)

text \<open>Whatever its outcome, a refresh loses track of one pod at most, the one it takes out of the list.\<close>

lemma App_Refresh_any:
  assumes ok: "env_documented E" and run: "App_Refresh E a w = Returns (a', w', info, e)"
  shows "\<exists>p. live (kube E) w' \<subseteq> live (kube E) w \<union> App_owned E a' \<and> App_owned E a \<subseteq> App_owned E a' \<union> Pod_owned p"
proof (cases "ap_pods a = []")
  case True
  then show ?thesis using run by (auto simp: App_Refresh_def)
next
  case False
  obtain i r1 where i: "pick_pod (ap_pods a) (rnd w) = (i, r1)" by fastforce
  obtain p w1 where p: "makePod (ap_Spec a) (w\<lparr>rnd := r1\<rparr>) = Returns (p, w1)"
    using False run i by (auto simp: App_Refresh_def obind_Returns_iff)
  obtain p1 w2 e2 where r: "Pod_Run (sim_args E) (kube E) p w1 = Returns (p1, w2, e2)"
    using False run i p by (auto simp: App_Refresh_def obind_Returns_iff Let_def)
  define a1 where "a1 = a\<lparr>ap_pods := (ap_pods a)[i := p1]\<rparr>"
  have w': "a' = a1 \<and> live (kube E) w' \<subseteq> live (kube E) w2"
  proof (cases e2)
    case None
    obtain q w3 e3 where c: "Pod_Cleanup (kube E) (ap_pods a ! i) w2 = Returns (q, w3, e3)"
      using False run i p r None by (auto simp: App_Refresh_def obind_Returns_iff Let_def)
    then have "a' = a1 \<and> w' = w3"
      using False run i p r None by (cases e3) (simp_all add: App_Refresh_def Let_def a1_def)
    then show ?thesis using Pod_Cleanup_live [OF c] by simp
  next
    case (Some err)
    then show ?thesis using False run i p r by (simp add: App_Refresh_def Let_def a1_def)
  qed
  have il: "i < length (ap_pods a)" using pick_pod_less [OF False i] .
  have f: "fixed_sims a1 = fixed_sims a" by (simp add: a1_def fixed_sims_def)
  have "p1 \<in> set (ap_pods a1)" using il by (simp add: a1_def set_update_memI)
  then have "Pod_owned p1 \<subseteq> App_owned E a1" by (auto simp: App_owned_parts)
  then have "live (kube E) w' \<subseteq> live (kube E) w \<union> App_owned E a'"
    using w' Pod_Run_live [OF env_documented_parts(2) [OF ok] r] makePod_live [OF p, of "kube E"] unfolding live_rnd by blast
  moreover have "Pod_owned x \<subseteq> App_owned E a1 \<union> Pod_owned (ap_pods a ! i)" if "x \<in> set (ap_pods a)" for x
  proof (cases "x = ap_pods a ! i")
    case False
    then have "x \<in> set (ap_pods a1)" using that by (simp add: a1_def in_set_update)
    then show ?thesis by (auto simp: App_owned_parts)
  qed simp
  then have "App_owned E a \<subseteq> App_owned E a1 \<union> Pod_owned (ap_pods a ! i)"
    unfolding App_owned_parts [of E a] using f by (auto simp: App_owned_parts [of E a1])
  ultimately show ?thesis using w' by blast
qed

lemma workload_tick_any:
  assumes ok: "env_documented E" and run: "scaler_workload_tick E c w = Returns (c', w', e)"
  shows "\<exists>p. live (kube E) w' \<subseteq> live (kube E) w \<union> Cluster_owned E c' \<and> Cluster_owned E c \<subseteq> Cluster_owned E c' \<union> Pod_owned p"
  using run
proof (cases rule: workload_tick_refreshes)
  case (2 i r1 a info)
  obtain p where p: "live (kube E) w' \<subseteq> live (kube E) (w\<lparr>rnd := r1\<rparr>) \<union> App_owned E a"
      "App_owned E (GetRefreshableInstances c ! i) \<subseteq> App_owned E a \<union> Pod_owned p"
    using App_Refresh_any [OF ok 2(2)] by blast
  note u = update_app_owned [OF 2(1,3), of E]
  have "App_owned E (GetRefreshableInstances c ! i) \<subseteq> Cluster_owned E c' \<union> Pod_owned p" using p(2) u(2) by blast
  then have "Cluster_owned E c \<subseteq> Cluster_owned E c' \<union> Pod_owned p" using u(1) by blast
  moreover have "live (kube E) w' \<subseteq> live (kube E) w \<union> Cluster_owned E c'" using p(1) u(2) unfolding live_rnd by blast
  ultimately show ?thesis by blast
qed blast

text \<open>Background work in which \<open>n\<close> refreshes of workloads failed.\<close>

inductive background_run :: "'s simenv \<Rightarrow> nat \<Rightarrow> Cluster \<times> 's world \<Rightarrow> Cluster \<times> 's world \<Rightarrow> bool" for E where
  nothing: "background_run E 0 s s"
| work: "background_run E n s s1 \<Longrightarrow> background E s1 s2 \<Longrightarrow> background_run E n s s2"
| failed: "background_run E n s (c, w) \<Longrightarrow> scaler_workload_tick E c w = Returns (c', w', Some err) \<Longrightarrow>
    background_run E (Suc n) s (c', w')"

lemma background_run_live:
  assumes ok: "env_documented E" and run: "background_run E n s s'"
  shows "live (kube E) (snd s) \<subseteq> L \<union> Cluster_owned E (fst s) \<Longrightarrow>
    \<exists>K. finite K \<and> card K \<le> n \<and> live (kube E) (snd s') \<subseteq> L \<union> K \<union> Cluster_owned E (fst s')"
  using run
proof induction
  case (nothing s)
  then show ?case by (intro exI [of _ "{}"]) simp
next
  case (work n s s1 s2)
  then obtain K where K: "finite K" "card K \<le> n" "live (kube E) (snd s1) \<subseteq> (L \<union> K) \<union> Cluster_owned E (fst s1)" by blast
  have "live (kube E) (snd s2) \<subseteq> (L \<union> K) \<union> Cluster_owned E (fst s2)"
    using background_live [OF ok _ K(3), of "fst s2" "snd s2"] work.hyps(2) by simp
  then show ?case using K by blast
next
  case (failed n s c w c' w' err)
  then obtain K where K: "finite K" "card K \<le> n" "live (kube E) w \<subseteq> L \<union> K \<union> Cluster_owned E c" by auto
  obtain p where p: "live (kube E) w' \<subseteq> live (kube E) w \<union> Cluster_owned E c'" "Cluster_owned E c \<subseteq> Cluster_owned E c' \<union> Pod_owned p"
    using workload_tick_any [OF ok failed.hyps(2)] by blast
  have "card (K \<union> Pod_owned p) \<le> Suc n"
    using card_Un_le [of K "Pod_owned p"] K(2) Pod_owned_le1 [of p] by linarith
  moreover have "live (kube E) w' \<subseteq> L \<union> (K \<union> Pod_owned p) \<union> Cluster_owned E c'" using K(3) p by blast
  ultimately show ?case using K(1) Pod_owned_le1 [of p] by (intro exI [of _ "K \<union> Pod_owned p"]) simp
qed


section \<open>What exists in memory\<close>

lemma memory_ssa_live:
  "\<exists>w'. ApplyRealSSA memory_env (Concrete t) ob w = Returns (None, w') \<and>
     live memory_env w' = insert (obj_key t ob) (live memory_env w)"
  by (simp add: ApplyRealSSA_def resource_of_def patcher_def exec_def memory_env_def obj_key_def live_def Let_def split: prod.splits)

lemma memory_delete_live:
  "\<exists>w'. Delete memory_env (Concrete t) ob w = Returns (None, w') \<and> live memory_env w' = live memory_env w - {obj_key t ob}"
  by (simp add: Delete_def exec_def memory_env_def not_found_def obj_key_def live_def Let_def split: prod.splits option.splits)

lemma memory_Pod_Run_live:
  assumes "plain_pod p"
  shows "\<exists>w'. Pod_Run ag memory_env p w = Returns (p\<lparr>p_created := True\<rparr>, w', None) \<and>
    live memory_env w' = insert (obj_key ''Pod'' (getPod p)) (live memory_env w)"
proof -
  obtain w' where w': "ApplyRealSSA memory_env (Concrete ''Pod'') (getPod p) w = Returns (None, w')"
    "live memory_env w' = insert (obj_key ''Pod'' (getPod p)) (live memory_env w)"
    using memory_ssa_live by blast
  have "apply_pod memory_env (getPod p) (Suc 9) None w = Returns (True, None, w')"
    by (simp only: apply_pod.simps w'(1) obind.simps prod.case option.case)
  moreover have "(10::nat) = Suc 9" by simp
  ultimately have "apply_pod memory_env (getPod p) 10 None w = Returns (True, None, w')" by (simp only:)
  then show ?thesis using assms w'(2) by (simp add: Pod_Run_def plain_pod_def)
qed

lemma memory_Pod_Cleanup_live:
  assumes "plain_pod p" and "p_created p"
  shows "\<exists>w'. Pod_Cleanup memory_env p w = Returns (p, w', None) \<and> live memory_env w' = live memory_env w - {obj_key ''Pod'' (getPod p)}"
  using memory_delete_live [of "''Pod''" "getPod p" w] assms by (auto simp: Pod_Cleanup_def plain_pod_def)

section \<open>A cluster with one pod\<close>

definition lone_app :: Application where
  "lone_app = (empty_application (sample_spec PlainType 1))\<lparr>ap_pods := [sample_pod ''a'' True]\<rparr>"

definition lone_cluster :: Cluster where
  "lone_cluster = \<lparr>clu_Name = ''primary'', clu_Spec = zero_config\<lparr>cc_Jitter := \<lparr>jc_Workloads = 1, jc_Config = 0\<rparr>\<rparr>,
     clu_namespaces = [sample_namespace\<lparr>ns_sa := [], ns_deployments := [lone_app]\<rparr>], clu_nodes = [], clu_running = True\<rparr>"

lemma lone_pod [simp]: "plain_pod (sample_pod uid b)" "p_created (sample_pod uid b) = b"
  by (simp_all add: plain_pod_def sample_pod_def HasProxy_def app_type_defs)

lemma lone_sims [simp]: "getSims lone_app = [SPod (sample_pod ''a'' True)]" "ap_pods lone_app = [sample_pod ''a'' True]"
  "ap_Spec lone_app = sample_spec PlainType 1"
  by (simp_all add: getSims_def fixed_sims_def opt_def lone_app_def empty_application_def)

lemma lone_app_Cleanup: "\<exists>w'. App_Cleanup memory_sim lone_app w = Returns (lone_app, w', None)"
proof -
  obtain w' where "Pod_Cleanup memory_env (sample_pod ''a'' True) w = Returns (sample_pod ''a'' True, w', None)"
    using memory_Pod_Cleanup_live [of "sample_pod ''a'' True" w] by auto
  then show ?thesis
    by (simp add: App_Cleanup_def agg_CleanupParallel_def one_by_one_def lift_sim_def pods_of_def)
qed

lemma lone_cluster_Cleanup: "\<exists>w'. Cluster_Cleanup memory_sim lone_cluster w = Returns (lone_cluster, w', None)"
proof -
  define n where "n = sample_namespace\<lparr>ns_sa := [], ns_deployments := [lone_app]\<rparr>"
  obtain w1 where a: "App_Cleanup memory_sim lone_app w = Returns (lone_app, w1, None)" using lone_app_Cleanup by blast
  obtain w2 where d: "delete_obj memory_env ''Namespace'' (getKubernetesNamespace (ns_ns n)) (ns_ns n) w1 = Returns (ns_ns n, w2, None)"
    using memory_delete_obj [of "''Namespace''" "getKubernetesNamespace (ns_ns n)" "ns_ns n" w1] by auto
  have sims: "rev (ns_all_sims n) = [NApp lone_app, NNamespace (ns_ns n)]"
    by (simp add: n_def ns_all_sims_def ns_base_sims_def sample_namespace_def)
  have "Namespace_Cleanup memory_sim n w = Returns (n\<lparr>ns_deployments := [lone_app]\<rparr>, w2, None)"
    using a d by (simp add: Namespace_Cleanup_def agg_Cleanup_def sims lift_sim_def KubernetesNamespace_Cleanup_def apps_of_def)
  moreover have "n\<lparr>ns_deployments := [lone_app]\<rparr> = n" by (simp add: n_def)
  ultimately show ?thesis
    by (simp add: Cluster_Cleanup_def clu_getSims_def getIstioResources_def agg_CleanupParallel_def one_by_one_def
        lift_sim_def nodes_of_def nss_of_def n_def lone_cluster_def)
qed


lemma makePod_lone:
  assumes "makePod (sample_spec PlainType n) w = Returns (p, w1)"
  shows "plain_pod p \<and> length (Pod_Name p) = 12"
proof -
  obtain u r1 where u: "GenUID (rnd w) = (u, r1)" by fastforce
  have "length u = 8" using write_runes_spec [OF u [unfolded GenUID_def]] by simp
  moreover have "pd_App (p_Spec p) = ''app'' \<and> pd_UID (p_Spec p) = u \<and> pd_AppType (p_Spec p) = PlainType"
    using assms u by (auto simp: makePod_def sample_spec_def NewPod_def Let_def split: prod.splits if_splits)
  ultimately show ?thesis by (simp add: Pod_Name_def plain_pod_def HasProxy_def app_type_defs)
qed

lemma pod_key_name: "obj_key ''Pod'' (getPod p) = obj_key ''Pod'' (getPod q) \<Longrightarrow> Pod_Name p = Pod_Name q"
  by (simp add: obj_key_def getPod_def Let_def)

lemma lone_app_Refresh:
  "\<exists>a' w' info p. App_Refresh memory_sim lone_app w = Returns (a', w', info, None) \<and> obj_key ''Pod'' (getPod p) \<in> live memory_env w'"
proof -
  have i: "pick_pod (ap_pods lone_app) (rnd w) = (0, rnd w)" by (simp add: pick_pod_def)
  obtain p w1 where p: "makePod (sample_spec PlainType 1) w = Returns (p, w1)" using makePod_sample by blast
  note pl = makePod_lone [OF p]
  obtain w2 where r: "Pod_Run small_args memory_env p w1 = Returns (p\<lparr>p_created := True\<rparr>, w2, None)"
    "live memory_env w2 = insert (obj_key ''Pod'' (getPod p)) (live memory_env w1)"
    using memory_Pod_Run_live pl by blast
  obtain w3 where c: "Pod_Cleanup memory_env (sample_pod ''a'' True) w2 = Returns (sample_pod ''a'' True, w3, None)"
    "live memory_env w3 = live memory_env w2 - {obj_key ''Pod'' (getPod (sample_pod ''a'' True))}"
    using memory_Pod_Cleanup_live [of "sample_pod ''a'' True" w2] by auto
  have "length (Pod_Name (sample_pod ''a'' True)) = 5" by (simp add: Pod_Name_def sample_pod_def)
  then have "Pod_Name p \<noteq> Pod_Name (sample_pod ''a'' True)" using pl by auto
  then have "obj_key ''Pod'' (getPod p) \<in> live memory_env w3" using r(2) c(2) pod_key_name by blast
  moreover have "\<exists>a' info. App_Refresh memory_sim lone_app w = Returns (a', w3, info, None)"
    using i p r(1) c(1) by (simp add: App_Refresh_def Let_def)
  ultimately show ?thesis by blast
qed

lemma lone_cluster_tick:
  "\<exists>c' w' p. scaler_workload_tick memory_sim lone_cluster w = Returns (c', w', None) \<and> obj_key ''Pod'' (getPod p) \<in> live memory_env w'"
proof -
  have as: "GetRefreshableInstances lone_cluster = [lone_app]" by (simp add: GetRefreshableInstances_def lone_cluster_def)
  obtain r1 where i: "Intn 1 (rnd w) = (0, r1)" by (simp add: Intn_def)
  obtain a' w' info p where "App_Refresh memory_sim lone_app (w\<lparr>rnd := r1\<rparr>) = Returns (a', w', info, None)"
    "obj_key ''Pod'' (getPod p) \<in> live memory_env w'" using lone_app_Refresh by blast
  then show ?thesis using as i by (auto simp: scaler_workload_tick_def Let_def)
qed

section \<open>A failed refresh\<close>

text \<open>A server that has room for the pod app-a only.\<close>

fun quota_srv :: "request \<Rightarrow> store \<Rightarrow> (gerror + kobj) \<times> store" where
  "quota_srv (Patch_req (r, ns, n) b sub) s =
     (if r = ''Pod'' \<and> n \<noteq> ''app-a'' then (Inl (ErrStatus ''Forbidden'' ''exceeded quota''), s)
      else memory_srv (Patch_req (r, ns, n) b sub) s)"
| "quota_srv req s = memory_srv req s"

definition quota_env :: "store kenv" where
  "quota_env = memory_env\<lparr>srv := quota_srv\<rparr>"

definition quota_sim :: "store simenv" where
  "quota_sim = memory_sim\<lparr>kube := quota_env\<rparr>"

lemma quota_parts [simp]: "kube quota_sim = quota_env" "sim_args quota_sim = small_args" "run_sched quota_sim n w = one_by_one n"
  "cleanup_sched quota_sim n w = one_by_one n" "kruntime quota_env = kruntime memory_env" "\<not> IsDone (kruntime memory_env) w"
  by (simp_all add: quota_sim_def quota_env_def memory_sim_def memory_env_def IsDone_def)

lemma quota_documented: "env_documented quota_sim"
  using memory_sim_documented
  by (simp add: env_documented_def retry_documented_def sleep_documented_def quota_sim_def quota_env_def memory_env_def)

lemma quota_ssa: "o_name ob = ''app-a'' \<Longrightarrow> \<exists>w'. ApplyRealSSA quota_env (Concrete ''Pod'') ob w = Returns (None, w') \<and>
    obj_key ''Pod'' ob \<in> live quota_env w'"
  by (simp add: ApplyRealSSA_def resource_of_def patcher_def exec_def quota_env_def memory_env_def obj_key_def live_def Let_def split: prod.splits)

lemma quota_refuses:
  assumes "o_name ob \<noteq> ''app-a''"
  shows "\<exists>w' err. ApplyRealSSA quota_env (Concrete ''Pod'') ob w = Returns (Some err, w') \<and> live quota_env w' = live quota_env w"
  using assms
  by (simp add: ApplyRealSSA_def resource_of_def patcher_def exec_def quota_env_def memory_env_def obj_key_def live_def Let_def split: prod.splits)

lemma quota_apply_pod:
  assumes "o_name ob \<noteq> ''app-a''"
  shows "\<exists>w' e. apply_pod quota_env ob n terr w = Returns (False, e, w') \<and> live quota_env w' = live quota_env w \<and>
    (terr \<noteq> None \<or> n \<noteq> 0 \<longrightarrow> e \<noteq> None)"
proof (induction n arbitrary: terr w)
  case (Suc n)
  obtain w1 err where a: "ApplyRealSSA quota_env (Concrete ''Pod'') ob w = Returns (Some err, w1)" "live quota_env w1 = live quota_env w"
    using quota_refuses [OF assms] by blast
  have "live quota_env (ctx_sleep (kruntime quota_env) d w1) = live quota_env w" for d
    using sleep_live [OF env_documented_parts(2) [OF quota_documented]] a(2) by simp
  then show ?case using Suc.IH [of "Some (ErrV ''failed to apply pod: '' err)" "ctx_sleep (kruntime quota_env) (500 * Millisecond) w1"] a(1) by auto
qed simp

lemma quota_Pod_Run_refused:
  assumes "Pod_Name p \<noteq> ''app-a''" and "\<not> p_created p"
  shows "\<exists>w' err. Pod_Run ag quota_env p w = Returns (p, w', Some err) \<and> live quota_env w' = live quota_env w"
proof -
  have "o_name (getPod p) \<noteq> ''app-a''" using assms(1) by (simp add: getPod_def Let_def)
  from quota_apply_pod [OF this, of 10 None w] show ?thesis using assms(2) by (auto simp: Pod_Run_def)
qed

lemma quota_Pod_Run_a:
  "\<exists>w'. Pod_Run ag quota_env (sample_pod ''a'' False) w = Returns (sample_pod ''a'' True, w', None) \<and>
     obj_key ''Pod'' (getPod (sample_pod ''a'' False)) \<in> live quota_env w'"
proof -
  have "o_name (getPod (sample_pod ''a'' False)) = ''app-a''" by (simp add: getPod_def Let_def Pod_Name_def sample_pod_def)
  then obtain w' where w': "ApplyRealSSA quota_env (Concrete ''Pod'') (getPod (sample_pod ''a'' False)) w = Returns (None, w')"
    "obj_key ''Pod'' (getPod (sample_pod ''a'' False)) \<in> live quota_env w'"
    using quota_ssa by blast
  have "apply_pod quota_env (getPod (sample_pod ''a'' False)) (Suc 9) None w = Returns (True, None, w')"
    by (simp only: apply_pod.simps w'(1) obind.simps prod.case option.case)
  moreover have "(10::nat) = Suc 9" by simp
  ultimately have "apply_pod quota_env (getPod (sample_pod ''a'' False)) 10 None w = Returns (True, None, w')" by (simp only:)
  then show ?thesis using w'(2) by (simp add: Pod_Run_def) (simp add: sample_pod_def HasProxy_def app_type_defs)
qed

lemma quota_Apply_namespace:
  "\<exists>o2 w'. Apply quota_env (Concrete ''Namespace'') ob w = (o2, None, w')"
  by (cases "srv_state w (obj_key ''Namespace'' ob)")
    (simp_all add: Apply_def internalApply_def exec_def quota_env_def memory_env_def not_found_def hasStatus_def hasStatusInternal_def
      update_def update_fn_def updateStatus_def updateStatus_fn_def refresh_version_def obj_key_def numeral_3_eq_3
      Let_def next_version_def split: kstatus.splits)

lemma quota_Delete: "\<exists>w'. Delete quota_env (Concrete t) ob w = Returns (None, w') \<and> live quota_env w' = live quota_env w - {obj_key t ob}"
  by (simp add: Delete_def exec_def quota_env_def memory_env_def not_found_def obj_key_def live_def Let_def split: prod.splits option.splits)

lemma quota_sleep [simp]: "live quota_env (ContextSleep (kruntime memory_env) d w) = live quota_env w"
  using sleep_live [OF env_documented_parts(2) [OF quota_documented]] by (simp add: ContextSleep_def)

text \<open>The cluster before its Run.\<close>

definition fresh_app :: Application where
  "fresh_app = (empty_application (sample_spec PlainType 1))\<lparr>ap_pods := [sample_pod ''a'' False]\<rparr>"

abbreviation lone_namespace :: "Application \<Rightarrow> Namespace" where
  "lone_namespace a \<equiv> sample_namespace\<lparr>ns_sa := [], ns_deployments := [a]\<rparr>"

definition fresh_cluster :: Cluster where
  "fresh_cluster = lone_cluster\<lparr>clu_namespaces := [lone_namespace fresh_app], clu_running := False\<rparr>"

abbreviation key_a :: key where
  "key_a \<equiv> obj_key ''Pod'' (getPod (sample_pod ''a'' False))"

lemma fresh_app_Run: "\<exists>w'. App_Run quota_sim fresh_app w = Returns (lone_app, w', None) \<and> key_a \<in> live quota_env w'"
proof -
  have sims: "getSims fresh_app = [SPod (sample_pod ''a'' False)]"
    by (simp add: getSims_def fixed_sims_def opt_def fresh_app_def empty_application_def)
  obtain w' where r: "Pod_Run small_args quota_env (sample_pod ''a'' False) (ContextSleep (kruntime memory_env) 0 w) =
      Returns (sample_pod ''a'' True, w', None)" "key_a \<in> live quota_env w'"
    using quota_Pod_Run_a by blast
  then show ?thesis
    by (simp add: App_Run_def agg_RunParallel_def one_by_one_def lift_sim_def pods_of_def sims) (simp add: fresh_app_def lone_app_def)
qed

lemma fresh_cluster_Run:
  "\<exists>w'. Cluster_Run quota_sim fresh_cluster w = Returns (lone_cluster, w', None) \<and> key_a \<in> live quota_env w'"
proof -
  let ?n = "lone_namespace fresh_app" and ?rt = "kruntime memory_env"
  obtain o1 w1 where a: "Apply quota_env (Concrete ''Namespace'') (getKubernetesNamespace (ns_ns ?n)) w = (o1, None, w1)"
    using quota_Apply_namespace by blast
  have "apply_namespace quota_env (ns_ns ?n) (Suc 99) None w = (None, w1)"
    by (simp only: apply_namespace.simps a prod.case option.case)
  moreover have "(100::nat) = Suc 99" by simp
  ultimately have k: "KubernetesNamespace_Run quota_env (ns_ns ?n) w = Returns (ns_ns ?n, w1, None)"
    unfolding KubernetesNamespace_Run_def by (simp only: prod.case)
  obtain w2 where app: "App_Run quota_sim fresh_app (ContextSleep ?rt 0 w1) = Returns (lone_app, w2, None)" "key_a \<in> live quota_env w2"
    using fresh_app_Run by blast
  let ?w3 = "ContextSleep ?rt 0 (ContextSleep ?rt 0 w2)"
  have sims: "ns_base_sims ?n = [NNamespace (ns_ns ?n)]" by (simp add: ns_base_sims_def sample_namespace_def)
  have ns: "Namespace_Run quota_sim ?n w = Returns (lone_namespace lone_app, ?w3, None)"
    using k app(1) by (simp add: Namespace_Run_def agg_Run_def sims lift_sim_def) (simp add: sample_namespace_def)
  have "Cluster_Run quota_sim fresh_cluster w = Returns (lone_cluster, ContextSleep ?rt 0 (ContextSleep ?rt 0 ?w3), None)"
    using ns by (simp add: Cluster_Run_def agg_Run_def lift_sim_def fresh_cluster_def lone_cluster_def zero_config_def nodes_of_def getIstioResources_def)
  then show ?thesis using app(2) by simp
qed

lemma quota_tick:
  "\<exists>p w' err. scaler_workload_tick quota_sim lone_cluster w =
       Returns (lone_cluster\<lparr>clu_namespaces := [lone_namespace (lone_app\<lparr>ap_pods := [p]\<rparr>)]\<rparr>, w', Some err) \<and>
     live quota_env w' = live quota_env w \<and> plain_pod p \<and> \<not> p_created p"
proof -
  have as: "GetRefreshableInstances lone_cluster = [lone_app]" by (simp add: GetRefreshableInstances_def lone_cluster_def)
  obtain r1 where i: "Intn 1 (rnd w) = (0, r1)" by (simp add: Intn_def)
  have z: "pick_pod (ap_pods lone_app) r = (0, r)" for r by (simp add: pick_pod_def)
  obtain p w1 where p: "makePod (sample_spec PlainType 1) (w\<lparr>rnd := r1\<rparr>) = Returns (p, w1)" using makePod_sample by blast
  note pl = makePod_lone [OF p]
  have "\<not> p_created p" using makePod_IP [OF p] by blast
  moreover have "length ''app-a'' = 5" by simp
  then have "Pod_Name p \<noteq> ''app-a''" using pl by auto
  ultimately obtain w2 err where r: "Pod_Run small_args quota_env p w1 = Returns (p, w2, Some err)" "live quota_env w2 = live quota_env w1"
    using quota_Pod_Run_refused by blast
  have "App_Refresh quota_sim lone_app (w\<lparr>rnd := r1\<rparr>) = Returns (lone_app\<lparr>ap_pods := [p]\<rparr>, w2, [], Some err)"
    using z p r(1) by (simp add: App_Refresh_def Let_def)
  then have "scaler_workload_tick quota_sim lone_cluster w =
      Returns (lone_cluster\<lparr>clu_namespaces := [lone_namespace (lone_app\<lparr>ap_pods := [p]\<rparr>)]\<rparr>, w2, Some err)"
    using as i by (simp add: scaler_workload_tick_def Let_def lone_cluster_def)
  moreover have "live quota_env w2 = live quota_env w" using r(2) makePod_live [OF p, of quota_env] by simp
  ultimately show ?thesis using pl \<open>\<not> p_created p\<close> by blast
qed

lemma quota_Cleanup:
  assumes "plain_pod p" and "\<not> p_created p"
  shows "\<exists>c' w'. Cluster_Cleanup quota_sim (lone_cluster\<lparr>clu_namespaces := [lone_namespace (lone_app\<lparr>ap_pods := [p]\<rparr>)]\<rparr>) w =
    Returns (c', w', None) \<and> (key_a \<in> live quota_env w \<longrightarrow> key_a \<in> live quota_env w')"
proof -
  let ?a = "lone_app\<lparr>ap_pods := [p]\<rparr>"
  have sims: "getSims ?a = [SPod p]" by (simp add: getSims_def fixed_sims_def opt_def lone_app_def empty_application_def)
  have "Pod_Cleanup quota_env p w = Returns (p, w, None)" using assms by (simp add: Pod_Cleanup_def plain_pod_def)
  then have a: "App_Cleanup quota_sim ?a w = Returns (?a, w, None)"
    by (simp add: App_Cleanup_def agg_CleanupParallel_def one_by_one_def lift_sim_def pods_of_def sims)
  obtain w1 where d: "Delete quota_env (Concrete ''Namespace'') (getKubernetesNamespace (ns_ns sample_namespace)) w = Returns (None, w1)"
    "live quota_env w1 = live quota_env w - {obj_key ''Namespace'' (getKubernetesNamespace (ns_ns sample_namespace))}"
    using quota_Delete by blast
  have ns_sims: "rev (ns_all_sims (lone_namespace ?a)) = [NApp ?a, NNamespace (ns_ns sample_namespace)]"
    by (simp add: ns_all_sims_def ns_base_sims_def sample_namespace_def)
  have "Namespace_Cleanup quota_sim (lone_namespace ?a) w = Returns (lone_namespace ?a, w1, None)"
    using a d(1) by (simp add: Namespace_Cleanup_def agg_Cleanup_def ns_sims lift_sim_def KubernetesNamespace_Cleanup_def delete_obj_def apps_of_def)
  then have "\<exists>c'. Cluster_Cleanup quota_sim (lone_cluster\<lparr>clu_namespaces := [lone_namespace ?a]\<rparr>) w = Returns (c', w1, None)"
    by (simp add: Cluster_Cleanup_def clu_getSims_def getIstioResources_def agg_CleanupParallel_def one_by_one_def lift_sim_def lone_cluster_def)
  moreover have "key_a \<noteq> obj_key ''Namespace'' (getKubernetesNamespace (ns_ns sample_namespace))" by (simp add: obj_key_def)
  ultimately show ?thesis using d(2) by blast
qed

text \<open>The pod that a failed refresh takes out of the list outlives the cluster; the bound is attained.\<close>

lemma failed_refresh_leaves_pod:
  "\<exists>w1 c2 w2 c3 w3. Cluster_Run quota_sim fresh_cluster memory_world = Returns (lone_cluster, w1, None) \<and>
     background_run quota_sim (Suc 0) (lone_cluster, w1) (c2, w2) \<and> Cluster_Cleanup quota_sim c2 w2 = Returns (c3, w3, None) \<and>
     key_a \<in> live quota_env w3"
proof -
  obtain w1 where run: "Cluster_Run quota_sim fresh_cluster memory_world = Returns (lone_cluster, w1, None)" "key_a \<in> live quota_env w1"
    using fresh_cluster_Run by blast
  obtain p w2 err where t: "scaler_workload_tick quota_sim lone_cluster w1 =
      Returns (lone_cluster\<lparr>clu_namespaces := [lone_namespace (lone_app\<lparr>ap_pods := [p]\<rparr>)]\<rparr>, w2, Some err)"
    "live quota_env w2 = live quota_env w1" "plain_pod p" "\<not> p_created p"
    using quota_tick by blast
  note bg = background_run.failed [OF background_run.nothing t(1)]
  show ?thesis using quota_Cleanup [OF t(3,4), of w2] run bg t(2) by blast
qed


section \<open>The scaler's goroutine\<close>

text \<open>
  \<open>ClusterScaler\<close>: whether Run has been called, which sets \<open>cancel\<close> and \<open>done\<close> and starts the goroutine; whether
  its own context has been cancelled, or the context it is derived from has ended; whether \<open>done\<close> is closed, the
  last thing the goroutine does.
\<close>

record ClusterScaler =
  sc_started :: bool
  sc_cancelled :: bool
  sc_ctx_ended :: bool
  sc_closed :: bool

definition zero_scaler :: ClusterScaler where
  "zero_scaler = \<lparr>sc_started = False, sc_cancelled = False, sc_ctx_ended = False, sc_closed = False\<rparr>"

definition ClusterScaler_Run :: "ClusterScaler \<Rightarrow> ClusterScaler \<times> gerror option" where
  "ClusterScaler_Run s = (s\<lparr>sc_started := True, sc_cancelled := False, sc_closed := False\<rparr>, None)"

text \<open>
  Cleanup of a nil scaler does nothing; one that has not run has a nil \<open>cancel\<close>. Otherwise it cancels, and then
  waits until \<open>done\<close> is closed.
\<close>

definition ClusterScaler_Cleanup :: "ClusterScaler option \<Rightarrow> ClusterScaler option outcome" where
  "ClusterScaler_Cleanup so =
     (case so of
        None \<Rightarrow> Returns None
      | Some s \<Rightarrow> if sc_started s then Returns (Some (s\<lparr>sc_cancelled := True\<rparr>)) else Panics ''nil pointer dereference'')"

definition cleanup_returned :: "ClusterScaler \<Rightarrow> bool" where
  "cleanup_returned s \<longleftrightarrow> sc_cancelled s \<and> sc_closed s"

text \<open>
  The steps of the goroutine and of its surroundings. While it runs, \<open>select\<close> may take a tick whether or not the
  context has ended: among several channels that are ready it chooses any.
\<close>

inductive scaler_step :: "'s simenv \<Rightarrow> ClusterScaler \<times> Cluster \<times> 's world \<Rightarrow> ClusterScaler \<times> Cluster \<times> 's world \<Rightarrow> bool" for E where
  workload: "sc_started s \<Longrightarrow> \<not> sc_closed s \<Longrightarrow> makeTicker (jc_Workloads (cc_Jitter (clu_Spec c))) \<Longrightarrow>
    scaler_workload_tick E c w = Returns (c', w', e) \<Longrightarrow> scaler_step E (s, c, w) (s, c', w')"
| config: "sc_started s \<Longrightarrow> \<not> sc_closed s \<Longrightarrow> makeTicker (jc_Config (cc_Jitter (clu_Spec c))) \<Longrightarrow>
    scaler_config_tick E c w = Returns (c', w', e) \<Longrightarrow> scaler_step E (s, c, w) (s, c', w')"
| leave: "sc_started s \<Longrightarrow> \<not> sc_closed s \<Longrightarrow> sc_cancelled s \<or> sc_ctx_ended s \<Longrightarrow>
    scaler_step E (s, c, w) (s\<lparr>sc_closed := True\<rparr>, c, w)"
| cleanup: "ClusterScaler_Cleanup (Some s) = Returns (Some s') \<Longrightarrow> scaler_step E (s, c, w) (s', c, w)"
| ended: "scaler_step E (s, c, w) (s\<lparr>sc_ctx_ended := True\<rparr>, c, w)"

lemma started_scaler: "fst (ClusterScaler_Run s) = \<lparr>sc_started = True, sc_cancelled = False, sc_ctx_ended = sc_ctx_ended s, sc_closed = False\<rparr>"
  by (simp add: ClusterScaler_Run_def)

text \<open>Every run of the loop is a run of the machine.\<close>

lemma loop_steps:
  assumes "sc_started s" and "\<not> sc_closed s"
  shows "ClusterScaler_loop E es c w = Returns (c', w') \<Longrightarrow> (scaler_step E)\<^sup>*\<^sup>* (s, c, w) (s, c', w')"
proof (induction E es c w rule: ClusterScaler_loop.induct)
  case (3 E es c w)
  then show ?case
    using scaler_step.workload [OF assms, of c E w] by (fastforce simp: obind_Returns_iff split: if_splits intro: converse_rtranclp_into_rtranclp)
next
  case (4 E es c w)
  then show ?case
    using scaler_step.config [OF assms, of c E w] by (fastforce simp: obind_Returns_iff split: if_splits intro: converse_rtranclp_into_rtranclp)
qed auto

text \<open>Once Cleanup has returned, the scaler touches nothing any more.\<close>

inductive_cases scaler_stepE: "scaler_step E (s, c, w) r"

interpretation scaler_runs: step_invariant "scaler_step E" "\<lambda>(s, c, w). cleanup_returned s \<and> (c, w) = x" True
  by unfold_locales (auto simp: cleanup_returned_def ClusterScaler_Cleanup_def elim!: scaler_stepE split: if_splits)

lemma scaler_quiet:
  assumes "(scaler_step E)\<^sup>*\<^sup>* (s, c, w) (s', c', w')" and "cleanup_returned s"
  shows "c' = c \<and> w' = w"
  using scaler_runs.star_inv [OF TrueI assms(1), of "(c, w)"] assms(2) by simp

text \<open>And it can always return: the goroutine leaves its loop without another tick.\<close>

lemma scaler_cleanup_returns:
  assumes "sc_started s"
  shows "\<exists>s'. (scaler_step E)\<^sup>*\<^sup>* (s, c, w) (s', c, w) \<and> cleanup_returned s'"
proof -
  define s1 where "s1 = s\<lparr>sc_cancelled := True\<rparr>"
  have a: "scaler_step E (s, c, w) (s1, c, w)"
    by (rule scaler_step.cleanup) (simp add: ClusterScaler_Cleanup_def assms s1_def)
  show ?thesis
  proof (cases "sc_closed s1")
    case True
    then show ?thesis using a by (intro exI [of _ s1]) (simp add: cleanup_returned_def s1_def)
  next
    case False
    have "scaler_step E (s1, c, w) (s1\<lparr>sc_closed := True\<rparr>, c, w)"
      by (rule scaler_step.leave) (use False assms in \<open>simp_all add: s1_def\<close>)
    then show ?thesis using a
      by (intro exI [of _ "s1\<lparr>sc_closed := True\<rparr>"]) (simp add: cleanup_returned_def s1_def)
  qed
qed

text \<open>What the scaler does to the cluster is background work, some of it in vain.\<close>

lemma workload_tick_Spec: "scaler_workload_tick E c w = Returns (c', w', e) \<Longrightarrow> clu_Spec c' = clu_Spec c"
  by (erule workload_tick_refreshes) simp_all

lemma scaler_background:
  assumes "(scaler_step E)\<^sup>*\<^sup>* (s, c, w) (s', c', w')" and cfg: "jc_Config (cc_Jitter (clu_Spec c)) \<le> 0"
  shows "\<exists>n. background_run E n (c, w) (c', w')"
proof -
  have "clu_Spec (fst (snd r)) = clu_Spec c \<and> (\<exists>n. background_run E n (c, w) (snd r))"
    if "(scaler_step E)\<^sup>*\<^sup>* (s, c, w) r" for r
    using that
  proof induction
    case (step r1 r2)
    then obtain n where n: "background_run E n (c, w) (snd r1)" by blast
    from step.hyps(2) show ?case
    proof cases
      case (workload s1 c1 w1 c2 w2 e)
      have "\<exists>m. background_run E m (c, w) (c2, w2)"
      proof (cases e)
        case None
        then show ?thesis using background_run.work n workload background.workload by (metis snd_conv)
      next
        case (Some err)
        then show ?thesis using background_run.failed n workload by (metis snd_conv)
      qed
      then show ?thesis using step.IH workload workload_tick_Spec by fastforce
    next
      case (config s1 c1 w1 c2 w2 e)
      then show ?thesis using step.IH cfg by (simp add: makeTicker_def split: if_splits)
    qed (use step.IH in simp_all)
  qed (use background_run.nothing in auto)
  from this [OF assms(1)] show ?thesis by simp
qed

text \<open>
  The cluster's Run drops the scaler that it starts, so nothing waits for the goroutine: when the context ends and
  the cluster is cleaned up, a refresh may still come, and leaves its pod behind.
\<close>

lemma late_refresh_leaves_pod:
  "\<exists>s c w1 c2 w2 p. (scaler_step memory_sim)\<^sup>*\<^sup>* (fst (ClusterScaler_Run zero_scaler), lone_cluster, w) (s, lone_cluster, w) \<and>
     sc_ctx_ended s \<and> Cluster_Cleanup memory_sim lone_cluster w = Returns (c, w1, None) \<and>
     scaler_step memory_sim (s, c, w1) (s, c2, w2) \<and> obj_key ''Pod'' (getPod p) \<in> live memory_env w2"
proof -
  define s where "s = fst (ClusterScaler_Run zero_scaler)\<lparr>sc_ctx_ended := True\<rparr>"
  have "scaler_step memory_sim (fst (ClusterScaler_Run zero_scaler), lone_cluster, w) (s, lone_cluster, w)"
    unfolding s_def by (rule scaler_step.ended)
  moreover have s: "sc_ctx_ended s" "sc_started s" "\<not> sc_closed s" by (simp_all add: s_def started_scaler)
  moreover obtain w1 where "Cluster_Cleanup memory_sim lone_cluster w = Returns (lone_cluster, w1, None)"
    using lone_cluster_Cleanup by blast
  moreover obtain c2 w2 p where t: "scaler_workload_tick memory_sim lone_cluster w1 = Returns (c2, w2, None)"
    and p: "obj_key ''Pod'' (getPod p) \<in> live memory_env w2" using lone_cluster_tick by blast
  moreover have "makeTicker (jc_Workloads (cc_Jitter (clu_Spec lone_cluster)))" by (simp add: makeTicker_def lone_cluster_def)
  ultimately show ?thesis using scaler_step.workload [OF s(2,3) _ t] by blast
qed

section \<open>Templates that name their objects at random\<close>

text \<open>A template that gives one object, whose name depends on the entry \<open>Rand\<close>, which every refresh inverts.\<close>

definition flip_engine :: templating where
  "flip_engine = \<lparr>te_execute = (\<lambda>t c. Inr (if c ''Rand'' = Some (CBool True) then ''x'' else ''y'')),
     te_decoder = name_decoder\<lparr>dc_chunks := (\<lambda>s. [s])\<rparr>\<rparr>"

definition flip_template :: Templated where
  "flip_template = \<lparr>tp_Template = ''t'', tp_Config = [''Namespace'' \<mapsto> CStr ''ns'', ''Rand'' \<mapsto> CBool False], tp_Refresh = Some True,
     tp_Refreshable = True\<rparr>"

definition named_object :: "string \<Rightarrow> kobj" where
  "named_object n = (new_object ''K'' (RawSpec n))\<lparr>o_name := n, o_gvk := ([], ''v1'', ''K''), o_namespace := ''ns''\<rparr>"

lemma flip_objects:
  "tp_Config v ''Namespace'' = Some (CStr ''ns'') \<Longrightarrow>
   getTemplated flip_engine v = Returns (Inr [named_object (if tp_Config v ''Rand'' = Some (CBool True) then ''x'' else ''y'')])"
  by (simp add: getTemplated_def flip_engine_def ParseYaml_def name_decoder_def parse_chunk_def blank_def is_space_def named_object_def Let_def)

lemma named_object_dyn: "resource_of memory_env object_iface (named_object n) = Returns ''K''"
    "obj_key ''K'' (named_object n) = (''K'', ''ns'', n)"
  by (simp_all add: resource_of_def object_iface_def dynamicClient_def memory_env_def named_object_def new_object_def obj_key_def)

lemma memory_named_ssa:
  "\<exists>w'. ApplyRealSSA memory_env object_iface (named_object n) w = Returns (None, w') \<and>
     live memory_env w' = insert (''K'', ''ns'', n) (live memory_env w)"
  unfolding ApplyRealSSA_def named_object_dyn
  by (simp add: patcher_def exec_def memory_env_def named_object_def new_object_def hasStatus_def hasStatusInternal_def live_def Let_def)

lemma memory_named_delete:
  "\<exists>w'. Delete memory_env object_iface (named_object n) w = Returns (None, w') \<and>
     live memory_env w' = live memory_env w - {(''K'', ''ns'', n)}"
  unfolding Delete_def named_object_dyn
  by (simp add: exec_def memory_env_def not_found_def live_def named_object_dyn(2) split: prod.splits option.splits)

text \<open>Whatever the world, the object of the run is still there after a refresh and a Cleanup, both without error.\<close>

lemma random_name_left_behind:
  "\<exists>w1 v2 w2 info w3. Templated_Run flip_engine memory_env flip_template w = Returns (flip_template, w1, None) \<and>
     Templated_Refresh flip_engine memory_env flip_template w1 = Returns (v2, w2, info, None) \<and>
     Templated_Cleanup flip_engine memory_env v2 w2 = Returns (v2, w3, None) \<and> (''K'', ''ns'', ''y'') \<in> live memory_env w3"
proof -
  have y: "getTemplated flip_engine flip_template = Returns (Inr [named_object ''y''])"
    using flip_objects [of flip_template] by (simp add: flip_template_def)
  obtain w1 where w1: "ApplyRealSSA memory_env object_iface (named_object ''y'') w = Returns (None, w1)"
    "(''K'', ''ns'', ''y'') \<in> live memory_env w1" using memory_named_ssa [of "''y''" w] by auto
  obtain k r1 where k: "Intn 10000 (rnd w1) = (k, r1)" by fastforce
  obtain n r2 where n: "Intn 10000 r1 = (n, r2)" by fastforce
  define v2 where "v2 = flip_template\<lparr>tp_Config := [''Namespace'' \<mapsto> CStr ''ns'', ''Rand'' \<mapsto> CBool True, ''RandNumber'' \<mapsto> CInt (int n + 1)]\<rparr>"
  have s: "setupConfig (tp_Config flip_template) (rnd w1) =
      Returns ([''Namespace'' \<mapsto> CStr ''ns'', ''Rand'' \<mapsto> CBool True, ''RandNumber'' \<mapsto> CInt (int k + 1)], r1)"
    using k by (simp add: setupConfig_def flip_template_def fun_upd_twist)
  have x: "getTemplated flip_engine v2 = Returns (Inr [named_object ''x''])" using flip_objects [of v2] by (simp add: v2_def)
  obtain w2 where w2: "ApplyRealSSA memory_env object_iface (named_object ''x'') (w1\<lparr>rnd := r2\<rparr>) = Returns (None, w2)"
    "(''K'', ''ns'', ''y'') \<in> live memory_env w2" using memory_named_ssa [of "''x''" "w1\<lparr>rnd := r2\<rparr>"] w1(2) by auto
  obtain w3 where w3: "Delete memory_env object_iface (named_object ''x'') w2 = Returns (None, w3)"
    "(''K'', ''ns'', ''y'') \<in> live memory_env w3" using memory_named_delete [of "''x''" w2] w2(2) by auto
  have "Templated_Run flip_engine memory_env flip_template w = Returns (flip_template, w1, None)"
    using y w1(1) by (simp add: Templated_Run_def)
  moreover have "\<exists>info. Templated_Refresh flip_engine memory_env flip_template w1 = Returns (v2, w2, info, None)"
    using s n x w2(1) by (simp add: Templated_Refresh_def Let_def v2_def)
  moreover have "Templated_Cleanup flip_engine memory_env v2 w2 = Returns (v2, w3, None)"
    using x w3(1) by (simp add: Templated_Cleanup_def)
  ultimately show ?thesis using w3(2) by blast
qed

end
