(* ===== verification/Cluster_Build.thy ===== *)
theory Cluster_Build
  imports Cluster_Laws
begin

text \<open>
  Building a cluster: the sizes, places and names of what NewCluster makes.
\<close>

section \<open>Pods of an application\<close>

lemma NewApplication_pods:
  assumes "NewApplication te s w = Returns (a, w')" and "as_Type s \<notin> {ExternalType, VMType}"
  shows "\<exists>w1. make_pods s (nat (as_Instances s)) w1 = Returns (ap_pods a, w')"
  using assms by (auto simp: NewApplication_def obind_Returns_iff Let_def split: if_splits)

lemma NewPod_Node: "NewPod s w = (p, w') \<Longrightarrow> pd_Node (p_Spec p) = pd_Node s"
  by (auto simp: NewPod_def Let_def split: prod.splits if_splits)

lemma make_pods_nodes:
  "make_pods s n w = Returns (ps, w') \<Longrightarrow>
   length ps = n \<and> (\<forall>p \<in> set ps. \<exists>r r'. as_Node s r = Returns (pd_Node (p_Spec p), r'))"
proof (induction n arbitrary: w ps)
  case (Suc n)
  obtain p w1 qs where p: "makePod s w = Returns (p, w1)" "make_pods s n w1 = Returns (qs, w')" "ps = p # qs"
    using Suc.prems by (auto simp: obind_Returns_iff)
  then have "\<exists>r'. as_Node s (rnd w) = Returns (pd_Node (p_Spec p), r')"
    by (auto simp: makePod_def obind_Returns_iff dest!: NewPod_Node)
  then have "\<exists>r r'. as_Node s r = Returns (pd_Node (p_Spec p), r')" by blast
  then show ?case using Suc.IH [OF p(2)] p(3) by auto
qed simp

section \<open>Applications of a namespace\<close>

definition ns_pods :: "Namespace \<Rightarrow> Pod list" where
  "ns_pods n = concat (map ap_pods (ns_deployments n))"

definition clu_pods :: "Cluster \<Rightarrow> Pod list" where
  "clu_pods c = concat (map ns_pods (clu_namespaces c))"

text \<open>The types of application that have pods.\<close>

definition has_pods :: "ApplicationConfig \<Rightarrow> bool" where
  "has_pods d \<longleftrightarrow> ac_Type d \<notin> {ExternalType, VMType} \<and> 0 \<le> ac_Replicas d \<and> 0 \<le> ac_Pods d"

lemma make_replicas_built:
  fixes w :: "'s world"
  shows "make_replicas te s idx d r k w = Returns (as, w') \<Longrightarrow>
   length as = k \<and> (\<forall>a \<in> set as. \<exists>suffix (w1 :: 's world) w2. NewApplication te (app_spec s d suffix) w1 = Returns (a, w2))"
proof (induction k arbitrary: r w as)
  case (Suc k)
  obtain suffix r1 where g: "GenUIDOrStableIdentifier (nsp_StableNames s) idx r (rnd w) = (suffix, r1)" by fastforce
  then obtain sf a w1 rest where a: "NewApplication te (app_spec s d sf) (w\<lparr>rnd := r1\<rparr>) = Returns (a, w1)"
    "make_replicas te s idx d (Suc r) k w1 = Returns (rest, w')" "as = a # rest"
    using Suc.prems by (auto simp: obind_Returns_iff createApplication_def Let_def)
  have "\<exists>suffix (w1 :: 's world) w2. NewApplication te (app_spec s d suffix) w1 = Returns (a, w2)" using a(1) by blast
  then show ?case using Suc.IH [OF a(2)] a(3) by simp
qed simp

definition placed :: "ApplicationConfig \<Rightarrow> Pod \<Rightarrow> bool" where
  "placed d p \<longleftrightarrow> (\<exists>r r'. ac_GetNode d r = Returns (pd_Node (p_Spec p), r'))"

lemma app_pods_of:
  assumes "NewApplication te (app_spec s d suffix) w = Returns (a, w')" and "has_pods d"
  shows "length (ap_pods a) = nat (ac_Pods d) \<and> (\<forall>p \<in> set (ap_pods a). placed d p)"
proof -
  obtain w1 where "make_pods (app_spec s d suffix) (nat (ac_Pods d)) w1 = Returns (ap_pods a, w')"
    using NewApplication_pods [OF assms(1)] assms(2) by (auto simp: app_spec_def has_pods_def)
  from make_pods_nodes [OF this] show ?thesis by (simp add: app_spec_def placed_def)
qed

lemma make_deployments_pods:
  "make_deployments te s idx ds w = Returns (as, w') \<Longrightarrow> \<forall>d \<in> set ds. has_pods d \<Longrightarrow>
   int (length (concat (map ap_pods as))) = (\<Sum>d \<leftarrow> ds. ac_Replicas d * ac_Pods d) \<and>
   (\<forall>p \<in> set (concat (map ap_pods as)). \<exists>d \<in> set ds. placed d p)"
proof (induction ds arbitrary: idx w as)
  case (Cons d ds)
  obtain xs w1 ys where xs: "make_replicas te s idx d 0 (nat (ac_Replicas d)) w = Returns (xs, w1)"
    and ys: "make_deployments te s (Suc idx) ds w1 = Returns (ys, w')" "as = xs @ ys"
    using Cons.prems(1) by (auto simp: obind_Returns_iff)
  have d: "has_pods d" using Cons.prems(2) by simp
  have each: "length (ap_pods a) = nat (ac_Pods d) \<and> (\<forall>p \<in> set (ap_pods a). placed d p)" if "a \<in> set xs" for a
    using make_replicas_built [OF xs] that app_pods_of [OF _ d] by blast
  have "map (\<lambda>a. length (ap_pods a)) xs = map (\<lambda>a. nat (ac_Pods d)) xs" using each by simp
  moreover have "length xs = nat (ac_Replicas d)" using make_replicas_built [OF xs] by blast
  ultimately have "length (concat (map ap_pods xs)) = nat (ac_Replicas d) * nat (ac_Pods d)"
    by (simp add: length_concat comp_def map_replicate_const sum_list_replicate)
  then have "int (length (concat (map ap_pods xs))) = ac_Replicas d * ac_Pods d" using d by (simp add: has_pods_def)
  then show ?case using Cons.IH [OF ys(1)] Cons.prems(2) ys(2) each by auto
qed simp

lemma NewNamespace_pods:
  assumes "NewNamespace te s w = Returns (n, w')" and "\<forall>d \<in> set (nsp_Deployments s). has_pods d"
  shows "int (length (ns_pods n)) = (\<Sum>d \<leftarrow> nsp_Deployments s. ac_Replicas d * ac_Pods d) \<and>
    (\<forall>p \<in> set (ns_pods n). \<exists>d \<in> set (nsp_Deployments s). placed d p)"
proof -
  obtain deps w1 where "make_deployments te s 0 (nsp_Deployments s) w1 = Returns (deps, w')" "ns_deployments n = deps"
    using assms(1) by (auto simp: NewNamespace_def obind_Returns_iff)
  then show ?thesis using make_deployments_pods [OF _ assms(2)] by (simp add: ns_pods_def)
qed

section \<open>Nodes and namespaces of a cluster\<close>

lemma make_node_replicas_length: "make_node_replicas node k w = (ns, w') \<Longrightarrow> length ns = k"
  by (induction k arbitrary: w ns) (auto simp: Let_def split: prod.splits)

lemma make_nodes_length:
  "make_nodes cfgs w = (ns, w') \<Longrightarrow> \<forall>nc \<in> set cfgs. 0 \<le> nco_Count nc \<Longrightarrow> int (length ns) = (\<Sum>nc \<leftarrow> cfgs. nco_Count nc)"
proof (induction cfgs arbitrary: w ns)
  case (Cons nc cfgs)
  obtain xs w1 where xs: "make_node_replicas nc (nat (nco_Count nc)) w = (xs, w1)" by fastforce
  obtain ys w2 where ys: "make_nodes cfgs w1 = (ys, w2)" by fastforce
  then show ?case using Cons make_node_replicas_length [OF xs] xs by auto
qed simp

definition on_node :: "Node list \<Rightarrow> Pod \<Rightarrow> bool" where
  "on_node nodes p \<longleftrightarrow> pd_Node (p_Spec p) \<in> (\<lambda>n. no_Name (n_Spec n)) ` set nodes"

lemma SelectNode_member: "SelectNode nodes r = Returns (x, r') \<Longrightarrow> x \<in> (\<lambda>n. no_Name (n_Spec n)) ` set nodes"
  by (auto simp: SelectNode_def Intn_def Let_def split: if_splits intro!: imageI nth_mem)

lemma make_ns_replicas_pods:
  assumes "\<forall>d \<in> set (nc_Applications ns). has_pods d"
  shows "make_ns_replicas te cfg nodes nsId ns r k w = Returns (nss, w') \<Longrightarrow>
   length nss = k \<and>
   int (length (concat (map ns_pods nss))) = int k * (\<Sum>d \<leftarrow> nc_Applications ns. ac_Replicas d * ac_Pods d) \<and>
   (\<forall>p \<in> set (concat (map ns_pods nss)). on_node nodes p)"
proof (induction k arbitrary: r w nss)
  case (Suc k)
  obtain name w0 n w1 rest where n: "NewNamespace te (ns_spec cfg nodes ns name) w0 = Returns (n, w1)"
    and rest: "make_ns_replicas te cfg nodes nsId ns (Suc r) k w1 = Returns (rest, w')" "nss = n # rest"
    using Suc.prems by (auto simp: obind_Returns_iff Let_def split: prod.splits if_splits)
  have deps: "nsp_Deployments (ns_spec cfg nodes ns name) = map (\<lambda>d. d\<lparr>ac_GetNode := SelectNode nodes\<rparr>) (nc_Applications ns)"
    by (simp add: ns_spec_def)
  have "\<forall>d \<in> set (nsp_Deployments (ns_spec cfg nodes ns name)). has_pods d"
    using assms by (auto simp: deps has_pods_def)
  note np = NewNamespace_pods [OF n this]
  have "int (length (ns_pods n)) = (\<Sum>d \<leftarrow> nc_Applications ns. ac_Replicas d * ac_Pods d)"
    using np by (simp add: deps comp_def)
  moreover have "\<forall>p \<in> set (ns_pods n). on_node nodes p"
    using np SelectNode_member by (fastforce simp: deps placed_def on_node_def)
  ultimately show ?case using Suc.IH [OF rest(1)] rest(2) by (auto simp: algebra_simps)
qed simp

definition ns_has_pods :: "NamespaceConfig \<Rightarrow> bool" where
  "ns_has_pods ns \<longleftrightarrow> 0 \<le> nc_Replicas ns \<and> list_all has_pods (nc_Applications ns)"

lemma make_namespaces_pods:
  "make_namespaces te cfg nodes nsId cfgs w = Returns (nss, w') \<Longrightarrow> \<forall>ns \<in> set cfgs. ns_has_pods ns \<Longrightarrow>
   int (length nss) = (\<Sum>ns \<leftarrow> cfgs. nc_Replicas ns) \<and>
   int (length (concat (map ns_pods nss))) =
     (\<Sum>ns \<leftarrow> cfgs. (\<Sum>d \<leftarrow> nc_Applications ns. ac_Replicas d * ac_Pods d) * nc_Replicas ns) \<and>
   (\<forall>p \<in> set (concat (map ns_pods nss)). on_node nodes p)"
proof (induction cfgs arbitrary: nsId w nss)
  case (Cons ns cfgs)
  obtain xs w1 ys where xs: "make_ns_replicas te cfg nodes nsId ns 0 (nat (nc_Replicas ns)) w = Returns (xs, w1)"
    and ys: "make_namespaces te cfg nodes (Suc nsId) cfgs w1 = Returns (ys, w')" "nss = xs @ ys"
    using Cons.prems(1) by (auto simp: obind_Returns_iff)
  have "0 \<le> nc_Replicas ns" "\<forall>d \<in> set (nc_Applications ns). has_pods d"
    using Cons.prems(2) by (auto simp: ns_has_pods_def list_all_iff)
  then show ?case using make_ns_replicas_pods [OF _ xs] Cons.IH [OF ys(1)] Cons.prems(2) ys(2)
    by (auto simp: algebra_simps)
qed simp


definition small_config :: ClusterConfig where
  "small_config = ApplyDefaults (zero_config\<lparr>cc_StableNames := True, cc_Namespaces := [zero_namespace\<lparr>nc_Name := ''ns'', nc_Replicas := 2\<rparr>]\<rparr>)"

lemma make_ns_replicas_empty:
  fixes w :: "'s world"
  shows "\<exists>nss w'. make_ns_replicas te cfg nodes nsId (zero_namespace\<lparr>nc_Name := m, nc_Replicas := i\<rparr>) r k w = Returns (nss, w')"
proof (induction k arbitrary: r w)
  case (Suc k)
  let ?ns = "zero_namespace\<lparr>nc_Name := m, nc_Replicas := i\<rparr>"
  have new: "\<exists>n w2. NewNamespace te (ns_spec cfg nodes ?ns name) w1 = Returns (n, w2)" for name and w1 :: "'s world"
    by (simp add: NewNamespace_def ns_spec_def zero_namespace_def)
  obtain name r1 where name: "(if nc_Replicas ?ns > 1
      then (let (uid, r1) = GenUIDOrStableIdentifier (cc_StableNames cfg) nsId r (rnd w)
            in (StringDefault (nc_Name ?ns) ''namespace'' @ ''-'' @ uid, r1))
      else (StringDefault (nc_Name ?ns) ''namespace'', rnd w)) = (name, r1)" by (rule prod.exhaust)
  obtain n w2 where n: "NewNamespace te (ns_spec cfg nodes ?ns name) (w\<lparr>rnd := r1\<rparr>) = Returns (n, w2)" using new by blast
  obtain rest w3 where "make_ns_replicas te cfg nodes nsId ?ns (Suc r) k w2 = Returns (rest, w3)" using Suc.IH by blast
  then have "make_ns_replicas te cfg nodes nsId ?ns r (Suc k) w = Returns (n # rest, w3)"
    using n by (simp only: make_ns_replicas.simps Let_def [of "StringDefault _ _"] name) simp
  then show ?case by blast
qed simp


section \<open>Names\<close>

text \<open>The names of the applications of a namespace, by deployment and replica.\<close>

definition app_name :: "ApplicationConfig list \<Rightarrow> nat \<times> nat \<Rightarrow> string" where
  "app_name ds = (\<lambda>(i, r). StringDefault (ac_Name (ds ! i)) ''app'' @ ''-'' @ itoa i @ ''-'' @ itoa r)"

lemma app_name_inj: "app_name ds p = app_name ds q \<Longrightarrow> p = q"
proof -
  obtain i r j k where pq: "p = (i, r)" "q = (j, k)" by (metis surj_pair)
  assume "app_name ds p = app_name ds q"
  then have "(StringDefault (ac_Name (ds ! i)) ''app'' @ ''-'' @ itoa i) @ CHR ''-'' # itoa r =
      (StringDefault (ac_Name (ds ! j)) ''app'' @ ''-'' @ itoa j) @ CHR ''-'' # itoa k"
    by (simp add: app_name_def pq)
  from append_sep_cancel_right [OF itoa_no_dash itoa_no_dash this]
  have rk: "r = k" and "StringDefault (ac_Name (ds ! i)) ''app'' @ CHR ''-'' # itoa i =
      StringDefault (ac_Name (ds ! j)) ''app'' @ CHR ''-'' # itoa j" by simp_all
  from append_sep_cancel_right [OF itoa_no_dash itoa_no_dash this(2)] have "i = j" by simp
  then show ?thesis using rk pq by simp
qed

lemma make_replicas_names:
  assumes "nsp_StableNames s" and "ac_Type d \<noteq> WaypointType"
  shows "make_replicas te s idx d r k w = Returns (as, w') \<Longrightarrow>
   map (\<lambda>a. as_App (ap_Spec a)) as = map (\<lambda>r. StringDefault (ac_Name d) ''app'' @ ''-'' @ itoa idx @ ''-'' @ itoa r) [r..<r + k]"
proof (induction k arbitrary: r w as)
  case (Suc k)
  obtain a w1 rest where a: "NewApplication te (app_spec s d (itoa idx @ ''-'' @ itoa r)) (w\<lparr>rnd := rnd w\<rparr>) = Returns (a, w1)"
    "make_replicas te s idx d (Suc r) k w1 = Returns (rest, w')" "as = a # rest"
    using Suc.prems assms by (auto simp: obind_Returns_iff createApplication_def GenUIDOrStableIdentifier_def Let_def)
  have "[r..<r + Suc k] = r # [Suc r..<Suc r + k]" by (simp add: upt_rec)
  then show ?case using Suc.IH [OF a(2)] NewApplication_Spec [OF a(1)] a(3) by (simp add: app_spec_def)
qed simp

lemma make_deployments_names:
  assumes "nsp_StableNames s"
  shows "make_deployments te s (length pre) ds w = Returns (as, w') \<Longrightarrow> \<forall>d \<in> set ds. ac_Type d \<noteq> WaypointType \<Longrightarrow>
   map (\<lambda>a. as_App (ap_Spec a)) as =
     map (app_name (pre @ ds)) (concat (map (\<lambda>i. map (Pair i) [0..<nat (ac_Replicas ((pre @ ds) ! i))]) [length pre..<length pre + length ds]))"
proof (induction ds arbitrary: pre w as)
  case (Cons d ds)
  obtain xs w1 ys where xs: "make_replicas te s (length pre) d 0 (nat (ac_Replicas d)) w = Returns (xs, w1)"
    and ys: "make_deployments te s (length (pre @ [d])) ds w1 = Returns (ys, w')" "as = xs @ ys"
    using Cons.prems(1) by (auto simp: obind_Returns_iff)
  have "map (\<lambda>a. as_App (ap_Spec a)) xs = map (app_name (pre @ d # ds)) (map (Pair (length pre)) [0..<nat (ac_Replicas d)])"
    using make_replicas_names [OF assms _ xs] Cons.prems(2) by (simp add: app_name_def)
  moreover have "[length pre..<length pre + length (d # ds)] = length pre # [length (pre @ [d])..<length (pre @ [d]) + length ds]"
    by (simp add: upt_rec)
  ultimately show ?case using Cons.IH [OF ys(1)] Cons.prems(2) ys(2) by simp
qed simp

text \<open>
  C28: With stable names, the applications of a namespace have pairwise different names, whatever names
  the configuration gives them, as long as none is a waypoint.
\<close>

theorem stable_names_distinct:
  assumes "NewNamespace te s w = Returns (n, w')" and "nsp_StableNames s"
    and "\<forall>d \<in> set (nsp_Deployments s). ac_Type d \<noteq> WaypointType"
  shows "distinct (map (\<lambda>a. as_App (ap_Spec a)) (ns_deployments n))"
proof -
  let ?ds = "nsp_Deployments s"
  let ?ix = "concat (map (\<lambda>i. map (Pair i) [0..<nat (ac_Replicas (?ds ! i))]) [0..<length ?ds])"
  obtain deps w1 where d: "make_deployments te s 0 ?ds w1 = Returns (deps, w')" "ns_deployments n = deps"
    using assms(1) by (auto simp: NewNamespace_def obind_Returns_iff)
  have "distinct (concat (map (\<lambda>i. map (Pair i) (f i)) is))" if "distinct is" "\<forall>i. distinct (f i)" for f :: "nat \<Rightarrow> nat list" and "is"
    using that by (induction "is") (auto simp: distinct_map inj_on_def)
  then have "distinct ?ix" by simp
  moreover have "inj (app_name ?ds)" using app_name_inj by (blast intro: injI)
  ultimately have "distinct (map (app_name ?ds) ?ix)" by (simp add: distinct_map inj_on_subset [OF _ subset_UNIV])
  then show ?thesis
    using make_deployments_names [OF assms(2), of te "[]" ?ds w1 deps w'] d assms(3) by simp
qed

definition two_apps :: "AppType \<Rightarrow> NamespaceSpecArgs" where
  "two_apps t = \<lparr>nsp_Name = ''ns'', nsp_TemplateDefinitions = Map.empty,
     nsp_Deployments = [zero_application\<lparr>ac_Name := ''a'', ac_Type := t, ac_Replicas := 2\<rparr>],
     nsp_Templates = [], nsp_StableNames = True, nsp_Waypoint = [], nsp_GracePeriod = 0\<rparr>"

lemma two_apps_built:
  "\<exists>n w'. NewNamespace te (two_apps t) w = Returns (n, w')"
  by (simp add: NewNamespace_def two_apps_def zero_application_def createApplication_def app_spec_def NewApplication_def
      numeral_2_eq_2 GenUIDOrStableIdentifier_def Let_def)

lemma stable_names_distinct_witness:
  "\<exists>n w'. NewNamespace (engine memory_sim) (two_apps PlainType) memory_world = Returns (n, w') \<and>
     distinct (map (\<lambda>a. as_App (ap_Spec a)) (ns_deployments n))"
proof -
  obtain n w' where run: "NewNamespace (engine memory_sim) (two_apps PlainType) memory_world = Returns (n, w')"
    using two_apps_built by blast
  then show ?thesis using stable_names_distinct [OF run] by (simp add: two_apps_def zero_application_def app_type_defs)
qed

text \<open>Waypoints are the exception: all replicas of one get the same name.\<close>

lemma waypoint_names_collide:
  "\<exists>n w'. NewNamespace te (two_apps WaypointType) w = Returns (n, w') \<and>
     map (\<lambda>a. as_App (ap_Spec a)) (ns_deployments n) = [''a-static'', ''a-static'']"
  by (simp add: NewNamespace_def two_apps_def zero_application_def createApplication_def app_spec_def NewApplication_def
      numeral_2_eq_2 GenUIDOrStableIdentifier_def app_type_defs StringDefault_def empty_application_def Let_def)

end
