(* ===== verification/Cluster_Queue.thy ===== *)
theory Cluster_Queue
  imports Go_Prelude
begin

text \<open>
  The cluster's fork of the controller queue (sims/cluster/queue_fork.go): its options, the sync signal,
  and the processing of items with a bounded number of attempts. The rate limiting work queue of
  client-go is the parameter \<open>workqueue\<close>; what is used of it is \<open>requeues_documented\<close>.
\<close>

section \<open>The queue\<close>

text \<open>
  An item is the dummy sync signal or a key. \<open>wq_Get\<close> is None while it blocks, and its first component
  None when the queue is shut down. \<open>wq_elapse\<close> is the passing of time, in which delayed items arrive.
\<close>

datatype 'k item = SyncSignal | Item 'k

record ('k, 'q) workqueue =
  wq_Add :: "'k item \<Rightarrow> 'q \<Rightarrow> 'q"
  wq_Get :: "'q \<Rightarrow> ('k item option \<times> 'q) option"
  wq_Done :: "'k item \<Rightarrow> 'q \<Rightarrow> 'q"
  wq_NumRequeues :: "'k item \<Rightarrow> 'q \<Rightarrow> nat"
  wq_AddRateLimited :: "'k item \<Rightarrow> 'q \<Rightarrow> 'q"
  wq_Forget :: "'k item \<Rightarrow> 'q \<Rightarrow> 'q"
  wq_ShutDown :: "'q \<Rightarrow> 'q"
  wq_elapse :: "'q \<Rightarrow> 'q"

record ('k, 'q, 'w) Queue =
  q_queue :: "'q option"
  q_initialSync :: bool
  q_name :: string
  q_workers :: nat
  q_maxAttempts :: int
  q_workFn :: "'k item \<Rightarrow> 'w \<Rightarrow> (gerror option \<times> 'w) outcome"

section \<open>Options\<close>

type_synonym ('k, 'q, 'w) queue_option = "('k, 'q, 'w) Queue \<Rightarrow> ('k, 'q, 'w) Queue"

definition WithName :: "string \<Rightarrow> ('k, 'q, 'w) queue_option" where
  "WithName name q = q\<lparr>q_name := name\<rparr>"

definition WithWorkers :: "nat \<Rightarrow> ('k, 'q, 'w) queue_option" where
  "WithWorkers count q = q\<lparr>q_workers := count\<rparr>"

text \<open>\<open>new_queue\<close> is the work queue's constructor for a rate limiter.\<close>

definition WithRateLimiter :: "('r \<Rightarrow> 'q) \<Rightarrow> 'r \<Rightarrow> ('k, 'q, 'w) queue_option" where
  "WithRateLimiter new_queue r q = q\<lparr>q_queue := Some (new_queue r)\<rparr>"

definition WithMaxAttempts :: "int \<Rightarrow> ('k, 'q, 'w) queue_option" where
  "WithMaxAttempts n q = q\<lparr>q_maxAttempts := n\<rparr>"

text \<open>The type assertion of the key panics for the sync signal, which is not a name.\<close>

definition WithReconciler :: "('k \<Rightarrow> 'w \<Rightarrow> gerror option \<times> 'w) \<Rightarrow> ('k, 'q, 'w) queue_option" where
  "WithReconciler f q =
     q\<lparr>q_workFn := (\<lambda>key w. case key of Item k \<Rightarrow> Returns (f k w) | SyncSignal \<Rightarrow> Panics ''interface conversion'')\<rparr>"

definition WithGenericReconciler :: "('k item \<Rightarrow> 'w \<Rightarrow> gerror option \<times> 'w) \<Rightarrow> ('k, 'q, 'w) queue_option" where
  "WithGenericReconciler f q = q\<lparr>q_workFn := (\<lambda>key w. Returns (f key w))\<rparr>"

definition NewQueue :: "('r \<Rightarrow> 'q) \<Rightarrow> 'r \<Rightarrow> string \<Rightarrow> ('k, 'q, 'w) queue_option list \<Rightarrow> ('k, 'q, 'w) Queue" where
  "NewQueue new_queue default_limiter name options =
     (let q0 = \<lparr>q_queue = None, q_initialSync = False, q_name = name, q_workers = 0, q_maxAttempts = 0,
                q_workFn = (\<lambda>key w. Panics ''nil pointer dereference'')\<rparr>;
          q = fold (\<lambda>opt q. opt q) options q0
      in (if q_queue q = None then q\<lparr>q_queue := Some (new_queue default_limiter)\<rparr> else q))"

section \<open>Operations\<close>

abbreviation wq_of :: "('k, 'q, 'w) Queue \<Rightarrow> 'q" where
  "wq_of q \<equiv> the (q_queue q)"

definition set_wq :: "'q \<Rightarrow> ('k, 'q, 'w) Queue \<Rightarrow> ('k, 'q, 'w) Queue" where
  "set_wq s q = q\<lparr>q_queue := Some s\<rparr>"

definition Add :: "('k, 'q) workqueue \<Rightarrow> 'k item \<Rightarrow> ('k, 'q, 'w) Queue \<Rightarrow> ('k, 'q, 'w) Queue" where
  "Add W x q = set_wq (wq_Add W x (wq_of q)) q"

text \<open>\<open>named\<close> is \<open>config.NamespacedName\<close>.\<close>

definition AddObject :: "('k, 'q) workqueue \<Rightarrow> ('o \<Rightarrow> 'k) \<Rightarrow> 'o \<Rightarrow> ('k, 'q, 'w) Queue \<Rightarrow> ('k, 'q, 'w) Queue" where
  "AddObject W named ob q = Add W (Item (named ob)) q"

definition HasSynced :: "('k, 'q, 'w) Queue \<Rightarrow> bool" where
  "HasSynced q = q_initialSync q"

text \<open>Run up to the start of the workers, and its deferred end.\<close>

definition Run_start :: "('k, 'q) workqueue \<Rightarrow> ('k, 'q, 'w) Queue \<Rightarrow> ('k, 'q, 'w) Queue" where
  "Run_start W q = Add W SyncSignal q"

definition Run_stop :: "('k, 'q) workqueue \<Rightarrow> ('k, 'q, 'w) Queue \<Rightarrow> ('k, 'q, 'w) Queue" where
  "Run_stop W q = set_wq (wq_ShutDown W (wq_of q)) q"

text \<open>
  What becomes of a key, for the log of a run: it succeeded, it was put back, or its budget was used up.
\<close>

datatype fate = Succeeded | Retried | GaveUp

text \<open>From the call of \<open>workFn\<close> to the deferred Done.\<close>

definition handle_item :: "('k, 'q) workqueue \<Rightarrow> 'k item \<Rightarrow> ('k, 'q, 'w) Queue \<Rightarrow> 'w \<Rightarrow>
    (fate \<times> ('k, 'q, 'w) Queue \<times> 'w) outcome" where
  "handle_item W key q w =
     obind (q_workFn q key w) (\<lambda>(err, w1).
       let s = wq_of q in
       case err of
         Some e \<Rightarrow>
           (let retryCount = wq_NumRequeues W key s + 1
            in if int retryCount < q_maxAttempts q
               then Returns (Retried, set_wq (wq_Done W key (wq_AddRateLimited W key s)) q, w1)
               else Returns (GaveUp, set_wq (wq_Done W key (wq_Forget W key s)) q, w1))
       | None \<Rightarrow> Returns (Succeeded, set_wq (wq_Done W key (wq_Forget W key s)) q, w1))"

text \<open>The result is whether the worker goes on. Get blocks when the queue is empty.\<close>

definition processNextItem :: "('k, 'q) workqueue \<Rightarrow> ('k, 'q, 'w) Queue \<Rightarrow> 'w \<Rightarrow> (bool \<times> ('k, 'q, 'w) Queue \<times> 'w) outcome" where
  "processNextItem W q w =
     (case wq_Get W (wq_of q) of
        None \<Rightarrow> Blocks
      | Some (None, s) \<Rightarrow> Returns (False, set_wq s q, w)
      | Some (Some key, s) \<Rightarrow>
          (case key of
             SyncSignal \<Rightarrow> Returns (True, (set_wq s q)\<lparr>q_initialSync := True\<rparr>, w)
           | Item k \<Rightarrow> obind (handle_item W key (set_wq s q) w) (\<lambda>(f, q1, w1). Returns (True, q1, w1))))"

text \<open>\<open>formatKey\<close> for names, and for whatever else a queue may hold: an event stands for its latest object.\<close>

definition formatKey :: "string \<times> string \<Rightarrow> string" where
  "formatKey = (\<lambda>(ns, name). if ns \<noteq> [] then ns @ ''/'' @ name else name)"

datatype queue_key =
    NameKey string string
  | ObjectKey string string
  | EventKey string string
  | OtherKey string

definition object_name :: "string \<Rightarrow> string \<Rightarrow> string" where
  "object_name ns name = (if length ns > 0 then ns @ ''/'' @ name else name)"

fun formatKey_any :: "queue_key \<Rightarrow> string" where
  "formatKey_any (NameKey ns name) = formatKey (ns, name)"
| "formatKey_any (EventKey ns name) = object_name ns name"
| "formatKey_any (ObjectKey ns name) = object_name ns name"
| "formatKey_any (OtherKey res) = (if length res \<ge> 50 then take 50 res else res)"

text \<open>A name, an object of that name and an event about it are logged alike; anything else in fifty bytes at most.\<close>

lemma formatKey_alike: "formatKey_any (NameKey ns name) = formatKey_any (ObjectKey ns name)"
    "formatKey_any (EventKey ns name) = formatKey_any (NameKey ns name)" "length (formatKey_any (OtherKey res)) \<le> 50"
  by (simp_all add: formatKey_def object_name_def)

section \<open>Workers\<close>

text \<open>
  A run: items are added, workers take items and finish them in any order, time passes, others change the
  world. \<open>log\<close> lists the keys that were finished with their fate.
\<close>

record ('k, 'q, 'w) qrun =
  qr_queue :: "('k, 'q, 'w) Queue"
  qr_busy :: "'k item list"
  qr_world :: 'w
  qr_log :: "('k item \<times> fate) list"

inductive queue_step :: "('k, 'q) workqueue \<Rightarrow> ('k, 'q, 'w) qrun \<Rightarrow> ('k, 'q, 'w) qrun \<Rightarrow> bool" for W where
  add: "queue_step W r (r\<lparr>qr_queue := Add W x (qr_queue r)\<rparr>)"
| elapse: "queue_step W r (r\<lparr>qr_queue := set_wq (wq_elapse W (wq_of (qr_queue r))) (qr_queue r), qr_world := w\<rparr>)"
| sync: "wq_Get W (wq_of (qr_queue r)) = Some (Some SyncSignal, s) \<Longrightarrow>
    queue_step W r (r\<lparr>qr_queue := (set_wq s (qr_queue r))\<lparr>q_initialSync := True\<rparr>\<rparr>)"
| take: "wq_Get W (wq_of (qr_queue r)) = Some (Some (Item k), s) \<Longrightarrow>
    queue_step W r (r\<lparr>qr_queue := set_wq s (qr_queue r), qr_busy := Item k # qr_busy r\<rparr>)"
| finish: "key \<in> set (qr_busy r) \<Longrightarrow> handle_item W key (qr_queue r) (qr_world r) = Returns (f, q1, w1) \<Longrightarrow>
    queue_step W r (r\<lparr>qr_queue := q1, qr_world := w1, qr_busy := remove1 key (qr_busy r), qr_log := qr_log r @ [(key, f)]\<rparr>)"
| stop: "queue_step W r (r\<lparr>qr_queue := Run_stop W (qr_queue r)\<rparr>)"

definition queue_init :: "('k, 'q) workqueue \<Rightarrow> ('k, 'q, 'w) Queue \<Rightarrow> 'w \<Rightarrow> ('k, 'q, 'w) qrun" where
  "queue_init W q w = \<lparr>qr_queue = Run_start W q, qr_busy = [], qr_world = w, qr_log = []\<rparr>"

text \<open>A worker alone is such a run.\<close>

lemma processNextItem_step:
  assumes "processNextItem W (qr_queue r) (qr_world r) = Returns (True, q1, w1)" and "qr_busy r = []"
  shows "\<exists>r'. (queue_step W)\<^sup>*\<^sup>* r r' \<and> qr_queue r' = q1 \<and> qr_world r' = w1 \<and> qr_busy r' = []"
proof -
  obtain s key where g: "wq_Get W (wq_of (qr_queue r)) = Some (Some key, s)"
    using assms(1) by (auto simp: processNextItem_def split: option.splits)
  show ?thesis
  proof (cases key)
    case SyncSignal
    let ?r1 = "r\<lparr>qr_queue := (set_wq s (qr_queue r))\<lparr>q_initialSync := True\<rparr>\<rparr>"
    have "queue_step W r ?r1" using g SyncSignal by (simp add: queue_step.sync)
    then have "(queue_step W)\<^sup>*\<^sup>* r ?r1" by blast
    moreover have "qr_queue ?r1 = q1 \<and> qr_world ?r1 = w1 \<and> qr_busy ?r1 = []"
      using assms g SyncSignal by (simp add: processNextItem_def)
    ultimately show ?thesis by blast
  next
    case (Item k)
    let ?r1 = "r\<lparr>qr_queue := set_wq s (qr_queue r), qr_busy := Item k # qr_busy r\<rparr>"
    obtain f where h: "handle_item W (Item k) (qr_queue ?r1) (qr_world ?r1) = Returns (f, q1, w1)"
      using assms(1) g Item by (auto simp: processNextItem_def obind_Returns_iff)
    have "queue_step W r ?r1" using g Item by (auto intro: queue_step.take)
    moreover have "queue_step W ?r1 (?r1\<lparr>qr_queue := q1, qr_world := w1, qr_busy := remove1 (Item k) (qr_busy ?r1),
        qr_log := qr_log ?r1 @ [(Item k, f)]\<rparr>)"
      by (rule queue_step.finish [OF _ h]) simp
    ultimately have "(queue_step W)\<^sup>*\<^sup>* r (?r1\<lparr>qr_queue := q1, qr_world := w1, qr_busy := remove1 (Item k) (qr_busy ?r1),
        qr_log := qr_log ?r1 @ [(Item k, f)]\<rparr>)" by (meson r_into_rtranclp rtranclp.rtrancl_into_rtrancl)
    then show ?thesis using assms(2) by fastforce
  qed
qed

section \<open>Attempts\<close>

text \<open>
  The work queue counts, per item, how often it was added with a rate limit since it was last forgotten;
  nothing else changes that count.
\<close>

definition requeues_documented :: "('k, 'q) workqueue \<Rightarrow> bool" where
  "requeues_documented W \<longleftrightarrow>
     (\<forall>x y s. wq_NumRequeues W y (wq_AddRateLimited W x s) = wq_NumRequeues W y s + (if x = y then 1 else 0) \<and>
        wq_NumRequeues W y (wq_Forget W x s) = (if x = y then 0 else wq_NumRequeues W y s) \<and>
        wq_NumRequeues W y (wq_Add W x s) = wq_NumRequeues W y s \<and>
        wq_NumRequeues W y (wq_Done W x s) = wq_NumRequeues W y s \<and>
        wq_NumRequeues W y (wq_ShutDown W s) = wq_NumRequeues W y s \<and>
        wq_NumRequeues W y (wq_elapse W s) = wq_NumRequeues W y s) \<and>
     (\<forall>y s r s'. wq_Get W s = Some (r, s') \<longrightarrow> wq_NumRequeues W y s' = wq_NumRequeues W y s)"

text \<open>The number of retries of a key since it last succeeded or was given up.\<close>

definition streak :: "'k item \<Rightarrow> ('k item \<times> fate) list \<Rightarrow> nat" where
  "streak key log = length (takeWhile (\<lambda>e. snd e = Retried) (rev (filter (\<lambda>e. fst e = key) log)))"

lemma streak_Nil [simp]: "streak key [] = 0"
  by (simp add: streak_def)

lemma streak_snoc [simp]:
  "streak key (log @ [(k, f)]) = (if k = key then (if f = Retried then streak key log + 1 else 0) else streak key log)"
  by (simp add: streak_def)

text \<open>What the log has to look like, entry by entry.\<close>

definition attempts_ok :: "int \<Rightarrow> ('k item \<times> fate) list \<Rightarrow> bool" where
  "attempts_ok n log \<longleftrightarrow>
     (\<forall>pre key f post. log = pre @ (key, f) # post \<longrightarrow>
        int (streak key pre) < max 1 n \<and>
        (f = Retried \<longrightarrow> int (streak key pre) + 1 < n) \<and>
        (f = GaveUp \<longrightarrow> int (streak key pre) + 1 = max 1 n))"

lemma attempts_ok_snoc:
  assumes "attempts_ok n log" and "int (streak key log) < max 1 n"
    and "f = Retried \<Longrightarrow> int (streak key log) + 1 < n" and "f = GaveUp \<Longrightarrow> int (streak key log) + 1 = max 1 n"
  shows "attempts_ok n (log @ [(key, f)])"
  unfolding attempts_ok_def
proof (intro allI impI)
  fix pre key' f' post
  assume "log @ [(key, f)] = pre @ (key', f') # post"
  then consider (last) "post = []" "pre = log" "(key', f') = (key, f)" | (inner) post' where "log = pre @ (key', f') # post'"
    by (cases post rule: rev_cases) auto
  then show "int (streak key' pre) < max 1 n \<and> (f' = Retried \<longrightarrow> int (streak key' pre) + 1 < n) \<and>
      (f' = GaveUp \<longrightarrow> int (streak key' pre) + 1 = max 1 n)"
    using assms unfolding attempts_ok_def by cases blast+
qed

text \<open>The invariant: the queue's count is the log's streak, and the budget is kept.\<close>

definition queue_inv :: "('k, 'q) workqueue \<Rightarrow> int \<Rightarrow> ('k, 'q, 'w) qrun \<Rightarrow> bool" where
  "queue_inv W n r \<longleftrightarrow>
     q_maxAttempts (qr_queue r) = n \<and> attempts_ok n (qr_log r) \<and>
     (\<forall>key. wq_NumRequeues W key (wq_of (qr_queue r)) = streak key (qr_log r) \<and> int (streak key (qr_log r)) < max 1 n)"

lemma set_wq_simps [simp]:
  "q_queue (set_wq s q) = Some s" "q_maxAttempts (set_wq s q) = q_maxAttempts q" "q_workFn (set_wq s q) = q_workFn q"
  by (simp_all add: set_wq_def)

lemma handle_item_cases:
  assumes "handle_item W key q w = Returns (f, q1, w1)"
  obtains "f = Retried" "int (wq_NumRequeues W key (wq_of q)) + 1 < q_maxAttempts q"
      "q1 = set_wq (wq_Done W key (wq_AddRateLimited W key (wq_of q))) q"
    | "f = GaveUp" "\<not> int (wq_NumRequeues W key (wq_of q)) + 1 < q_maxAttempts q"
      "q1 = set_wq (wq_Done W key (wq_Forget W key (wq_of q))) q"
    | "f = Succeeded" "q1 = set_wq (wq_Done W key (wq_Forget W key (wq_of q))) q"
proof -
  obtain err where "q_workFn q key w = Returns (err, w1)"
    using assms by (auto simp: handle_item_def obind_Returns_iff Let_def split: option.splits if_splits)
  then show thesis using assms that
    by (cases err) (auto simp: handle_item_def Let_def split: if_splits)
qed

lemma queue_inv_step:
  assumes doc: "requeues_documented W" and inv: "queue_inv W n r" and step: "queue_step W r r'"
  shows "queue_inv W n r'"
  using step
proof (cases rule: queue_step.cases)
  case (finish key f q1 w1)
  let ?k = "streak key (qr_log r)"
  have n: "q_maxAttempts (qr_queue r) = n" and num: "wq_NumRequeues W key (wq_of (qr_queue r)) = ?k"
    and lt: "int ?k < max 1 n" and ok: "attempts_ok n (qr_log r)"
    using inv by (auto simp: queue_inv_def)
  from finish(3) show ?thesis
  proof (cases rule: handle_item_cases)
    case 1
    have "attempts_ok n (qr_log r @ [(key, f)])" by (rule attempts_ok_snoc [OF ok lt]) (use 1 n num in simp_all)
    then show ?thesis using 1 inv doc n num finish(1) by (auto simp: queue_inv_def requeues_documented_def)
  next
    case 2
    have "attempts_ok n (qr_log r @ [(key, f)])" by (rule attempts_ok_snoc [OF ok lt]) (use 2 n num lt in auto)
    then show ?thesis using 2 inv doc n finish(1) by (auto simp: queue_inv_def requeues_documented_def)
  next
    case 3
    have "attempts_ok n (qr_log r @ [(key, f)])" by (rule attempts_ok_snoc [OF ok lt]) (use 3 in simp_all)
    then show ?thesis using 3 inv doc n finish(1) by (auto simp: queue_inv_def requeues_documented_def)
  qed
qed (use inv doc in \<open>auto simp: queue_inv_def requeues_documented_def Add_def Run_stop_def\<close>)

interpretation queue_runs: step_invariant "queue_step W" "queue_inv W n" "requeues_documented W"
  by unfold_locales (rule queue_inv_step)

text \<open>
  C29: However many workers process the queue and however their items interleave, every key is attempted
  at most maxAttempts times in a row: it is put back while fewer than that many attempts failed, it is
  given up exactly when the last attempt allowed has failed, and then its count starts again.
\<close>

theorem queue_attempts_bounded:
  assumes "requeues_documented W" and "\<forall>key. wq_NumRequeues W key (wq_of q) = 0"
    and "(queue_step W)\<^sup>*\<^sup>* (queue_init W q w) r"
  shows "attempts_ok (q_maxAttempts q) (qr_log r) \<and>
    (\<forall>key. wq_NumRequeues W key (wq_of (qr_queue r)) = streak key (qr_log r))"
proof -
  have "queue_inv W (q_maxAttempts q) (queue_init W q w)"
    using assms(1,2) by (simp add: queue_inv_def queue_init_def Run_start_def Add_def attempts_ok_def requeues_documented_def)
  then have "queue_inv W (q_maxAttempts q) r" by (rule queue_runs.star_inv [OF assms(1,3)])
  then show ?thesis by (simp add: queue_inv_def)
qed

section \<open>An instance\<close>

text \<open>A work queue that keeps its items in a list, with no delay.\<close>

definition list_queue :: "('k, 'k item list \<times> ('k item \<Rightarrow> nat)) workqueue" where
  "list_queue = \<lparr>wq_Add = (\<lambda>x (xs, m). (if x \<in> set xs then xs else xs @ [x], m)),
     wq_Get = (\<lambda>(xs, m). case xs of [] \<Rightarrow> None | x # xs' \<Rightarrow> Some (Some x, (xs', m))),
     wq_Done = (\<lambda>x s. s), wq_NumRequeues = (\<lambda>x (xs, m). m x),
     wq_AddRateLimited = (\<lambda>x (xs, m). (xs @ [x], m(x := m x + 1))),
     wq_Forget = (\<lambda>x (xs, m). (xs, m(x := 0))), wq_ShutDown = (\<lambda>s. s), wq_elapse = (\<lambda>s. s)\<rparr>"

lemma list_queue_documented: "requeues_documented list_queue"
  by (auto simp: requeues_documented_def list_queue_def split: list.splits)

text \<open>A key that always fails, with two attempts.\<close>

definition failing_queue :: "(nat, nat item list \<times> (nat item \<Rightarrow> nat), unit) Queue" where
  "failing_queue = NewQueue (\<lambda>r. ([Item 7], \<lambda>x. 0)) () ''pods''
     [WithWorkers 1, WithReconciler (\<lambda>k w. (Some (ErrText ''failed''), w)), WithMaxAttempts 2]"

lemmas queue_eval = failing_queue_def NewQueue_def WithWorkers_def WithReconciler_def WithMaxAttempts_def queue_init_def
  Run_start_def Add_def list_queue_def set_wq_def handle_item_def

lemma queue_attempts_bounded_witness:
  "\<exists>r. (queue_step list_queue)\<^sup>*\<^sup>* (queue_init list_queue failing_queue ()) r \<and>
     qr_log r = [(Item 7, Retried), (Item 7, GaveUp)] \<and> attempts_ok 2 (qr_log r)"
proof -
  let ?q = "\<lambda>xs m. failing_queue\<lparr>q_queue := Some (xs, (\<lambda>x. 0)(Item (7 :: nat) := m))\<rparr>"
  let ?s = "\<lambda>xs m b busy log. \<lparr>qr_queue = (?q xs m)\<lparr>q_initialSync := b\<rparr>, qr_busy = busy, qr_world = (), qr_log = log\<rparr>"
  have f: "(\<lambda>x. 0)(Item (7 :: nat) := 0 :: nat) = (\<lambda>x. 0)" by auto
  have s0: "queue_init list_queue failing_queue () = ?s [Item 7, SyncSignal] 0 False [] []"
    by (simp add: queue_eval f)
  have s1: "queue_step list_queue (?s [Item 7, SyncSignal] 0 False [] []) (?s [SyncSignal] 0 False [Item 7] [])"
    using queue_step.take [of list_queue "?s [Item 7, SyncSignal] 0 False [] []" 7 "([SyncSignal], (\<lambda>x. 0)(Item 7 := 0))"]
    by (simp add: queue_eval)
  have s2: "queue_step list_queue (?s [SyncSignal] 0 False [Item 7] []) (?s [SyncSignal, Item 7] 1 False [] [(Item 7, Retried)])"
    using queue_step.finish [of "Item 7" "?s [SyncSignal] 0 False [Item 7] []" list_queue Retried "?q [SyncSignal, Item 7] 1" "()"]
    by (simp add: queue_eval)
  have s3: "queue_step list_queue (?s [SyncSignal, Item 7] 1 False [] [(Item 7, Retried)]) (?s [Item 7] 1 True [] [(Item 7, Retried)])"
    using queue_step.sync [of list_queue "?s [SyncSignal, Item 7] 1 False [] [(Item 7, Retried)]" "([Item 7], (\<lambda>x. 0)(Item 7 := 1))"]
    by (simp add: queue_eval)
  have s4: "queue_step list_queue (?s [Item 7] 1 True [] [(Item 7, Retried)]) (?s [] 1 True [Item 7] [(Item 7, Retried)])"
    using queue_step.take [of list_queue "?s [Item 7] 1 True [] [(Item 7, Retried)]" 7 "([], (\<lambda>x. 0)(Item 7 := 1))"]
    by (simp add: queue_eval)
  have s5: "queue_step list_queue (?s [] 1 True [Item 7] [(Item 7, Retried)]) (?s [] 0 True [] [(Item 7, Retried), (Item 7, GaveUp)])"
    using queue_step.finish [of "Item 7" "?s [] 1 True [Item 7] [(Item 7, Retried)]" list_queue GaveUp "(?q [] 0)\<lparr>q_initialSync := True\<rparr>" "()"]
    by (simp add: queue_eval)
  have "(queue_step list_queue)\<^sup>*\<^sup>* (queue_init list_queue failing_queue ()) (?s [] 0 True [] [(Item 7, Retried), (Item 7, GaveUp)])"
    unfolding s0
    by (rule converse_rtranclp_into_rtranclp [OF s1 converse_rtranclp_into_rtranclp [OF s2 converse_rtranclp_into_rtranclp [OF s3
        converse_rtranclp_into_rtranclp [OF s4 r_into_rtranclp [of "queue_step list_queue", OF s5]]]]])
  moreover have "\<forall>key. wq_NumRequeues list_queue key (wq_of failing_queue) = 0" "q_maxAttempts failing_queue = 2"
    by (simp_all add: queue_eval)
  ultimately show ?thesis using queue_attempts_bounded [OF list_queue_documented] by fastforce
qed

end
