(* ===== verification/Cluster_Kubelet.thy ===== *)
theory Cluster_Kubelet
  imports Cluster_Laws Cluster_Queue
begin

text \<open>
  The cluster as a kubelet (\<open>watchPods\<close> of sims/cluster/cluster.go): the queue over the informer of pods,
  what the reconciler does in terms of the pods as they are in the API, and the lists the scaler draws
  from.
\<close>

section \<open>The watcher\<close>

text \<open>
  \<open>informer\<close> is what the pod informer has received for a name; \<open>pods.Get\<close> returns it after the
  informer's transform.
\<close>

definition watchPods :: "'s kenv \<Rightarrow> (string \<times> string \<Rightarrow> 's world \<Rightarrow> kobj option) \<Rightarrow> ('r \<Rightarrow> 'q) \<Rightarrow> 'r \<Rightarrow> nat \<Rightarrow>
    (string \<times> string, 'q, 's world) Queue" where
  "watchPods env informer new_queue limiter gomaxprocs =
     NewQueue new_queue limiter ''pods''
       [WithWorkers gomaxprocs,
        WithReconciler (\<lambda>key w. reconcile_pod env (map_option StripPodUnusedFields (informer key w)) w),
        WithMaxAttempts 5]"

section \<open>What the kubelet does with a pod\<close>

text \<open>The object of the status patch, from the pod as it is in the API.\<close>

definition ready_condition :: "string \<Rightarrow> int \<Rightarrow> podcondition" where
  "ready_condition t time = \<lparr>cond_type = t, cond_status = ''True'', cond_lastTransitionTime = time\<rparr>"

definition kubelet_object :: "kobj \<Rightarrow> int \<Rightarrow> string \<Rightarrow> kobj" where
  "kubelet_object ob time ip =
     ob\<lparr>o_labels := Map.empty, o_annotations := Map.empty, o_managedFields := [], o_spec := PodSpec empty_podspec,
        o_status := Status (PodStatus
          \<lparr>st_phase = ''Running'', st_conditions = [ready_condition ''Ready'' time, ready_condition ''ContainersReady'' time],
           st_podIP = ip, st_initContainerStatuses = [],
           st_containerStatuses = map (\<lambda>c. \<lparr>cs_name = c_name c, cs_running = Some time, cs_terminated = None, cs_ready = True,
                                            cs_image = c_image c\<rparr>) (ps_containers (pod_spec ob))\<rparr>)\<rparr>"

datatype duty = NotOurs | Finalize | AlreadyRunning | Unscheduled | Start

definition duty_for :: "kobj \<Rightarrow> duty" where
  "duty_for ob =
     (if ps_nodeSelector (pod_spec ob) ''pilot-load.istio.io/node'' \<noteq> Some ''fake'' then NotOurs
      else if o_deletionTimestamp ob \<noteq> None then Finalize
      else if st_phase (pod_status ob) = ''Running'' then AlreadyRunning
      else if ps_nodeName (pod_spec ob) = [] then Unscheduled
      else Start)"

fun kubelet_ref :: "'s kenv \<Rightarrow> duty \<Rightarrow> kobj \<Rightarrow> 's world \<Rightarrow> gerror option \<times> 's world" where
  "kubelet_ref env Finalize ob w =
     (case exec env (Delete_req (obj_key ''Pod'' ob) (-1)) w of
        (r, w1) \<Rightarrow> (case r of Inl err \<Rightarrow> if IsNotFound env err then None else Some (ErrV ''delete: '' err) | Inr x \<Rightarrow> None, w1))"
| "kubelet_ref env Start ob w =
     (case GetIP (nextIp w) of
        (ip, next) \<Rightarrow>
          (case ApplyStatusRealSSA env (Concrete ''Pod'') (kubelet_object ob (now w) ip) (w\<lparr>nextIp := next\<rparr>) of
             (e, w1) \<Rightarrow> (map_option (ErrV ''apply status: '') e, w1)))"
| "kubelet_ref env d ob w = (None, w)"

lemma Strip_parts:
  assumes "o_spec ob = PodSpec sp"
  shows "ps_nodeSelector (pod_spec (StripPodUnusedFields ob)) = ps_nodeSelector sp"
    "ps_nodeName (pod_spec (StripPodUnusedFields ob)) = ps_nodeName sp"
    "o_deletionTimestamp (StripPodUnusedFields ob) = o_deletionTimestamp ob"
    "st_phase (pod_status (StripPodUnusedFields ob)) = st_phase (pod_status ob)"
    "obj_key t (StripPodUnusedFields ob) = obj_key t ob"
  using assms by (auto simp: StripPodUnusedFields_def pod_spec_def pod_status_def obj_key_def empty_podstatus_def Let_def
      split: kstatus.splits kstatusval.splits)

lemma Strip_object:
  assumes "o_spec ob = PodSpec sp"
  shows "(StripPodUnusedFields ob)\<lparr>o_status := Status (PodStatus (running_status (StripPodUnusedFields ob) time ip)),
      o_spec := PodSpec empty_podspec\<rparr> = kubelet_object ob time ip"
  using assms by (auto simp: StripPodUnusedFields_def kubelet_object_def running_status_def pod_spec_def pod_status_def
      ready_condition_def empty_podstatus_def Let_def comp_def split: kstatus.splits kstatusval.splits)

lemma duty_for_Strip: "o_spec ob = PodSpec sp \<Longrightarrow> duty_for (StripPodUnusedFields ob) = duty_for ob"
  by (simp add: duty_for_def Strip_parts) (simp add: pod_spec_def)

lemma reconcile_None: "reconcile_pod env None w = (None, w)"
  by (simp add: reconcile_pod_def)

lemma reconcile_by_duty:
  "reconcile_pod env (Some p) w =
     (case duty_for p of
        Finalize \<Rightarrow> kubelet_ref env Finalize p w
      | Start \<Rightarrow>
          (case GetIP (nextIp w) of
             (ip, next) \<Rightarrow>
               (case ApplyStatusRealSSA env (Concrete ''Pod'') (p\<lparr>o_status := Status (PodStatus (running_status p (now w) ip)),
                   o_spec := PodSpec empty_podspec\<rparr>) (w\<lparr>nextIp := next\<rparr>) of
                  (e, w1) \<Rightarrow> (map_option (ErrV ''apply status: '') e, w1)))
      | _ \<Rightarrow> (None, w))"
  by (auto simp: reconcile_pod_def duty_for_def split: prod.splits sum.splits option.splits)

lemma reconcile_stripped: "reconcile_pod env (Some (StripPodUnusedFields ob)) w = kubelet_ref env (duty_for ob) ob w"
proof (cases "\<exists>sp. o_spec ob = PodSpec sp")
  case True
  then obtain sp where sp: "o_spec ob = PodSpec sp" by blast
  show ?thesis
    by (cases "duty_for ob") (simp_all add: reconcile_by_duty duty_for_Strip [OF sp] Strip_parts [OF sp] Strip_object [OF sp])
next
  case False
  then have "pod_spec ob = empty_podspec" "pod_spec (StripPodUnusedFields ob) = empty_podspec"
    by (auto simp: pod_spec_def StripPodUnusedFields_def Let_def split: kspec.splits)
  then show ?thesis by (simp add: reconcile_by_duty duty_for_def empty_podspec_def)
qed

text \<open>
  C30: The kubelet works on stripped copies of pods and loses nothing by it: for every pod of the API, the
  queue's handler does what the full pod calls for (delete it, patch its status to running and ready with
  the next free IP and one running status per container, or nothing), with five attempts at most.
\<close>

theorem watchPods_reconciles:
  "q_workFn (watchPods env informer new_queue limiter procs) (Item key) w =
     Returns (case informer key w of None \<Rightarrow> (None, w) | Some ob \<Rightarrow> kubelet_ref env (duty_for ob) ob w) \<and>
   q_maxAttempts (watchPods env informer new_queue limiter procs) = 5"
  by (cases "informer key w") (simp_all add: watchPods_def NewQueue_def WithWorkers_def WithReconciler_def
      WithMaxAttempts_def reconcile_stripped reconcile_None)

section \<open>The scaler's lists\<close>

text \<open>The places of the refreshable configuration point at what \<open>GetRefreshableConfig\<close> lists.\<close>

lemma map_filter_comm: "map f (filter (\<lambda>x. P (f x)) xs) = filter P (map f xs)"
  by (induction xs) simp_all

lemma app_refs_deref: "map (deref as) (app_refs i (as ! i)) = GetConfigs (as ! i)"
proof -
  have "map (deref as \<circ> RefConfig i) [0..<length (ap_configs (as ! i))] = map SConfig (ap_configs (as ! i))"
    by (intro nth_equalityI) simp_all
  then show ?thesis by (cases "ap_workloadEntry (as ! i)") (simp_all add: app_refs_def GetConfigs_def opt_def)
qed

lemma config_refs_deref: "map (deref (GetRefreshableInstances c)) (config_refs c) = GetRefreshableConfig c"
proof -
  let ?as = "GetRefreshableInstances c"
  have "map (\<lambda>i. map (deref ?as) (app_refs i (?as ! i))) [0..<length ?as] = map GetConfigs ?as"
    by (intro nth_equalityI) (simp_all add: app_refs_deref)
  then show ?thesis
    by (simp add: config_refs_def GetRefreshableConfig_def Let_def map_filter_comm [of "deref ?as" IsRefreshable] map_concat comp_def)
qed

end
