(* ===== verification/Execution.thy ===== *)
theory Execution
  imports Cluster_Laws
begin

text \<open>
  Executing simulations (pkg/simulation/simulations.go): run, wait for the end of the context, clean up;
  the one-shot variant; the fleet of XDS clients of the adsc command.
\<close>

section \<open>Executors\<close>

text \<open>
  \<open>until_done\<close> is the wait for \<open>ctx.Done()\<close>: what the other goroutines make of the simulation and the
  world until the context ends, None if it never does. The deferred \<open>cancel\<close> has no effect that the model
  shows. StartMonitoring and the logs are left out.
\<close>

type_synonym ('a, 'w) waiting = "'a \<times> 'w \<Rightarrow> ('a \<times> 'w) option"

definition ExecuteSimulations :: "('a, 'w) waiting \<Rightarrow> ('a, 'w) action \<Rightarrow> ('a, 'w) action \<Rightarrow> ('a, 'w) action" where
  "ExecuteSimulations until_done run cleanup s w =
     obind (run s w) (\<lambda>(s1, w1, e).
       case e of
         Some err \<Rightarrow> obind (cleanup s1 w1) (\<lambda>(s2, w2, cleanupErr). Returns (s2, w2, Some (ErrRunCleanup err cleanupErr)))
       | None \<Rightarrow> (case until_done (s1, w1) of None \<Rightarrow> Blocks | Some (s2, w2) \<Rightarrow> cleanup s2 w2))"

definition ExecuteOneshot :: "('a, 'w) action \<Rightarrow> ('a, 'w) action \<Rightarrow> ('a, 'w) action" where
  "ExecuteOneshot run cleanup s w =
     obind (run s w) (\<lambda>(s1, w1, e).
       case e of
         Some err \<Rightarrow> obind (cleanup s1 w1) (\<lambda>(s2, w2, cleanupErr). Returns (s2, w2, Some (ErrRunCleanup err cleanupErr)))
       | None \<Rightarrow> cleanup s1 w1)"

text \<open>
  \<open>Running\<close> holds the channel on which the goroutine of RunSimulation sends its one result; Wait on the
  zero value returns nil.
\<close>

datatype 'r Running = Running "'r option"

definition RunSimulation :: "('a, 'w) waiting \<Rightarrow> ('a, 'w) action \<Rightarrow> ('a, 'w) action \<Rightarrow> 'a \<Rightarrow> 'w \<Rightarrow>
    ('a \<times> 'w \<times> gerror option) outcome Running" where
  "RunSimulation until_done run cleanup s w =
     Running (Some (obind (run s w) (\<lambda>(s1, w1, e).
       case e of
         Some err \<Rightarrow> obind (cleanup s1 w1) (\<lambda>(s2, w2, cleanupErr). Returns (s2, w2, Some (ErrRunCleanup err cleanupErr)))
       | None \<Rightarrow> (case until_done (s1, w1) of None \<Rightarrow> Blocks | Some (s2, w2) \<Rightarrow> cleanup s2 w2))))"

fun Wait :: "('a \<times> 'w \<times> gerror option) outcome Running \<Rightarrow> gerror option outcome" where
  "Wait (Running None) = Returns None"
| "Wait (Running (Some r)) = obind r (\<lambda>(s, w, e). Returns e)"

text \<open>The select of CaptureTermination: a signal cancels the context.\<close>

datatype stop_cause = Signal | ContextEnded

definition CaptureTermination :: "stop_cause \<Rightarrow> bool \<Rightarrow> bool" where
  "CaptureTermination t cancelled = (case t of Signal \<Rightarrow> True | ContextEnded \<Rightarrow> cancelled)"

section \<open>The adsc command\<close>

record AdscConfig =
  ad_Count :: int
  ad_Delay :: int
  ad_Namespace :: string

definition adsc_client :: "args \<Rightarrow> AdscConfig \<Rightarrow> string \<Rightarrow> xds_sim" where
  "adsc_client ag cfg ip =
     \<lparr>x_Labels = ag_Metadata ag, x_Metadata = Map.empty, x_Namespace = ad_Namespace cfg, x_ServiceAccount = [],
      x_Name = ''adsc'', x_IP = ip, x_Cluster = ''Kubernetes'', x_AppType = [], x_Delta = ag_DeltaXDS ag,
      x_cancel = None, x_done = None\<rparr>"

fun adsc_clients :: "args \<Rightarrow> AdscConfig \<Rightarrow> nat \<Rightarrow> 's world \<Rightarrow> xds_sim list \<times> 's world" where
  "adsc_clients ag cfg 0 w = ([], w)"
| "adsc_clients ag cfg (Suc n) w =
     (let (ip, next) = GetIP (nextIp w);
          (sims, w1) = adsc_clients ag cfg n (w\<lparr>nextIp := next\<rparr>)
      in (adsc_client ag cfg ip # sims, w1))"

definition adsc_count :: "AdscConfig \<Rightarrow> nat" where
  "adsc_count cfg = (if ad_Count cfg = 0 then 1 else nat (ad_Count cfg))"

definition Adsc :: "args \<Rightarrow> AdscConfig \<Rightarrow> 's world runtime \<Rightarrow> (xds_sim AggregateSimulation, 's world) waiting \<Rightarrow>
    's world \<Rightarrow> (xds_sim AggregateSimulation \<times> 's world \<times> gerror option) outcome" where
  "Adsc ag cfg rt until_done w =
     obind (GrpcOptions (ag_Auth ag) ''default'' ''default'') (\<lambda>opts.
       let (sims, w1) = adsc_clients ag cfg (adsc_count cfg) w
       in ExecuteSimulations until_done (agg_Run rt (\<lambda>x. ''*xds.Simulation'') (xds_Run ag))
            (agg_Cleanup (\<lambda>x. ''*xds.Simulation'') xds_Cleanup) \<lparr>Simulations = sims, Delay = ad_Delay cfg\<rparr> w1)"

section \<open>The fleet stops\<close>

lemma adsc_clients_ips:
  "adsc_clients ag cfg n w = (sims, w1) \<Longrightarrow> map x_IP sims = draws GetIP n (nextIp w) \<and> streams w1 = streams w"
proof (induction n arbitrary: w sims w1)
  case (Suc n)
  obtain ip next1 where ip: "GetIP (nextIp w) = (ip, next1)" by (rule prod.exhaust)
  obtain rest w2 where rest: "adsc_clients ag cfg n (w\<lparr>nextIp := next1\<rparr>) = (rest, w2)" by (rule prod.exhaust)
  then show ?case using Suc.prems ip Suc.IH [OF rest] by (auto simp: adsc_client_def)
qed simp

text \<open>Running keeps everything of a client but its handles, cleaning up cancels what it has started.\<close>

definition cancelled :: "'s world \<Rightarrow> xds_sim \<Rightarrow> bool" where
  "cancelled w x \<longleftrightarrow> (\<exists>i < length (streams w). x_done x = Some i \<and> sm_cancelled (streams w ! i))"

lemma xds_run_seq:
  "\<exists>ss' w'. run_seq steady tn (xds_Run ag) d ss w = Returns (ss', w', None) \<and> map x_IP ss' = map x_IP ss \<and>
     (\<forall>x \<in> set ss'. started (length (streams w')) x) \<and> length (streams w) \<le> length (streams w')"
proof (induction ss arbitrary: w)
  case (Cons x ss)
  obtain x1 w1 where x: "xds_Run ag x w = Returns (x1, w1, None)" "x_IP x1 = x_IP x"
    by (simp add: xds_Run_def Let_def)
  note s = xds_Run_started [OF x(1)]
  define w2 where "w2 = ContextSleep steady d w1"
  have w2: "streams w2 = streams w1" by (simp add: w2_def ContextSleep_def steady_def)
  obtain ss' w' where r: "run_seq steady tn (xds_Run ag) d ss w2 = Returns (ss', w', None)"
    "map x_IP ss' = map x_IP ss" "\<forall>y \<in> set ss'. started (length (streams w')) y" "length (streams w2) \<le> length (streams w')"
    using Cons.IH by blast
  have "started (length (streams w')) x1" using s started_mono r(4) by (metis w2)
  moreover have "run_seq steady tn (xds_Run ag) d (x # ss) w = Returns (x1 # ss', w', None)"
    using x(1) r(1) by (simp add: IsDone_def steady_def w2_def)
  moreover have "length (streams w) \<le> length (streams w')" using s r(4) by (simp add: w2)
  ultimately show ?case using r(2,3) x(2) by fastforce
qed simp

lemma xds_cleanup_seq:
  "\<forall>x \<in> set ss. started (length (streams w)) x \<Longrightarrow>
   \<exists>w'. cleanup_seq tn xds_Cleanup ss w errs = Returns (ss, w', errs) \<and> length (streams w') = length (streams w) \<and>
     (\<forall>x \<in> set ss. cancelled w' x) \<and> (\<forall>x. cancelled w x \<longrightarrow> cancelled w' x)"
proof (induction ss arbitrary: w)
  case (Cons x ss)
  then have "started (length (streams w)) x" by simp
  from xds_Cleanup_returns [OF this] obtain w1 where c: "xds_Cleanup x w = Returns (x, w1, None)"
    "length (streams w1) = length (streams w)" "\<forall>i. x_done x = Some i \<longrightarrow> sm_cancelled (streams w1 ! i)"
    "\<forall>j < length (streams w). sm_cancelled (streams w ! j) \<longrightarrow> sm_cancelled (streams w1 ! j)" by blast
  have x: "cancelled w1 x" using c(2,3) \<open>started _ x\<close> by (auto simp: cancelled_def started_def)
  have mono: "cancelled w y \<longrightarrow> cancelled w1 y" for y using c(2,4) by (auto simp: cancelled_def)
  obtain w' where "cleanup_seq tn xds_Cleanup ss w1 errs = Returns (ss, w', errs)" "length (streams w') = length (streams w1)"
    "\<forall>y \<in> set ss. cancelled w' y" "\<forall>y. cancelled w1 y \<longrightarrow> cancelled w' y"
    using Cons.IH [of w1] Cons.prems c(2) by auto
  then show ?case using c(1,2) x mono by (auto simp: Let_def)
qed simp

text \<open>
  C32: The adsc command ends: with an authentication it supports and a ramp-up that is not interrupted, it
  returns without an error once its context has ended; by then it has run the number of clients asked for
  (one if none), each from an address of its own, and every connection has been cancelled.
\<close>

theorem Adsc_returns:
  assumes "GrpcOptions (ag_Auth ag) ''default'' ''default'' = Returns opts"
    and "\<forall>a w. \<exists>w'. until_done (a, w) = Some (a, w') \<and> length (streams w) \<le> length (streams w')"
    and "adsc_count cfg \<le> 2 ^ 32"
  shows "\<exists>a w'. Adsc ag cfg steady until_done w = Returns (a, w', None) \<and>
    length (Simulations a) = adsc_count cfg \<and> distinct (map x_IP (Simulations a)) \<and> (\<forall>x \<in> set (Simulations a). cancelled w' x)"
proof -
  let ?tn = "\<lambda>x :: xds_sim. ''*xds.Simulation''"
  obtain sims w1 where sims: "adsc_clients ag cfg (adsc_count cfg) w = (sims, w1)" by (rule prod.exhaust)
  obtain ss w2 where run: "run_seq steady ?tn (xds_Run ag) (ad_Delay cfg) sims w1 = Returns (ss, w2, None)"
    "map x_IP ss = map x_IP sims" "\<forall>x \<in> set ss. started (length (streams w2)) x"
    using xds_run_seq by blast
  let ?a = "\<lparr>Simulations = ss, Delay = ad_Delay cfg\<rparr>"
  obtain w3 where w3: "until_done (?a, w2) = Some (?a, w3)" "length (streams w2) \<le> length (streams w3)"
    using assms(2) by blast
  have "\<forall>x \<in> set ss. started (length (streams w3)) x" using run(3) w3(2) started_mono by blast
  from xds_cleanup_seq [OF this, of ?tn None] obtain w4 where
    clean: "cleanup_seq ?tn xds_Cleanup ss w3 None = Returns (ss, w4, None)" "\<forall>x \<in> set ss. cancelled w4 x" by blast
  have "Adsc ag cfg steady until_done w = Returns (?a, w4, None)"
    using assms(1) sims run(1) w3(1) clean(1) by (simp add: Adsc_def ExecuteSimulations_def agg_Run_def agg_Cleanup_def)
  moreover have ips: "map x_IP ss = draws GetIP (adsc_count cfg) (nextIp w)" using adsc_clients_ips [OF sims] run(2) by simp
  moreover have "length ss = adsc_count cfg" using arg_cong [OF ips, of length] by simp
  ultimately show ?thesis using ips.distinct_draws [OF assms(3)] clean(2) by (intro exI [of _ ?a] exI [of _ w4]) simp
qed

lemma Adsc_returns_witness:
  "\<exists>a w'. Adsc small_args \<lparr>ad_Count = 3, ad_Delay = 1, ad_Namespace = ''ns''\<rparr> steady Some small_world = Returns (a, w', None) \<and>
     length (Simulations a) = 3 \<and> distinct (map x_IP (Simulations a))"
proof -
  let ?cfg = "\<lparr>ad_Count = 3, ad_Delay = 1, ad_Namespace = ''ns''\<rparr>"
  have "GrpcOptions (ag_Auth small_args) ''default'' ''default'' = Returns [InsecureTransport]"
    by (simp add: small_args_def GrpcOptions_def)
  from Adsc_returns [OF this, of Some ?cfg small_world] show ?thesis by (auto simp: adsc_count_def)
qed

section \<open>Executing a cluster\<close>

definition cleanup_succeeded :: "gerror option \<Rightarrow> bool" where
  "cleanup_succeeded e \<longleftrightarrow> e = None \<or> (\<exists>err. e = Some (ErrRunCleanup err None))"

lemma Execute_cases:
  assumes "ExecuteSimulations until_done run cleanup s w = Returns (s', w', e)"
  obtains s1 w1 err ce where "run s w = Returns (s1, w1, Some err)" "cleanup s1 w1 = Returns (s', w', ce)"
      "e = Some (ErrRunCleanup err ce)"
    | s1 w1 s2 w2 where "run s w = Returns (s1, w1, None)" "until_done (s1, w1) = Some (s2, w2)"
      "cleanup s2 w2 = Returns (s', w', e)"
proof -
  obtain s1 w1 e1 where r: "run s w = Returns (s1, w1, e1)"
    using assms by (auto simp: ExecuteSimulations_def obind_Returns_iff)
  show thesis
  proof (cases e1)
    case None
    then obtain s2 w2 where "until_done (s1, w1) = Some (s2, w2)" "cleanup s2 w2 = Returns (s', w', e)"
      using assms r by (auto simp: ExecuteSimulations_def split: option.splits)
    then show thesis using that(2) r None by blast
  next
    case (Some err)
    then obtain ce where "cleanup s1 w1 = Returns (s', w', ce)" "e = Some (ErrRunCleanup err ce)"
      using assms r by (auto simp: ExecuteSimulations_def obind_Returns_iff)
    then show thesis using that(1) r Some by blast
  qed
qed

text \<open>A parallel cleanup reports errors of simulations, never one that an executor has made.\<close>

lemma run_par_error:
  "run_par what tn act pause es ss w err = Returns (ss', w', e) \<Longrightarrow> e = err \<or> (\<exists>m x. e = Some (ErrV m x))"
proof (induction es arbitrary: ss w err)
  case (Cons ev es)
  show ?case
  proof (cases ev)
    case Launch
    then show ?thesis using Cons by simp
  next
    case (Exec i)
    then obtain s1 w1 e1 where "run_par what tn act pause es (ss[i := s1]) w1
        (case err of Some x \<Rightarrow> err | None \<Rightarrow> map_option (ErrV (what @ tn s1 @ '': '')) e1) = Returns (ss', w', e)"
      using Cons.prems by (auto simp: obind_Returns_iff)
    from Cons.IH [OF this] show ?thesis by (cases err; cases e1) auto
  qed
qed simp

lemma Cluster_Cleanup_error: "Cluster_Cleanup E c w = Returns (c', w', e) \<Longrightarrow> e = None \<or> (\<exists>m x. e = Some (ErrV m x))"
  by (auto simp: Cluster_Cleanup_def agg_CleanupParallel_def obind_Returns_iff dest!: run_par_error)

text \<open>
  Executing a cluster leaves nothing behind: whether its run fails or is ended by a signal after any
  background work (lease renewals, reconciled pods, refreshed workloads), unless its error reports a
  failed cleanup there is nothing in Kubernetes that was not there before.
\<close>

theorem Execute_cluster_leaves_nothing:
  assumes "env_documented E" and "\<forall>s s'. until_done s = Some s' \<longrightarrow> (background E)\<^sup>*\<^sup>* s s'"
    and "ExecuteSimulations until_done (Cluster_Run E) (Cluster_Cleanup E) c w = Returns (c', w', e)" and "cleanup_succeeded e"
  shows "live (kube E) w' \<subseteq> live (kube E) w"
  using assms(3)
proof (cases rule: Execute_cases)
  case (1 c1 w1 err ce)
  then have "Cluster_Cleanup E c1 w1 = Returns (c', w', None)" using assms(4) by (simp add: cleanup_succeeded_def)
  then show ?thesis using Cluster_Run_live [OF assms(1) 1(1)] Cluster_Cleanup_live [OF assms(1)] by blast
next
  case (2 c1 w1 c2 w2)
  have bg: "live (kube E) w2 \<subseteq> live (kube E) w \<union> Cluster_owned E c2"
    using background_star_live [OF assms(1), of "(c1, w1)" "(c2, w2)" "live (kube E) w"] assms(2) 2(2)
      Cluster_Run_live [OF assms(1) 2(1)] by simp
  have "e = None" using Cluster_Cleanup_error [OF 2(3)] assms(4) by (auto simp: cleanup_succeeded_def)
  then show ?thesis using Cluster_Cleanup_live [OF assms(1)] 2(3) bg by blast
qed

text \<open>A run that is ended after one renewal of a lease.\<close>

definition one_renewal :: "(Cluster, store world) waiting" where
  "one_renewal = (\<lambda>(c, w). if clu_nodes c = [] then Some (c, w) else Some (c, snd (lease_tick memory_env (hd (clu_nodes c)) w)))"

lemma one_renewal_background: "one_renewal s = Some s' \<Longrightarrow> (background memory_sim)\<^sup>*\<^sup>* s s'"
proof -
  obtain c w where s: "s = (c, w)" by (rule prod.exhaust)
  have "background memory_sim (c, w) (c, snd (lease_tick (kube memory_sim) (hd (clu_nodes c)) w))" if "clu_nodes c \<noteq> []"
    by (rule background.lease) (use that in simp)
  then show "one_renewal s = Some s' \<Longrightarrow> (background memory_sim)\<^sup>*\<^sup>* s s'"
    by (auto simp: one_renewal_def s memory_sim_def split: if_splits)
qed

lemma Execute_cluster_leaves_nothing_witness:
  "\<exists>c' w'. ExecuteSimulations one_renewal (Cluster_Run memory_sim) (Cluster_Cleanup memory_sim) sample_cluster memory_world
       = Returns (c', w', None) \<and> live (kube memory_sim) w' \<subseteq> live (kube memory_sim) memory_world"
proof -
  obtain c1 w1 c3 w3 where run: "Cluster_Run memory_sim sample_cluster memory_world = Returns (c1, w1, None)"
    and cl: "Cluster_Cleanup memory_sim c1 (snd (lease_tick memory_env (hd (clu_nodes c1)) w1)) = Returns (c3, w3, None)"
    and nodes: "clu_nodes c1 \<noteq> []"
    using sample_cluster_run by blast
  then have ex: "ExecuteSimulations one_renewal (Cluster_Run memory_sim) (Cluster_Cleanup memory_sim) sample_cluster memory_world
      = Returns (c3, w3, None)"
    by (simp add: ExecuteSimulations_def one_renewal_def)
  show ?thesis
    using Execute_cluster_leaves_nothing [OF memory_sim_documented _ ex] one_renewal_background ex
    by (auto simp: cleanup_succeeded_def)
qed

end
