(* ===== verification/Dump_Paths.thy ===== *)
theory Dump_Paths
  imports Go_Prelude
begin

text \<open>
  The file names of a configuration dump (pkg/simulation/dump/dump.go): Go's path cleaning and joining
  on Unix, and \<open>SanitizeName\<close>.
\<close>

section \<open>Paths\<close>

fun split_slash :: "string \<Rightarrow> string list" where
  "split_slash [] = [[]]"
| "split_slash (x # xs) =
     (if x = CHR ''/'' then [] # split_slash xs
      else (case split_slash xs of [] \<Rightarrow> [[x]] | y # ys \<Rightarrow> (x # y) # ys))"

text \<open>\<open>Clean\<close>: the elements are pushed on a stack; an inner dot dot pops, a leading one of a rooted path vanishes.\<close>

definition clean_step :: "bool \<Rightarrow> string \<Rightarrow> string list \<Rightarrow> string list" where
  "clean_step rooted e out =
     (if e = [] \<or> e = ''.'' then out
      else if e = ''..'' then
        (case out of [] \<Rightarrow> if rooted then [] else [e] | x # xs \<Rightarrow> if x = ''..'' then e # out else xs)
      else e # out)"

definition Clean :: "string \<Rightarrow> string" where
  "Clean p =
     (let rooted = (take 1 p = ''/'');
          s = (if rooted then ''/'' else []) @ join_with ''/'' (rev (fold (clean_step rooted) (split_slash p) []))
      in if s = [] then ''.'' else s)"

text \<open>\<open>filepath.Join\<close> starts at the first element that is not empty, \<open>path.Join\<close> drops all empty ones.\<close>

definition filepath_Join :: "string list \<Rightarrow> string" where
  "filepath_Join es = (case dropWhile (\<lambda>e. e = []) es of [] \<Rightarrow> [] | e # es' \<Rightarrow> Clean (join_with ''/'' (e # es')))"

definition path_Join :: "string list \<Rightarrow> string" where
  "path_Join es = (case filter (\<lambda>e. e \<noteq> []) es of [] \<Rightarrow> [] | e # es' \<Rightarrow> Clean (join_with ''/'' (e # es')))"

text \<open>A reference to a file of a directory is the name under which that file is written.\<close>

lemma Join_file:
  assumes "dir \<noteq> []" and "sub \<noteq> []"
  shows "filepath_Join [dir, sub, file] = path_Join [dir, sub @ ''/'' @ file]"
  using assms by (simp add: filepath_Join_def path_Join_def)

section \<open>Names\<close>

definition ReplaceAll :: "string \<Rightarrow> char \<Rightarrow> string \<Rightarrow> string" where
  "ReplaceAll s old new = concat (map (\<lambda>c. if c = old then new else [c]) s)"

definition SanitizeName :: "string \<Rightarrow> string" where
  "SanitizeName name = ReplaceAll (ReplaceAll name (CHR ''|'') ''_.'') (CHR ''/'') ''__.''"

definition sanitize_char :: "char \<Rightarrow> string" where
  "sanitize_char c = (if c = CHR ''|'' then ''_.'' else if c = CHR ''/'' then ''__.'' else [c])"

lemma ReplaceAll_simps [simp]:
  "ReplaceAll [] old new = []" "ReplaceAll (c # s) old new = (if c = old then new else [c]) @ ReplaceAll s old new"
  "ReplaceAll (s @ t) old new = ReplaceAll s old new @ ReplaceAll t old new"
  by (simp_all add: ReplaceAll_def)

lemma SanitizeName_chars: "SanitizeName s = concat (map sanitize_char s)"
  by (induction s) (simp_all add: SanitizeName_def sanitize_char_def)

lemma SanitizeName_no_slash: "CHR ''/'' \<notin> set (SanitizeName s)"
  by (auto simp: SanitizeName_chars sanitize_char_def)

lemma SanitizeName_inj: "CHR ''_'' \<notin> set s \<Longrightarrow> CHR ''_'' \<notin> set t \<Longrightarrow> SanitizeName s = SanitizeName t \<Longrightarrow> s = t"
proof (induction s arbitrary: t)
  case Nil
  then show ?case by (cases t) (auto simp: SanitizeName_chars sanitize_char_def split: if_splits)
next
  case (Cons c s)
  then obtain d t' where t: "t = d # t'"
    by (cases t) (auto simp: SanitizeName_chars sanitize_char_def split: if_splits)
  have "c = d \<and> SanitizeName s = SanitizeName t'"
    using Cons.prems by (auto simp: t SanitizeName_chars sanitize_char_def split: if_splits)
  then show ?case using Cons t by simp
qed

text \<open>Names with underscores can collide: a cluster and its SNI form share one file.\<close>

lemma SanitizeName_collides: "SanitizeName ''outbound|80||a'' = SanitizeName ''outbound_.80_._.a''"
  by (simp add: SanitizeName_chars sanitize_char_def)

end
