(* ===== verification/Certificates.thy ===== *)
theory Certificates
  imports Security
begin

text \<open>
  Signing a workload certificate (\<open>Certificate\<close> of pkg/simulation/security/auth.go and
  \<open>newCitadelClient\<close> of cert.go). Key generation, the PEM and gRPC libraries and the CA are the
  parameter \<open>ca\<close>.
\<close>

record Cert =
  ClientCert :: string
  Key :: string
  RootCert :: string

text \<open>
  \<open>ca_GenCSR\<close> takes the host and the key size, \<open>ca_sign\<close> the metadata pairs, the request and its
  validity in seconds; it answers with the chain.
\<close>

record 's ca =
  ca_GenCSR :: "string \<Rightarrow> nat \<Rightarrow> gerror + (string \<times> string)"
  ca_pem_ok :: "string \<Rightarrow> bool"
  ca_dial :: "string \<Rightarrow> string \<Rightarrow> gerror option"
  ca_sign :: "(string \<times> string) list \<Rightarrow> string \<Rightarrow> int \<Rightarrow> gerror + string list"
  ca_issue :: "string \<Rightarrow> string \<Rightarrow> string \<Rightarrow> 's \<Rightarrow> (gerror + token) \<times> 's"

definition newCitadelClient :: "'s ca \<Rightarrow> string \<Rightarrow> string \<Rightarrow> gerror option" where
  "newCitadelClient c endpoint rootCert =
     (if \<not> ca_pem_ok c rootCert then Some (ErrText ''failed to append certificates'')
      else map_option (\<lambda>err. ErrText (''failed to connect to endpoint '' @ endpoint)) (ca_dial c endpoint rootCert))"

definition Certificate :: "'s ca \<Rightarrow> gerror + string \<Rightarrow> string \<Rightarrow> string \<Rightarrow> string \<Rightarrow> 's tokens \<Rightarrow>
    (gerror + Cert) \<times> 's tokens" where
  "Certificate c fetchRoot addr serviceAccount namespace w =
     (case fetchRoot of
        Inl err \<Rightarrow> (Inl (ErrV ''failed to fetch root cert: '' err), w)
      | Inr rootCert \<Rightarrow>
          (case GetServiceAccountToken (ca_issue c) ''istio-ca'' namespace serviceAccount w of
             (Inl err, w1) \<Rightarrow> (Inl err, w1)
           | (Inr tok, w1) \<Rightarrow>
               (case ca_GenCSR c (san namespace serviceAccount) 2048 of
                  Inl err \<Rightarrow> (Inl err, w1)
                | Inr (csrPEM, keyPEM) \<Rightarrow>
                    (case newCitadelClient c addr rootCert of
                       Some err \<Rightarrow> (Inl (ErrV ''creating citadel client: '' err), w1)
                     | None \<Rightarrow>
                         (case ca_sign c [(''Authorization'', ''Bearer '' @ tok), (''ClusterID'', ''Kubernetes'')] csrPEM (7 * 24 * 3600) of
                            Inl err \<Rightarrow> (Inl (ErrV ''send CSR: '' err), w1)
                          | Inr chain \<Rightarrow>
                              (Inr \<lparr>ClientCert = concat chain, Key = keyPEM, RootCert = rootCert\<rparr>, w1))))))"

text \<open>A certificate that comes back was asked for with the root, the identity and the token it should have.\<close>

lemma Certificate_for:
  assumes "Certificate c fetchRoot addr sa ns w = (Inr cert, w')"
  shows "fetchRoot = Inr (RootCert cert) \<and>
    (\<exists>tok csr chain. GetServiceAccountToken (ca_issue c) ''istio-ca'' ns sa w = (Inr tok, w') \<and>
       ca_GenCSR c (san ns sa) 2048 = Inr (csr, Key cert) \<and> newCitadelClient c addr (RootCert cert) = None \<and>
       ca_sign c [(''Authorization'', ''Bearer '' @ tok), (''ClusterID'', ''Kubernetes'')] csr 604800 = Inr chain \<and>
       ClientCert cert = concat chain)"
  using assms by (auto simp: Certificate_def split: sum.splits prod.splits option.splits)

end
