(* ===== verification/Dump_Messages.thy ===== *)
theory Dump_Messages
  imports Adsc_Sotw Dump_Paths Certificates
begin

text \<open>
  The messages of a configuration dump (pkg/simulation/dump/dump.go): the rewriting of every reference to
  another resource into the path of a file, and the responses that are written. Decoding, encoding
  and YAML printing are the parameter \<open>dcodec\<close>.
\<close>

section \<open>Codecs\<close>

text \<open>
  A TLS context of one of the three kinds, decoded: its CommonTlsContext (absent: None) and the rest.
  Decoding gives None where \<open>SilentlyUnmarshalAny\<close> gives a nil pointer.
\<close>

record tlsmsg =
  tm_common :: "commontls option"
  tm_rest :: string

datatype dump_resource = Fetched message | TlsSecret string string string | CaSecret string string

record dump_response =
  dp_type :: type_url
  dp_version :: string
  dp_resources :: "dump_resource list"

record dcodec =
  dd_tls :: "type_url \<Rightarrow> any \<Rightarrow> tlsmsg option"
  en_tls :: "type_url \<Rightarrow> tlsmsg \<Rightarrow> any"
  dd_hcm :: "any option \<Rightarrow> (hcm \<times> string) option"
  en_hcm :: "hcm \<times> string \<Rightarrow> any"
  to_yaml :: "dump_response \<Rightarrow> string option"
  hcm_filter :: string

text \<open>A message that was decoded can be encoded with other references, and decodes to what was encoded.\<close>

definition dcodec_documented :: "dcodec \<Rightarrow> bool" where
  "dcodec_documented E \<longleftrightarrow>
     (\<forall>t x m c. dd_tls E t x = Some m \<longrightarrow>
        any_url (en_tls E t (m\<lparr>tm_common := Some c\<rparr>)) = t \<and>
        dd_tls E t (en_tls E t (m\<lparr>tm_common := Some c\<rparr>)) = Some (m\<lparr>tm_common := Some c\<rparr>)) \<and>
     (\<forall>x h rest p n. dd_hcm E x = Some (h, rest) \<longrightarrow>
        dd_hcm E (Some (en_hcm E (h\<lparr>h_routeSpecifier := RdsSpec (Some (PathSource p)) n\<rparr>, rest))) =
          Some (h\<lparr>h_routeSpecifier := RdsSpec (Some (PathSource p)) n\<rparr>, rest))"

lemma dcodec_tls:
  "dcodec_documented E \<Longrightarrow> dd_tls E t x = Some m \<Longrightarrow>
   any_url (en_tls E t (m\<lparr>tm_common := Some c\<rparr>)) = t \<and>
   dd_tls E t (en_tls E t (m\<lparr>tm_common := Some c\<rparr>)) = Some (m\<lparr>tm_common := Some c\<rparr>)"
  by (simp add: dcodec_documented_def)

lemma dcodec_hcm:
  "dcodec_documented E \<Longrightarrow> dd_hcm E x = Some (h, rest) \<Longrightarrow>
   dd_hcm E (Some (en_hcm E (h\<lparr>h_routeSpecifier := RdsSpec (Some (PathSource p)) n\<rparr>, rest))) =
     Some (h\<lparr>h_routeSpecifier := RdsSpec (Some (PathSource p)) n\<rparr>, rest)"
  unfolding dcodec_documented_def by blast

text \<open>A loop whose body may panic.\<close>

fun omap :: "('a \<Rightarrow> 'b outcome) \<Rightarrow> 'a list \<Rightarrow> 'b list outcome" where
  "omap f [] = Returns []"
| "omap f (x # xs) = obind (f x) (\<lambda>y. obind (omap f xs) (\<lambda>ys. Returns (y # ys)))"

lemma omap_Returns: "omap f xs = Returns ys \<Longrightarrow> list_all2 (\<lambda>x y. f x = Returns y) xs ys"
  by (induction xs arbitrary: ys) (auto simp: obind_Returns_iff)

lemma omap_member: "omap f xs = Returns ys \<Longrightarrow> y \<in> set ys \<Longrightarrow> \<exists>x \<in> set xs. f x = Returns y"
  by (induction xs arbitrary: ys) (auto simp: obind_Returns_iff)

section \<open>Rewriting\<close>

definition toPath :: "string \<Rightarrow> configsource" where
  "toPath p = PathSource p"

definition resource_path :: "string \<Rightarrow> string \<Rightarrow> string \<Rightarrow> string" where
  "resource_path path sub name = filepath_Join [path, sub, SanitizeName name @ ''.yaml'']"

definition rewrite_sds :: "string \<Rightarrow> sdsconfig \<Rightarrow> sdsconfig" where
  "rewrite_sds path s = s\<lparr>sds_config := Some (toPath (resource_path path ''sds'' (sds_name s)))\<rparr>"

definition rewrite_common :: "string \<Rightarrow> commontls \<Rightarrow> commontls" where
  "rewrite_common path c =
     c\<lparr>tls_certSds := map (rewrite_sds path) (tls_certSds c),
       tls_validation := (case tls_validation c of
           NoValidation \<Rightarrow> NoValidation
         | ValidationSds v \<Rightarrow> ValidationSds (rewrite_sds path v)
         | CombinedValidation v \<Rightarrow> CombinedValidation (map_option (rewrite_sds path) v))\<rparr>"

text \<open>
  The three kinds of TLS context are treated alike. A socket without a typed config, one that does not
  decode and one without CommonTlsContext are nil dereferences.
\<close>

definition is_tls :: "type_url \<Rightarrow> bool" where
  "is_tls t \<longleftrightarrow> t = DownstreamTlsType \<or> t = QuicDownstreamType \<or> t = UpstreamTlsType"

definition rewriteTransportSocket :: "dcodec \<Rightarrow> string \<Rightarrow> transportsocket option \<Rightarrow> transportsocket option outcome" where
  "rewriteTransportSocket E path s =
     (case s of
        None \<Rightarrow> Returns None
      | Some t \<Rightarrow>
          (case ts_typedConfig t of
             None \<Rightarrow> Panics ''nil pointer dereference''
           | Some x \<Rightarrow>
               if is_tls (any_url x) then
                 (case dd_tls E (any_url x) x of
                    None \<Rightarrow> Panics ''nil pointer dereference''
                  | Some tls \<Rightarrow>
                      (case tm_common tls of
                         None \<Rightarrow> Panics ''nil pointer dereference''
                       | Some c \<Rightarrow>
                           Returns (Some (t\<lparr>ts_typedConfig := Some (en_tls E (any_url x) (tls\<lparr>tm_common := Some (rewrite_common path c)\<rparr>))\<rparr>))))
               else Returns (Some t)))"

definition sanitizeCluster :: "dcodec \<Rightarrow> string \<Rightarrow> cluster \<Rightarrow> cluster outcome" where
  "sanitizeCluster E path r =
     obind (rewriteTransportSocket E path (cl_transportSocket r)) (\<lambda>ts.
     obind (omap (rewriteTransportSocket E path) (cl_socketMatches r)) (\<lambda>tsms.
       Returns (r\<lparr>cl_transportSocket := ts, cl_socketMatches := tsms,
                  cl_edsConfig := (case cl_edsConfig r of
                      None \<Rightarrow> None
                    | Some x \<Rightarrow> Some (Some (toPath (resource_path path ''eds'' (cl_name r)))))\<rparr>)))"

definition rewrite_discovery :: "string \<Rightarrow> netfilter \<Rightarrow> netfilter" where
  "rewrite_discovery path f =
     (case GetConfigDiscovery (f_config f) of
        None \<Rightarrow> f
      | Some cd \<Rightarrow>
          f\<lparr>f_config := ConfigDiscovery \<lparr>ec_source = Some (toPath (resource_path path ''ecds'' (f_name f))),
              ec_defaultConfig = ec_defaultConfig cd, ec_applyWithoutWarming = ec_applyWithoutWarming cd,
              ec_typeUrls = ec_typeUrls cd\<rparr>\<rparr>)"

text \<open>
  One network filter. The HTTP connection manager is encoded before its HTTP filters are rewritten, so
  \<open>h1\<close> is not seen by anybody.
\<close>

definition sanitizeFilter :: "dcodec \<Rightarrow> string \<Rightarrow> netfilter \<Rightarrow> netfilter outcome" where
  "sanitizeFilter E path f =
     (let f1 = rewrite_discovery path f in
      if f_name f1 = hcm_filter E then
        (case dd_hcm E (GetTypedConfig (f_config f1)) of
           None \<Rightarrow> Panics ''nil pointer dereference''
         | Some (h, rest) \<Rightarrow>
             (let f2 = (case h_routeSpecifier h of
                          RdsSpec src routeName \<Rightarrow>
                            f1\<lparr>f_config := TypedConfig (en_hcm E
                              (h\<lparr>h_routeSpecifier := RdsSpec (Some (toPath (resource_path path ''rds'' routeName))) ''routeName''\<rparr>, rest))\<rparr>
                        | _ \<Rightarrow> f1);
                  h1 = h\<lparr>h_httpFilters := map (rewrite_discovery path) (h_httpFilters h)\<rparr>
              in Returns f2))
      else Returns f1)"

definition sanitizeChain :: "dcodec \<Rightarrow> string \<Rightarrow> filterchain \<Rightarrow> filterchain outcome" where
  "sanitizeChain E path fc =
     obind (rewriteTransportSocket E path (fc_transportSocket fc)) (\<lambda>ts.
     obind (omap (sanitizeFilter E path) (fc_filters fc)) (\<lambda>fs.
       Returns (fc\<lparr>fc_transportSocket := ts, fc_filters := fs\<rparr>)))"

text \<open>The chains in the order of \<open>filterChains\<close> (the default chain last), then the listener filters.\<close>

definition sanitizeListener :: "dcodec \<Rightarrow> string \<Rightarrow> listener \<Rightarrow> listener outcome" where
  "sanitizeListener E path c =
     obind (omap (sanitizeChain E path) (l_filterChains c)) (\<lambda>chains.
     obind (case l_defaultFilterChain c of None \<Rightarrow> Returns None
            | Some d \<Rightarrow> obind (sanitizeChain E path d) (\<lambda>d1. Returns (Some d1))) (\<lambda>def_chain.
       Returns (c\<lparr>l_filterChains := chains, l_defaultFilterChain := def_chain,
                  l_listenerFilters := filter (\<lambda>f. GetConfigDiscovery (f_config f) = None) (l_listenerFilters c)\<rparr>)))"

section \<open>Responses\<close>

definition response_of :: "type_url \<Rightarrow> dump_resource list \<Rightarrow> dump_response" where
  "response_of t rs = \<lparr>dp_type = t, dp_version = ''0'', dp_resources = rs\<rparr>"

definition endpointsResponse :: "named list \<Rightarrow> dump_response" where
  "endpointsResponse rs = response_of EndpointType (map (\<lambda>c. Fetched (MEndpoint c)) rs)"

definition extensionsResponse :: "named list \<Rightarrow> dump_response" where
  "extensionsResponse rs = response_of ExtensionConfigType (map (\<lambda>c. Fetched (MExtension c)) rs)"

definition routesResponse :: "named list \<Rightarrow> dump_response" where
  "routesResponse rs = response_of RouteType (map (\<lambda>c. Fetched (MRoute c)) rs)"

definition secretXdsResponse :: "string \<Rightarrow> named list \<Rightarrow> dump_response" where
  "secretXdsResponse path rs = response_of SecretType (map (\<lambda>c. Fetched (MSecret c)) rs)"

definition clusterResponse :: "dcodec \<Rightarrow> string \<Rightarrow> cluster list \<Rightarrow> dump_response outcome" where
  "clusterResponse E path rs =
     obind (omap (sanitizeCluster E path) rs) (\<lambda>cs. Returns (response_of ClusterType (map (\<lambda>c. Fetched (MCluster c)) cs)))"

definition listenerResponse :: "dcodec \<Rightarrow> string \<Rightarrow> listener list \<Rightarrow> dump_response outcome" where
  "listenerResponse E path rs =
     obind (omap (sanitizeListener E path) rs) (\<lambda>ls. Returns (response_of ListenerType (map (\<lambda>l. Fetched (MListener l)) ls)))"

definition secretResponse :: "Cert \<Rightarrow> dump_response" where
  "secretResponse cert = response_of SecretType [TlsSecret ''default'' (ClientCert cert) (Key cert)]"

definition secretRootResponse :: "Cert \<Rightarrow> dump_response" where
  "secretRootResponse cert = response_of SecretType [CaSecret ''ROOTCA'' (RootCert cert)]"

definition ExtractListenerNames :: "listener list \<Rightarrow> string list" where
  "ExtractListenerNames ll = map l_name ll"

section \<open>References\<close>

text \<open>What a message refers to: its config sources, and the names of the resources it expects there.\<close>

definition common_sds :: "commontls \<Rightarrow> sdsconfig list" where
  "common_sds c = tls_certSds c @
     (case tls_validation c of NoValidation \<Rightarrow> [] | ValidationSds v \<Rightarrow> [v]
      | CombinedValidation v \<Rightarrow> (case v of None \<Rightarrow> [] | Some x \<Rightarrow> [x]))"

definition socket_sds :: "dcodec \<Rightarrow> transportsocket option \<Rightarrow> sdsconfig list" where
  "socket_sds E s =
     (case s of None \<Rightarrow> [] | Some t \<Rightarrow>
       (case ts_typedConfig t of None \<Rightarrow> [] | Some x \<Rightarrow>
         if is_tls (any_url x) then
           (case dd_tls E (any_url x) x of None \<Rightarrow> [] | Some tls \<Rightarrow>
             (case tm_common tls of None \<Rightarrow> [] | Some c \<Rightarrow> common_sds c))
         else []))"

definition filter_ecds :: "netfilter \<Rightarrow> (configsource option \<times> string) list" where
  "filter_ecds f = (case GetConfigDiscovery (f_config f) of None \<Rightarrow> [] | Some cd \<Rightarrow> [(ec_source cd, f_name f)])"

definition filter_rds :: "dcodec \<Rightarrow> netfilter \<Rightarrow> (configsource option \<times> string) list" where
  "filter_rds E f =
     (if f_name f = hcm_filter E then
        (case dd_hcm E (GetTypedConfig (f_config f)) of None \<Rightarrow> []
         | Some (h, rest) \<Rightarrow> (case h_routeSpecifier h of RdsSpec src n \<Rightarrow> [(src, n)] | _ \<Rightarrow> []))
      else [])"

lemma rewrite_sds_simps [simp]:
  "sds_name (rewrite_sds path s) = sds_name s"
  "sds_config (rewrite_sds path s) = Some (PathSource (resource_path path ''sds'' (sds_name s)))"
  by (simp_all add: rewrite_sds_def toPath_def)

lemma rewrite_common_sds: "common_sds (rewrite_common path c) = map (rewrite_sds path) (common_sds c)"
  by (auto simp: common_sds_def rewrite_common_def split: validation.splits option.splits)

lemma rewriteTransportSocket_sds:
  assumes "dcodec_documented E" and "rewriteTransportSocket E path s = Returns s'"
  shows "socket_sds E s' = map (rewrite_sds path) (socket_sds E s)"
  using assms(2) dcodec_tls [OF assms(1)]
  by (auto simp: rewriteTransportSocket_def socket_sds_def rewrite_common_sds split: option.splits if_splits)

lemma rewrite_discovery_name [simp]: "f_name (rewrite_discovery path f) = f_name f"
  by (simp add: rewrite_discovery_def split: option.splits)

lemma rewrite_discovery_typed: "GetTypedConfig (f_config (rewrite_discovery path f)) = GetTypedConfig (f_config f)"
  by (cases "f_config f") (simp_all add: rewrite_discovery_def)

lemma sanitizeFilter_refs:
  assumes doc: "dcodec_documented E" and run: "sanitizeFilter E path f = Returns f'"
  shows "(\<forall>(src, n) \<in> set (filter_ecds f'). src = Some (PathSource (resource_path path ''ecds'' n)) \<and> n \<in> snd ` set (filter_ecds f)) \<and>
    (\<forall>(src, n') \<in> set (filter_rds E f'). \<exists>n \<in> snd ` set (filter_rds E f). src = Some (PathSource (resource_path path ''rds'' n)))"
proof (cases "f_name f = hcm_filter E")
  case False
  then have "f' = rewrite_discovery path f" using run by (simp add: sanitizeFilter_def)
  then show ?thesis using False
    by (cases "f_config f") (auto simp: filter_ecds_def filter_rds_def rewrite_discovery_def toPath_def)
next
  case True
  then obtain h rest where h: "dd_hcm E (GetTypedConfig (f_config f)) = Some (h, rest)"
    using run by (auto simp: sanitizeFilter_def rewrite_discovery_typed Let_def split: option.splits)
  show ?thesis
  proof (cases "h_routeSpecifier h")
    case (RdsSpec src n)
    then have "f' = (rewrite_discovery path f)\<lparr>f_config := TypedConfig (en_hcm E
        (h\<lparr>h_routeSpecifier := RdsSpec (Some (toPath (resource_path path ''rds'' n))) ''routeName''\<rparr>, rest))\<rparr>"
      using run True h by (simp add: sanitizeFilter_def rewrite_discovery_typed)
    then show ?thesis using True h RdsSpec dcodec_hcm [OF doc h]
      by (auto simp: filter_ecds_def filter_rds_def toPath_def)
  next
    case NoRouteSpec
    then have "f' = rewrite_discovery path f" using run True h by (simp add: sanitizeFilter_def rewrite_discovery_typed)
    then show ?thesis using True h NoRouteSpec
      by (cases "f_config f") (auto simp: filter_ecds_def filter_rds_def rewrite_discovery_def toPath_def)
  next
    case (OtherRouteSpec x)
    then have "f' = rewrite_discovery path f" using run True h by (simp add: sanitizeFilter_def rewrite_discovery_typed)
    then show ?thesis using True h OtherRouteSpec
      by (cases "f_config f") (auto simp: filter_ecds_def filter_rds_def rewrite_discovery_def toPath_def)
  qed
qed

text \<open>The references of a listener and of a cluster, by the directory of their files.\<close>

definition chain_links :: "dcodec \<Rightarrow> filterchain \<Rightarrow> (string \<times> configsource option \<times> string) set" where
  "chain_links E fc =
     {(''sds'', sds_config s, sds_name s) | s. s \<in> set (socket_sds E (fc_transportSocket fc))} \<union>
     {(''ecds'', r) | r f. f \<in> set (fc_filters fc) \<and> r \<in> set (filter_ecds f)} \<union>
     {(''rds'', r) | r f. f \<in> set (fc_filters fc) \<and> r \<in> set (filter_rds E f)}"

definition listener_links :: "dcodec \<Rightarrow> listener \<Rightarrow> (string \<times> configsource option \<times> string) set" where
  "listener_links E l = \<Union> (chain_links E ` set (getFilterChains l))"

definition cluster_links :: "dcodec \<Rightarrow> cluster \<Rightarrow> (string \<times> configsource option \<times> string) set" where
  "cluster_links E c =
     {(''sds'', sds_config s, sds_name s) | s ts. ts \<in> set (cl_transportSocket c # cl_socketMatches c) \<and> s \<in> set (socket_sds E ts)} \<union>
     (case cl_edsConfig c of None \<Rightarrow> {} | Some src \<Rightarrow> {(''eds'', src, cl_name c)})"

text \<open>What is referred to, without the source.\<close>

definition wants :: "(string \<times> configsource option \<times> string) set \<Rightarrow> (string \<times> string) set" where
  "wants refs = (\<lambda>(sub, src, n). (sub, n)) ` refs"

text \<open>After rewriting, every source is the path of something the message wanted.\<close>

definition resolved :: "string \<Rightarrow> (string \<times> string) set \<Rightarrow> (string \<times> configsource option \<times> string) set \<Rightarrow> bool" where
  "resolved path ws refs \<longleftrightarrow>
     (\<forall>(sub, src, n') \<in> refs. \<exists>n. (sub, n) \<in> ws \<and> src = Some (PathSource (resource_path path sub n)))"

lemma resolvedI:
  "(\<And>sub src n'. (sub, src, n') \<in> refs \<Longrightarrow> \<exists>n. (sub, n) \<in> ws \<and> src = Some (PathSource (resource_path path sub n))) \<Longrightarrow>
   resolved path ws refs"
  by (auto simp: resolved_def)

lemma wantsI: "(sub, src, n) \<in> refs \<Longrightarrow> (sub, n) \<in> wants refs"
  by (force simp: wants_def)

lemma wants_Union: "wants (\<Union> (r ` X)) = (\<Union>x \<in> X. wants (r x))"
  by (simp add: wants_def image_UN)

lemma chain_linksI:
  "s \<in> set (socket_sds E (fc_transportSocket fc)) \<Longrightarrow> (''sds'', sds_config s, sds_name s) \<in> chain_links E fc"
  "f \<in> set (fc_filters fc) \<Longrightarrow> (src, n) \<in> set (filter_ecds f) \<Longrightarrow> (''ecds'', src, n) \<in> chain_links E fc"
  "f \<in> set (fc_filters fc) \<Longrightarrow> (src, n) \<in> set (filter_rds E f) \<Longrightarrow> (''rds'', src, n) \<in> chain_links E fc"
  by (auto simp: chain_links_def)

lemma sanitizeChain_refs:
  assumes doc: "dcodec_documented E" and run: "sanitizeChain E path fc = Returns fc'"
  shows "resolved path (wants (chain_links E fc)) (chain_links E fc')"
proof -
  obtain ts fs where ts: "rewriteTransportSocket E path (fc_transportSocket fc) = Returns ts"
    and fs: "omap (sanitizeFilter E path) (fc_filters fc) = Returns fs"
    and fc': "fc' = fc\<lparr>fc_transportSocket := ts, fc_filters := fs\<rparr>"
    using run by (auto simp: sanitizeChain_def obind_Returns_iff)
  show ?thesis
  proof (rule resolvedI)
    fix sub src n'
    assume "(sub, src, n') \<in> chain_links E fc'"
    then consider (sds) s where "sub = ''sds''" "src = sds_config s" "s \<in> set (socket_sds E ts)"
      | (ecds) g where "sub = ''ecds''" "g \<in> set fs" "(src, n') \<in> set (filter_ecds g)"
      | (rds) g where "sub = ''rds''" "g \<in> set fs" "(src, n') \<in> set (filter_rds E g)"
      by (auto simp: chain_links_def fc')
    then show "\<exists>n. (sub, n) \<in> wants (chain_links E fc) \<and> src = Some (PathSource (resource_path path sub n))"
    proof cases
      case sds
      then obtain s0 where "s = rewrite_sds path s0" "s0 \<in> set (socket_sds E (fc_transportSocket fc))"
        using rewriteTransportSocket_sds [OF doc ts] by auto
      then show ?thesis using sds wantsI [OF chain_linksI(1)] by fastforce
    next
      case ecds
      then obtain f where f: "f \<in> set (fc_filters fc)" "sanitizeFilter E path f = Returns g" using omap_member [OF fs] by blast
      have n: "src = Some (PathSource (resource_path path ''ecds'' n'))" "n' \<in> snd ` set (filter_ecds f)"
        using sanitizeFilter_refs [OF doc f(2)] ecds(3) by auto
      then obtain src0 where "(src0, n') \<in> set (filter_ecds f)" by auto
      then show ?thesis using n(1) ecds(1) wantsI [OF chain_linksI(2) [OF f(1)]] by blast
    next
      case rds
      then obtain f where f: "f \<in> set (fc_filters fc)" "sanitizeFilter E path f = Returns g" using omap_member [OF fs] by blast
      then obtain n where n: "n \<in> snd ` set (filter_rds E f)" "src = Some (PathSource (resource_path path ''rds'' n))"
        using sanitizeFilter_refs [OF doc f(2)] rds by blast
      then obtain src0 where "(src0, n) \<in> set (filter_rds E f)" by auto
      then show ?thesis using n(2) rds(1) wantsI [OF chain_linksI(3) [OF f(1)]] by blast
    qed
  qed
qed

lemma resolved_Union:
  assumes "\<forall>y \<in> Y. \<exists>x \<in> X. resolved path (wants (r x)) (r y)"
  shows "resolved path (wants (\<Union> (r ` X))) (\<Union> (r ` Y))"
proof (rule resolvedI)
  fix sub src n'
  assume "(sub, src, n') \<in> \<Union> (r ` Y)"
  then obtain y where y: "y \<in> Y" "(sub, src, n') \<in> r y" by blast
  then obtain x where "x \<in> X" "resolved path (wants (r x)) (r y)" using assms by blast
  then show "\<exists>n. (sub, n) \<in> wants (\<Union> (r ` X)) \<and> src = Some (PathSource (resource_path path sub n))"
    using y(2) by (fastforce simp: resolved_def wants_Union)
qed

lemma sanitizeListener_refs:
  assumes doc: "dcodec_documented E" and run: "sanitizeListener E path l = Returns l'"
  shows "resolved path (wants (listener_links E l)) (listener_links E l')"
proof -
  obtain chains d where chains: "omap (sanitizeChain E path) (l_filterChains l) = Returns chains"
    and d: "(case l_defaultFilterChain l of None \<Rightarrow> Returns None
      | Some d \<Rightarrow> obind (sanitizeChain E path d) (\<lambda>d1. Returns (Some d1))) = Returns d"
    and l': "l_filterChains l' = chains" "l_defaultFilterChain l' = d"
    using run by (auto simp: sanitizeListener_def obind_Returns_iff)
  have "\<exists>x \<in> set (getFilterChains l). sanitizeChain E path x = Returns y" if "y \<in> set (getFilterChains l')" for y
    using that d omap_member [OF chains]
    by (auto simp: getFilterChains_def l' Let_def obind_Returns_iff split: option.splits)
  then show ?thesis unfolding listener_links_def
    by (intro resolved_Union) (blast intro: sanitizeChain_refs [OF doc])
qed

lemma sanitizeCluster_refs:
  assumes doc: "dcodec_documented E" and run: "sanitizeCluster E path c = Returns c'"
  shows "resolved path (wants (cluster_links E c)) (cluster_links E c')"
proof -
  obtain ts tsms where ts: "rewriteTransportSocket E path (cl_transportSocket c) = Returns ts"
    and tsms: "omap (rewriteTransportSocket E path) (cl_socketMatches c) = Returns tsms"
    and c': "cl_transportSocket c' = ts" "cl_socketMatches c' = tsms" "cl_name c' = cl_name c"
      "cl_edsConfig c' = (case cl_edsConfig c of None \<Rightarrow> None | Some x \<Rightarrow> Some (Some (toPath (resource_path path ''eds'' (cl_name c)))))"
    using run by (auto simp: sanitizeCluster_def obind_Returns_iff)
  have socket: "\<exists>t0 \<in> set (cl_transportSocket c # cl_socketMatches c). rewriteTransportSocket E path t0 = Returns t"
    if "t \<in> set (ts # tsms)" for t
    using that ts omap_member [OF tsms] by auto
  show ?thesis
  proof (rule resolvedI)
    fix sub src n'
    assume "(sub, src, n') \<in> cluster_links E c'"
    then consider (sds) s t where "sub = ''sds''" "src = sds_config s" "t \<in> set (ts # tsms)" "s \<in> set (socket_sds E t)"
      | (eds) x where "sub = ''eds''" "cl_edsConfig c = Some x" "src = Some (PathSource (resource_path path ''eds'' (cl_name c)))"
      by (auto simp: cluster_links_def c' toPath_def split: option.splits)
    then show "\<exists>n. (sub, n) \<in> wants (cluster_links E c) \<and> src = Some (PathSource (resource_path path sub n))"
    proof cases
      case sds
      obtain t0 where t0: "t0 \<in> set (cl_transportSocket c # cl_socketMatches c)" "rewriteTransportSocket E path t0 = Returns t"
        using socket [OF sds(3)] by blast
      then obtain s0 where "s = rewrite_sds path s0" "s0 \<in> set (socket_sds E t0)"
        using rewriteTransportSocket_sds [OF doc t0(2)] sds(4) by auto
      moreover have "(''sds'', sds_config s0, sds_name s0) \<in> cluster_links E c"
        using t0(1) calculation by (auto simp: cluster_links_def)
      ultimately show ?thesis using sds(1,2) wantsI by fastforce
    next
      case eds
      then have "(''eds'', x, cl_name c) \<in> cluster_links E c" by (simp add: cluster_links_def)
      then show ?thesis using eds(1,3) wantsI by blast
    qed
  qed
qed

text \<open>
  Two losses of the rewriting: the route a listener asks for in its file, and the HTTP filters that are
  discovered, which keep the source they had.
\<close>

lemma route_name_lost:
  assumes doc: "dcodec_documented E" and f: "f_name f = hcm_filter E" "dd_hcm E (GetTypedConfig (f_config f)) = Some (h, rest)"
    and h: "h_routeSpecifier h = RdsSpec src n" and run: "sanitizeFilter E path f = Returns f'"
  shows "snd ` set (filter_rds E f') = {''routeName''}"
proof -
  let ?h = "h\<lparr>h_routeSpecifier := RdsSpec (Some (PathSource (resource_path path ''rds'' n))) ''routeName''\<rparr>"
  have "f' = (rewrite_discovery path f)\<lparr>f_config := TypedConfig (en_hcm E (?h, rest))\<rparr>"
    using run f h by (simp add: sanitizeFilter_def rewrite_discovery_typed toPath_def)
  then have "filter_rds E f' = [(Some (PathSource (resource_path path ''rds'' n)), ''routeName'')]"
    using f(1) dcodec_hcm [OF doc f(2)] by (simp add: filter_rds_def)
  then show ?thesis by simp
qed

lemma http_filters_kept:
  assumes doc: "dcodec_documented E" and f: "f_name f = hcm_filter E" "dd_hcm E (GetTypedConfig (f_config f)) = Some (h, rest)"
    and run: "sanitizeFilter E path f = Returns f'"
  shows "\<exists>h' rest'. dd_hcm E (GetTypedConfig (f_config f')) = Some (h', rest') \<and> h_httpFilters h' = h_httpFilters h"
proof (cases "h_routeSpecifier h")
  case (RdsSpec src n)
  then have "f' = (rewrite_discovery path f)\<lparr>f_config := TypedConfig (en_hcm E
      (h\<lparr>h_routeSpecifier := RdsSpec (Some (toPath (resource_path path ''rds'' n))) ''routeName''\<rparr>, rest))\<rparr>"
    using run f by (simp add: sanitizeFilter_def rewrite_discovery_typed)
  then show ?thesis using dcodec_hcm [OF doc f(2)] by (simp add: toPath_def)
next
  case NoRouteSpec
  then have "f' = rewrite_discovery path f" using run f by (simp add: sanitizeFilter_def rewrite_discovery_typed)
  then show ?thesis using f(2) by (simp add: rewrite_discovery_typed)
next
  case (OtherRouteSpec x)
  then have "f' = rewrite_discovery path f" using run f by (simp add: sanitizeFilter_def rewrite_discovery_typed)
  then show ?thesis using f(2) by (simp add: rewrite_discovery_typed)
qed

end
