(* ===== verification/Dump.thy ===== *)
theory Dump
  imports Dump_Messages Adsc_Load Execution
begin

text \<open>
  The configuration dump (pkg/simulation/dump/dump.go): fetch what a pod's proxy would receive, write it as
  files whose references point at each other, run as a one-shot simulation.
\<close>

section \<open>Environment\<close>

text \<open>
  \<open>de_keys\<close> is the order in which Go lists the keys of a map, \<open>de_events\<close> what the XDS client receives,
  \<open>de_dial\<close> whether dialling and the stream succeed, \<open>de_can_write\<close> which files can be written.
\<close>

record ('s, 't) dump_env =
  de_args :: args
  de_kube :: "'s kenv"
  de_codec :: codec
  de_dcodec :: dcodec
  de_keys :: "(string \<rightharpoonup> message) \<Rightarrow> string list"
  de_dial :: "bool \<times> bool"
  de_events :: "fetch_event list"
  de_privateIP :: string
  de_ca :: "'t ca"
  de_fetchRoot :: "gerror + string"
  de_can_write :: "string \<Rightarrow> bool"

record dumpfs =
  df_dirs :: "string list"
  df_stdout :: "string list"
  df_files :: "(string \<times> string) list"

record ('s, 't) dump_world =
  dw_world :: "'s world"
  dw_tokens :: "'t tokens"
  dw_fs :: dumpfs

record DumpSpec =
  du_Pod :: string
  du_Namespace :: string
  du_OutputDir :: string

section \<open>Writing\<close>

definition writeBytes :: "('s, 't) dump_env \<Rightarrow> string \<Rightarrow> string \<Rightarrow> string \<Rightarrow> dumpfs \<Rightarrow> dumpfs outcome" where
  "writeBytes E yaml dir file fs =
     (if dir = [] then Returns (fs\<lparr>df_stdout := df_stdout fs @ [yaml]\<rparr>)
      else if de_can_write E (path_Join [dir, file]) then Returns (fs\<lparr>df_files := df_files fs @ [(path_Join [dir, file], yaml)]\<rparr>)
      else Panics ''open file'')"

definition MarshallYaml :: "('s, 't) dump_env \<Rightarrow> dump_response \<Rightarrow> string outcome" where
  "MarshallYaml E r = (case to_yaml (de_dcodec E) r of None \<Rightarrow> Panics ''failed to marshal'' | Some b \<Rightarrow> Returns b)"

definition writeResponse :: "('s, 't) dump_env \<Rightarrow> dump_response \<Rightarrow> string \<Rightarrow> string \<Rightarrow> dumpfs \<Rightarrow> dumpfs outcome" where
  "writeResponse E r dir file fs = obind (MarshallYaml E r) (\<lambda>b. writeBytes E b dir file fs)"

text \<open>The type assertions of a fetched message.\<close>

fun as_cluster :: "message \<Rightarrow> cluster option" where
  "as_cluster (MCluster c) = Some c"
| "as_cluster _ = None"

fun as_listener :: "message \<Rightarrow> listener option" where
  "as_listener (MListener l) = Some l"
| "as_listener _ = None"

fun as_route :: "message \<Rightarrow> named option" where
  "as_route (MRoute n) = Some n"
| "as_route _ = None"

fun as_endpoint :: "message \<Rightarrow> named option" where
  "as_endpoint (MEndpoint n) = Some n"
| "as_endpoint _ = None"

fun as_extension :: "message \<Rightarrow> named option" where
  "as_extension (MExtension n) = Some n"
| "as_extension _ = None"

fun as_secret :: "message \<Rightarrow> named option" where
  "as_secret (MSecret n) = Some n"
| "as_secret _ = None"

definition assert_type :: "(message \<Rightarrow> 'm option) \<Rightarrow> message option \<Rightarrow> 'm outcome" where
  "assert_type as m =
     (case m of None \<Rightarrow> Panics ''interface conversion''
      | Some x \<Rightarrow> (case as x of None \<Rightarrow> Panics ''interface conversion'' | Some y \<Rightarrow> Returns y))"

definition transmute :: "('s, 't) dump_env \<Rightarrow> (message \<Rightarrow> 'm option) \<Rightarrow> (string \<rightharpoonup> message) \<Rightarrow> 'm list outcome" where
  "transmute E as resp = omap (\<lambda>k. assert_type as (resp k)) (sort (de_keys E resp))"

text \<open>One of the loops of write: every resource into a file of its own.\<close>

fun write_each :: "('s, 't) dump_env \<Rightarrow> string \<Rightarrow> string \<Rightarrow> (message \<Rightarrow> named option) \<Rightarrow> (named list \<Rightarrow> dump_response) \<Rightarrow>
    (string \<rightharpoonup> message) \<Rightarrow> string list \<Rightarrow> dumpfs \<Rightarrow> dumpfs outcome" where
  "write_each E dir sub as response resp [] fs = Returns fs"
| "write_each E dir sub as response resp (name # names) fs =
     obind (assert_type as (resp name)) (\<lambda>m.
     obind (writeResponse E (response [m]) dir (sub @ ''/'' @ SanitizeName name @ ''.yaml'') fs) (\<lambda>fs1.
       write_each E dir sub as response resp names fs1))"

definition newline :: string where
  "newline = [CHR 0x0A]"

definition bootstrap :: "string \<Rightarrow> string" where
  "bootstrap outdir = join_with newline
     [''node:'', ''  id: node'', ''  cluster: envoy'', ''admin:'', ''  access_log_path: /dev/stdout'', ''  address:'',
      ''    socket_address:'', ''      address: 0.0.0.0'', ''      port_value: 15000'', ''bootstrap_extensions:'',
      ''- name: envoy.bootstrap.internal_listener'', ''  typed_config:'',
      ''    '' @ [CHR 0x22] @ ''@type'' @ [CHR 0x22] @ '': type.googleapis.com/udpa.type.v1.TypedStruct'',
      ''    type_url: type.googleapis.com/envoy.extensions.bootstrap.internal_listener.v3.InternalListener'',
      ''dynamic_resources:'', ''  lds_config:'', ''    path: '' @ outdir @ ''/lds.yaml'', ''  cds_config:'',
      ''    path:  '' @ outdir @ ''/cds.yaml'']"

definition make_dirs :: "string \<Rightarrow> dumpfs \<Rightarrow> dumpfs" where
  "make_dirs dir fs =
     (if dir \<noteq> [] then fs\<lparr>df_dirs := df_dirs fs @ [dir, dir @ ''/rds'', dir @ ''/eds'', dir @ ''/sds'', dir @ ''/ecds'']\<rparr> else fs)"

definition write_listeners_clusters :: "('s, 't) dump_env \<Rightarrow> string \<Rightarrow> Responses \<Rightarrow> dumpfs \<Rightarrow> dumpfs outcome" where
  "write_listeners_clusters E dir resp fs =
     obind (transmute E as_cluster (r_clusters resp)) (\<lambda>cs.
     obind (clusterResponse (de_dcodec E) dir cs) (\<lambda>cr.
     obind (writeResponse E cr dir ''cds.yaml'' fs) (\<lambda>fs1.
     obind (transmute E as_listener (r_listeners resp)) (\<lambda>ls.
     obind (listenerResponse (de_dcodec E) dir ls) (\<lambda>lr.
       writeResponse E lr dir ''lds.yaml'' fs1)))))"

definition write_dump :: "('s, 't) dump_env \<Rightarrow> string \<Rightarrow> Responses \<Rightarrow> Cert \<Rightarrow> dumpfs \<Rightarrow> dumpfs outcome" where
  "write_dump E dir resp cert fs =
     obind (write_listeners_clusters E dir resp (make_dirs dir fs)) (\<lambda>f1.
     obind (write_each E dir ''rds'' as_route routesResponse (r_routes resp) (de_keys E (r_routes resp)) f1) (\<lambda>f2.
     obind (write_each E dir ''eds'' as_endpoint endpointsResponse (r_endpoints resp) (de_keys E (r_endpoints resp)) f2) (\<lambda>f3.
     obind (write_each E dir ''ecds'' as_extension extensionsResponse (r_extensions resp) (de_keys E (r_extensions resp)) f3) (\<lambda>f4.
     obind (write_each E dir ''sds'' as_secret (secretXdsResponse dir) (r_secrets resp) (de_keys E (r_secrets resp)) f4) (\<lambda>f5.
     obind (writeBytes E (bootstrap dir) dir ''config.yaml'' f5) (\<lambda>f6.
     obind (writeResponse E (secretResponse cert) dir ''sds/default.yaml'' f6) (\<lambda>f7.
       writeResponse E (secretRootResponse cert) dir ''sds/ROOTCA.yaml'' f7)))))))"

section \<open>Run\<close>

fun scan_env :: "envvar list \<Rightarrow> smap \<Rightarrow> smap" where
  "scan_env [] m = m"
| "scan_env (e # es) m =
     scan_env es (if take 11 (ev_name e) = ''ISTIO_META_'' \<and> ev_value e \<noteq> [] then m(drop 11 (ev_name e) \<mapsto> ev_value e) else m)"

fun scan_containers :: "container list \<Rightarrow> string \<times> smap \<Rightarrow> string \<times> smap" where
  "scan_containers [] acc = acc"
| "scan_containers (c # cs) (proxyType, m) =
     scan_containers cs
       (if c_name c = ''istio-proxy'' \<and> length (c_args c) > 2 \<and> c_args c ! 1 = ''router'' then ''router'' else proxyType,
        scan_env (c_env c) m)"

definition dump_podspec :: "kobj \<Rightarrow> podspec" where
  "dump_podspec pod = (case o_spec pod of PodSpec s \<Rightarrow> s | _ \<Rightarrow> empty_podspec)"

definition dump_podip :: "kobj \<Rightarrow> string" where
  "dump_podip pod = (case o_status pod of Status (PodStatus s) \<Rightarrow> st_podIP s | _ \<Rightarrow> [])"

definition dump_meta :: "smap \<Rightarrow> kobj \<Rightarrow> smap \<Rightarrow> (string \<rightharpoonup> metaval)" where
  "dump_meta metadata pod podMeta =
     (clone metadata)
       (''ISTIO_VERSION'' \<mapsto> MStr ''1.20.0-pilot-load'', ''LABELS'' \<mapsto> MMap (o_labels pod),
        ''NAMESPACE'' \<mapsto> MStr (o_namespace pod), ''SERVICE_ACCOUNT'' \<mapsto> MStr (ps_serviceAccountName (dump_podspec pod)),
        ''NODE_NAME'' \<mapsto> MStr (ps_nodeName (dump_podspec pod))) ++ clone podMeta"

definition dump_config :: "('s, 't) dump_env \<Rightarrow> kobj \<Rightarrow> Config" where
  "dump_config E pod =
     (let (proxyType, podMeta) = scan_containers (ps_containers (dump_podspec pod)) (''sidecar'', Map.empty)
      in \<lparr>c_Namespace = o_namespace pod, c_Workload = o_name pod, c_Meta = dump_meta (ag_Metadata (de_args E)) pod podMeta,
          c_NodeType = proxyType, c_IP = dump_podip pod, c_hasUpdates = False, c_Delta = False\<rparr>)"

definition dump_fetch :: "('s, 't) dump_env \<Rightarrow> Config \<Rightarrow> (gerror + Responses) outcome" where
  "dump_fetch E cfg =
     (case Dial cfg (fst (de_dial E)) (snd (de_dial E)) of
        DialOk \<Rightarrow>
          obind (Fetch (de_codec E) (de_events E) (new_adsc (nodeID (dial_defaults (de_privateIP E) cfg)) True)) (\<lambda>(r, a).
            Returns (case r of None \<Rightarrow> Inl (ErrText ''context closed'') | Some resp \<Rightarrow> Inr resp))
      | _ \<Rightarrow> Returns (Inl (ErrText ''ADS connection'')))"

definition Dump_Run :: "('s, 't) dump_env \<Rightarrow> (DumpSpec, ('s, 't) dump_world) action" where
  "Dump_Run E i W =
     (case exec (de_kube E) (Get (''Pod'', du_Namespace i, du_Pod i)) (dw_world W) of
        (Inl err, w1) \<Rightarrow> Returns (i, W\<lparr>dw_world := w1\<rparr>, Some (ErrV ''pod not found: '' err))
      | (Inr pod, w1) \<Rightarrow>
          (let W1 = W\<lparr>dw_world := w1\<rparr>; sa = ps_serviceAccountName (dump_podspec pod) in
           obind (GrpcOptions (ag_Auth (de_args E)) sa (o_namespace pod)) (\<lambda>opts.
           obind (dump_fetch E (dump_config E pod)) (\<lambda>fetched.
             case fetched of
               Inl err \<Rightarrow> Returns (i, W1, Some err)
             | Inr resp \<Rightarrow>
                 (case Certificate (de_ca E) (de_fetchRoot E) (ag_PilotAddress (de_args E)) sa (o_namespace pod) (dw_tokens W1) of
                    (Inl err, tk) \<Rightarrow> Returns (i, W1\<lparr>dw_tokens := tk\<rparr>, Some (ErrV ''failed to create cert: '' err))
                  | (Inr cert, tk) \<Rightarrow>
                      obind (write_dump E (du_OutputDir i) resp cert (dw_fs W1)) (\<lambda>fs.
                        Returns (i, W1\<lparr>dw_tokens := tk, dw_fs := fs\<rparr>, None)))))))"

definition Dump_Cleanup :: "(DumpSpec, ('s, 't) dump_world) action" where
  "Dump_Cleanup i W = Returns (i, W, None)"

text \<open>The dump command of simulations.go.\<close>

definition Dump :: "('s, 't) dump_env \<Rightarrow> DumpSpec \<Rightarrow> ('s, 't) dump_world \<Rightarrow> (('s, 't) dump_world \<times> gerror option) outcome" where
  "Dump E spec W =
     obind (ExecuteOneshot (Dump_Run E) Dump_Cleanup spec W) (\<lambda>(i, W1, e).
       Returns (W1, map_option (ErrV ''error executing: '') e))"

section \<open>The dump is complete\<close>

text \<open>Files are only added.\<close>

lemma writeBytes_files:
  "writeBytes E b dir file fs = Returns fs' \<Longrightarrow> dir \<noteq> [] \<Longrightarrow> df_files fs' = df_files fs @ [(path_Join [dir, file], b)]"
  by (auto simp: writeBytes_def split: if_splits)

lemma writeResponse_files:
  assumes "writeResponse E r dir file fs = Returns fs'" and "dir \<noteq> []"
  shows "\<exists>b. to_yaml (de_dcodec E) r = Some b \<and> df_files fs' = df_files fs @ [(path_Join [dir, file], b)]"
proof -
  obtain b where "to_yaml (de_dcodec E) r = Some b" "writeBytes E b dir file fs = Returns fs'"
    using assms(1) by (auto simp: writeResponse_def MarshallYaml_def obind_Returns_iff split: option.splits)
  then show ?thesis using writeBytes_files [OF _ assms(2)] by blast
qed

lemma write_each_files:
  assumes "dir \<noteq> []" and "sub \<noteq> []"
  shows "write_each E dir sub as response resp names fs = Returns fs' \<Longrightarrow>
    set (df_files fs) \<subseteq> set (df_files fs') \<and> (\<forall>n \<in> set names. resource_path dir sub n \<in> fst ` set (df_files fs'))"
proof (induction names arbitrary: fs)
  case (Cons n names)
  obtain m fs1 where w: "writeResponse E (response [m]) dir (sub @ ''/'' @ SanitizeName n @ ''.yaml'') fs = Returns fs1"
    and rest: "write_each E dir sub as response resp names fs1 = Returns fs'"
    using Cons.prems by (auto simp: obind_Returns_iff)
  obtain b where "df_files fs1 = df_files fs @ [(resource_path dir sub n, b)]"
    using writeResponse_files [OF w assms(1)] Join_file [OF assms] by (auto simp: resource_path_def)
  then show ?case using Cons.IH [OF rest] by (auto simp: image_iff) (metis fst_conv)
qed simp

text \<open>
  The keys are listed completely; and every resource that a fetched listener or cluster refers to was
  fetched, or is one of the two secrets the dump makes.
\<close>

definition keys_documented :: "('s, 't) dump_env \<Rightarrow> bool" where
  "keys_documented E \<longleftrightarrow> (\<forall>m. finite (dom m) \<longrightarrow> set (de_keys E m) = dom m)"

definition responses_finite :: "Responses \<Rightarrow> bool" where
  "responses_finite r \<longleftrightarrow> finite (dom (r_clusters r)) \<and> finite (dom (r_listeners r)) \<and> finite (dom (r_routes r)) \<and>
     finite (dom (r_endpoints r)) \<and> finite (dom (r_extensions r)) \<and> finite (dom (r_secrets r))"

definition available :: "Responses \<Rightarrow> (string \<times> string) set" where
  "available r = Pair ''rds'' ` dom (r_routes r) \<union> Pair ''eds'' ` dom (r_endpoints r) \<union> Pair ''ecds'' ` dom (r_extensions r) \<union>
     Pair ''sds'' ` (dom (r_secrets r) \<union> {''default'', ''ROOTCA''})"

definition responses_closed :: "dcodec \<Rightarrow> Responses \<Rightarrow> bool" where
  "responses_closed D r \<longleftrightarrow>
     (\<forall>l \<in> {l. MListener l \<in> ran (r_listeners r)}. wants (listener_links D l) \<subseteq> available r) \<and>
     (\<forall>c \<in> {c. MCluster c \<in> ran (r_clusters r)}. wants (cluster_links D c) \<subseteq> available r)"

lemma sanitized_names [simp]: "SanitizeName ''default'' = ''default''" "SanitizeName ''ROOTCA'' = ''ROOTCA''"
  by (simp_all add: SanitizeName_chars sanitize_char_def)

lemma write_dump_files:
  assumes doc: "keys_documented E" "responses_finite resp" and dir: "dir \<noteq> []"
    and run: "write_dump E dir resp cert fs = Returns fs'"
  shows "\<exists>f1. write_listeners_clusters E dir resp (make_dirs dir fs) = Returns f1 \<and> set (df_files f1) \<subseteq> set (df_files fs') \<and>
    (\<forall>(sub, n) \<in> available resp. resource_path dir sub n \<in> fst ` set (df_files fs'))"
proof -
  obtain f1 f2 f3 f4 f5 f6 f7 where
    f1: "write_listeners_clusters E dir resp (make_dirs dir fs) = Returns f1"
    and f2: "write_each E dir ''rds'' as_route routesResponse (r_routes resp) (de_keys E (r_routes resp)) f1 = Returns f2"
    and f3: "write_each E dir ''eds'' as_endpoint endpointsResponse (r_endpoints resp) (de_keys E (r_endpoints resp)) f2 = Returns f3"
    and f4: "write_each E dir ''ecds'' as_extension extensionsResponse (r_extensions resp) (de_keys E (r_extensions resp)) f3 = Returns f4"
    and f5: "write_each E dir ''sds'' as_secret (secretXdsResponse dir) (r_secrets resp) (de_keys E (r_secrets resp)) f4 = Returns f5"
    and f6: "writeBytes E (bootstrap dir) dir ''config.yaml'' f5 = Returns f6"
    and f7: "writeResponse E (secretResponse cert) dir ''sds/default.yaml'' f6 = Returns f7"
    and f8: "writeResponse E (secretRootResponse cert) dir ''sds/ROOTCA.yaml'' f7 = Returns fs'"
    using run unfolding write_dump_def obind_Returns_iff by blast
  obtain b7 b8 where b: "df_files f7 = df_files f6 @ [(path_Join [dir, ''sds/default.yaml''], b7)]"
    "df_files fs' = df_files f7 @ [(path_Join [dir, ''sds/ROOTCA.yaml''], b8)]"
    using writeResponse_files [OF f7 dir] writeResponse_files [OF f8 dir] by blast
  have secrets: "resource_path dir ''sds'' ''default'' = path_Join [dir, ''sds/default.yaml'']"
    "resource_path dir ''sds'' ''ROOTCA'' = path_Join [dir, ''sds/ROOTCA.yaml'']"
    using Join_file [OF dir, of "''sds''"] by (simp_all add: resource_path_def)
  have "set (df_files f1) \<subseteq> set (df_files f2)" by (rule conjunct1 [OF write_each_files [OF dir _ f2]]) simp
  moreover have "set (df_files f2) \<subseteq> set (df_files f3)" by (rule conjunct1 [OF write_each_files [OF dir _ f3]]) simp
  moreover have "set (df_files f3) \<subseteq> set (df_files f4)" by (rule conjunct1 [OF write_each_files [OF dir _ f4]]) simp
  moreover have "set (df_files f4) \<subseteq> set (df_files f5)" by (rule conjunct1 [OF write_each_files [OF dir _ f5]]) simp
  moreover have "set (df_files f5) \<subseteq> set (df_files fs')" using writeBytes_files [OF f6 dir] b by auto
  ultimately have sub: "set (df_files f1) \<subseteq> set (df_files fs')" "set (df_files f2) \<subseteq> set (df_files fs')"
    "set (df_files f3) \<subseteq> set (df_files fs')" "set (df_files f4) \<subseteq> set (df_files fs')" "set (df_files f5) \<subseteq> set (df_files fs')"
    by blast+
  have each: "resource_path dir sub n \<in> fst ` set (df_files fs')"
    if "\<forall>n \<in> set (de_keys E m). resource_path dir sub n \<in> fst ` set (df_files f)" "finite (dom m)" "n \<in> dom m"
      "set (df_files f) \<subseteq> set (df_files fs')" for sub n m f
  proof -
    have "set (de_keys E m) = dom m" using doc(1) that(2) by (simp add: keys_documented_def)
    then have "resource_path dir sub n \<in> fst ` set (df_files f)" using that(1,3) by blast
    then show ?thesis using image_mono [OF that(4), of fst] by blast
  qed
  note fin = doc(2) [unfolded responses_finite_def]
  have "resource_path dir sub n \<in> fst ` set (df_files fs')" if "(sub, n) \<in> available resp" for sub n
    using that [unfolded available_def]
  proof (elim UnE imageE, goal_cases)
    case (1 x)
    then show ?case using each [OF conjunct2 [OF write_each_files [OF dir _ f2]] _ _ sub(2), of x] fin by simp
  next
    case (2 x)
    then show ?case using each [OF conjunct2 [OF write_each_files [OF dir _ f3]] _ _ sub(3), of x] fin by simp
  next
    case (3 x)
    then show ?case using each [OF conjunct2 [OF write_each_files [OF dir _ f4]] _ _ sub(4), of x] fin by simp
  next
    case (4 x)
    then show ?case using each [OF conjunct2 [OF write_each_files [OF dir _ f5]] _ _ sub(5), of n] fin by simp
  next
    case (5 x)
    then show ?case by (auto simp: secrets b)
  qed
  then show ?thesis using f1 sub by blast
qed

lemma transmute_member:
  assumes "transmute E as m = Returns xs" and "x \<in> set xs"
  shows "\<exists>y \<in> ran m. as y = Some x"
proof -
  obtain k where "assert_type as (m k) = Returns x" using omap_member assms unfolding transmute_def by metis
  then show ?thesis by (auto simp: assert_type_def ran_def split: option.splits)
qed

lemma as_message: "as_listener y = Some l \<Longrightarrow> y = MListener l" "as_cluster y = Some c \<Longrightarrow> y = MCluster c"
  by (cases y; simp)+


section \<open>A small dump\<close>

text \<open>
  A codec for connection managers with a path and a route name, which it writes as the length of the
  name, the name and the path; and the dump of one listener with one route.
\<close>

definition hcm_value :: "string \<Rightarrow> string \<Rightarrow> string" where
  "hcm_value n p = itoa (length n) @ CHR ''.'' # n @ p"

definition small_dcodec :: dcodec where
  "small_dcodec =
     \<lparr>dd_tls = (\<lambda>t x. None), en_tls = (\<lambda>t m. \<lparr>any_url = t, any_value = []\<rparr>),
      dd_hcm = (\<lambda>x. case x of None \<Rightarrow> None | Some a \<Rightarrow>
        (let k = atoi (takeWhile (\<lambda>c. c \<noteq> CHR ''.'') (any_value a)); v = drop 1 (dropWhile (\<lambda>c. c \<noteq> CHR ''.'') (any_value a))
         in Some (\<lparr>h_routeSpecifier = RdsSpec (Some (PathSource (drop k v))) (take k v), h_httpFilters = []\<rparr>, []))),
      en_hcm = (\<lambda>(h, rest). \<lparr>any_url = HttpConnectionManagerType,
        any_value = (case h_routeSpecifier h of RdsSpec (Some (PathSource p)) n \<Rightarrow> hcm_value n p | _ \<Rightarrow> [])\<rparr>),
      to_yaml = (\<lambda>r. Some ''yaml''), hcm_filter = ''hcm''\<rparr>"

lemma hcm_value_split:
  "takeWhile (\<lambda>c. c \<noteq> CHR ''.'') (hcm_value n p) = itoa (length n)"
  "drop 1 (dropWhile (\<lambda>c. c \<noteq> CHR ''.'') (hcm_value n p)) = n @ p"
  using itoa_no_dot [of "length n"] by (auto simp: hcm_value_def takeWhile_append dropWhile_append)

lemma small_dd_hcm:
  "dd_hcm small_dcodec (Some \<lparr>any_url = t, any_value = hcm_value n p\<rparr>) =
     Some (\<lparr>h_routeSpecifier = RdsSpec (Some (PathSource p)) n, h_httpFilters = []\<rparr>, [])"
  by (simp add: small_dcodec_def hcm_value_split del: One_nat_def)

lemma small_dcodec_documented: "dcodec_documented small_dcodec"
proof -
  have "dd_hcm small_dcodec (Some (en_hcm small_dcodec (h\<lparr>h_routeSpecifier := RdsSpec (Some (PathSource p)) n\<rparr>, rest))) =
      Some (h\<lparr>h_routeSpecifier := RdsSpec (Some (PathSource p)) n\<rparr>, rest)"
    if "dd_hcm small_dcodec x = Some (h, rest)" for x h rest p n
  proof -
    have "h_httpFilters h = [] \<and> rest = []" using that by (auto simp: small_dcodec_def Let_def split: option.splits)
    moreover have "en_hcm small_dcodec (h\<lparr>h_routeSpecifier := RdsSpec (Some (PathSource p)) n\<rparr>, rest) =
        \<lparr>any_url = HttpConnectionManagerType, any_value = hcm_value n p\<rparr>" by (simp add: small_dcodec_def)
    ultimately show ?thesis by (simp add: small_dd_hcm)
  qed
  then show ?thesis by (simp add: dcodec_documented_def) (simp add: small_dcodec_def)
qed

definition small_listener :: listener where
  "small_listener = \<lparr>l_name = ''l'', l_filterChains = [\<lparr>fc_filters = [\<lparr>f_name = ''hcm'',
     f_config = TypedConfig \<lparr>any_url = HttpConnectionManagerType, any_value = hcm_value ''r'' ''ads''\<rparr>\<rparr>],
     fc_transportSocket = None\<rparr>], l_defaultFilterChain = None, l_listenerFilters = []\<rparr>"

definition small_responses :: Responses where
  "small_responses = no_responses\<lparr>r_listeners := [''l'' \<mapsto> MListener small_listener],
     r_routes := [''r'' \<mapsto> MRoute \<lparr>n_name = ''r'', n_body = []\<rparr>]\<rparr>"

definition small_ca :: "unit ca" where
  "small_ca = \<lparr>ca_GenCSR = (\<lambda>host size. Inr (host, ''key'')), ca_pem_ok = (\<lambda>p. True), ca_dial = (\<lambda>addr root. None),
     ca_sign = (\<lambda>md csr validity. Inr [csr]), ca_issue = (\<lambda>aud ns sa s. (Inr \<lparr>tk_token = ''t'', tk_expiration = 3600\<rparr>, s))\<rparr>"

definition small_dump_env :: "(store, unit) dump_env" where
  "small_dump_env =
     \<lparr>de_args = small_args, de_kube = memory_env, de_codec = small_codec, de_dcodec = small_dcodec,
      de_keys = (\<lambda>m. sorted_list_of_set (dom m)), de_dial = (True, True), de_events = [], de_privateIP = [],
      de_ca = small_ca, de_fetchRoot = Inr [], de_can_write = (\<lambda>p. True)\<rparr>"

definition no_files :: dumpfs where
  "no_files = \<lparr>df_dirs = [], df_stdout = [], df_files = []\<rparr>"

lemma small_dump_written:
  "\<exists>fs'. write_dump small_dump_env ''out'' small_responses \<lparr>ClientCert = [], Key = [], RootCert = []\<rparr> no_files = Returns fs'"
proof -
  let ?D = small_dcodec
  have name: "hcm_filter ?D = ''hcm''" by (simp add: small_dcodec_def)
  have f: "\<exists>f'. sanitizeFilter ?D ''out'' (hd (fc_filters (hd (l_filterChains small_listener)))) = Returns f'"
    using name by (simp add: sanitizeFilter_def small_listener_def rewrite_discovery_def small_dd_hcm Let_def)
  then have "\<exists>l'. sanitizeListener ?D ''out'' small_listener = Returns l'"
    by (auto simp: sanitizeListener_def sanitizeChain_def rewriteTransportSocket_def small_listener_def)
  then obtain l' where l': "sanitizeListener ?D ''out'' small_listener = Returns l'" by blast
  have yaml: "to_yaml ?D r = Some ''yaml''" for r by (simp add: small_dcodec_def)
  show ?thesis
    by (simp add: write_dump_def write_listeners_clusters_def transmute_def assert_type_def clusterResponse_def listenerResponse_def
        writeResponse_def MarshallYaml_def writeBytes_def small_dump_env_def small_responses_def no_responses_def yaml l')
qed


end
