(* ===== verification/Impersonate.thy ===== *)
theory Impersonate
  imports Execution
begin

text \<open>
  Impersonating the pods of a cluster (sims/adscimpersonate/sim.go; pkg/simulation/impersonate has the same
  code): one group of XDS clients for every selected pod, kept in step with the informer by a queue with
  one worker. Clients are objects: they live in a list and are referred to by index, because the
  goroutine that runs a client and the map of known pods share it.
\<close>

section \<open>State\<close>

record ImpersonateSpec =
  im_Selector :: string
  im_Delay :: int
  im_Replicas :: int

type_synonym podname = "string \<times> string"

record Impersonate =
  im_Spec :: ImpersonateSpec
  im_known :: "podname \<rightharpoonup> nat list"
  im_sims :: "xds_sim list"

definition NewImpersonate :: "ImpersonateSpec \<Rightarrow> Impersonate" where
  "NewImpersonate spec = \<lparr>im_Spec = spec, im_known = Map.empty, im_sims = []\<rparr>"

text \<open>\<open>parse\<close> is the parser of label selectors.\<close>

definition getLabelSelector :: "(string \<Rightarrow> smap \<Rightarrow> bool) \<Rightarrow> string \<Rightarrow> (smap \<Rightarrow> bool) outcome" where
  "getLabelSelector parse selector =
     (if selector = ''sidecar'' then Returns (parse ''security.istio.io/tlsMode'')
      else if selector = ''external'' then Returns (parse ''!security.istio.io/tlsMode'')
      else if selector = ''both'' then Returns (\<lambda>labels. True)
      else Panics (''invalid selector '' @ selector))"

definition im_pod_ip :: "kobj \<Rightarrow> string" where
  "im_pod_ip pod = (case o_status pod of Status (PodStatus s) \<Rightarrow> st_podIP s | _ \<Rightarrow> [])"

definition im_pod_sa :: "kobj \<Rightarrow> string" where
  "im_pod_sa pod = (case o_spec pod of PodSpec s \<Rightarrow> ps_serviceAccountName s | _ \<Rightarrow> [])"

definition newSimulation :: "args \<Rightarrow> kobj \<Rightarrow> xds_sim outcome" where
  "newSimulation ag pod =
     obind (GrpcOptions (ag_Auth ag) (im_pod_sa pod) (o_namespace pod)) (\<lambda>opts.
       Returns \<lparr>x_Labels = o_labels pod, x_Metadata = Map.empty, x_Namespace = o_namespace pod, x_ServiceAccount = [],
                x_Name = o_name pod, x_IP = im_pod_ip pod, x_Cluster = [], x_AppType = [], x_Delta = ag_DeltaXDS ag,
                x_cancel = None, x_done = None\<rparr>)"

section \<open>Operations\<close>

text \<open>
  The loop over the replicas. The goroutine of each client is started here and runs at some later time
  (\<open>start\<close> below).
\<close>

fun add_replicas :: "args \<Rightarrow> kobj \<Rightarrow> int \<Rightarrow> nat \<Rightarrow> xds_sim list \<Rightarrow> 's world \<Rightarrow> (xds_sim list \<times> nat list \<times> 's world) outcome" where
  "add_replicas ag pod delay 0 sims w = Returns (sims, [], w)"
| "add_replicas ag pod delay (Suc n) sims w =
     obind (newSimulation ag pod) (\<lambda>xsim.
     obind (add_replicas ag pod delay n (sims @ [xsim]) (w\<lparr>now := now w + delay\<rparr>)) (\<lambda>(sims1, xsims, w1).
       Returns (sims1, length sims # xsims, w1)))"

definition add :: "args \<Rightarrow> podname \<Rightarrow> kobj \<Rightarrow> Impersonate \<Rightarrow> 's world \<Rightarrow> (Impersonate \<times> 's world) outcome" where
  "add ag key pod i w =
     (if im_known i key \<noteq> None then Returns (i, w)
      else obind (add_replicas ag pod (im_Delay (im_Spec i)) (nat (im_Replicas (im_Spec i))) (im_sims i) w) (\<lambda>(sims, xsims, w1).
        Returns (i\<lparr>im_sims := sims, im_known := (im_known i)(key \<mapsto> xsims)\<rparr>, w1)))"

text \<open>Cleaning up a group of clients; errors are logged.\<close>

fun cleanup_clients :: "nat list \<Rightarrow> xds_sim list \<Rightarrow> 's world \<Rightarrow> (xds_sim list \<times> 's world) outcome" where
  "cleanup_clients [] sims w = Returns (sims, w)"
| "cleanup_clients (d # ds) sims w =
     obind (xds_Cleanup (sims ! d) w) (\<lambda>(x, w1, err). cleanup_clients ds (sims[d := x]) w1)"

definition del :: "podname \<Rightarrow> Impersonate \<Rightarrow> 's world \<Rightarrow> (Impersonate \<times> 's world) outcome" where
  "del key i w =
     (case im_known i key of
        None \<Rightarrow> Returns (i, w)
      | Some p \<Rightarrow> obind (cleanup_clients p (im_sims i) w) (\<lambda>(sims, w1).
          Returns (i\<lparr>im_sims := sims, im_known := (im_known i)(key := None)\<rparr>, w1)))"

text \<open>The reconciler of the queue: \<open>pod\<close> is what the informer has for the key.\<close>

definition impersonate_reconcile :: "args \<Rightarrow> (smap \<Rightarrow> bool) \<Rightarrow> podname \<Rightarrow> kobj option \<Rightarrow> Impersonate \<Rightarrow> 's world \<Rightarrow>
    (Impersonate \<times> 's world) outcome" where
  "impersonate_reconcile ag sel key pod i w =
     (case pod of
        None \<Rightarrow> del key i w
      | Some p \<Rightarrow>
          if im_pod_ip p = [] then del key i w
          else if sel (o_labels p) then add ag key p i w
          else del key i w)"

text \<open>Cleanup waits for the queue to end and goes through the known pods, in some order of the map.\<close>

definition Impersonate_Cleanup :: "((podname \<rightharpoonup> nat list) \<Rightarrow> podname list) \<Rightarrow> (Impersonate, 's world) action" where
  "Impersonate_Cleanup keys i w =
     obind (cleanup_clients (concat (map (\<lambda>k. the (im_known i k)) (keys (im_known i)))) (im_sims i) w) (\<lambda>(sims, w1).
       Returns (i\<lparr>im_sims := sims\<rparr>, w1, None))"

section \<open>Runs\<close>

text \<open>A run: the queue handles keys, and goroutines of clients start, each once.\<close>

record 's im_run =
  ir_sim :: Impersonate
  ir_world :: "'s world"
  ir_seen :: "podname \<rightharpoonup> kobj option"

inductive impersonate_step :: "args \<Rightarrow> (smap \<Rightarrow> bool) \<Rightarrow> 's im_run \<Rightarrow> 's im_run \<Rightarrow> bool" for ag sel where
  reconcile: "impersonate_reconcile ag sel key pod (ir_sim r) (ir_world r) = Returns (i', w') \<Longrightarrow>
    impersonate_step ag sel r \<lparr>ir_sim = i', ir_world = w', ir_seen = (ir_seen r)(key \<mapsto> pod)\<rparr>"
| start: "d < length (im_sims (ir_sim r)) \<Longrightarrow> x_done (im_sims (ir_sim r) ! d) = None \<Longrightarrow>
    xds_Run ag (im_sims (ir_sim r) ! d) (ir_world r) = Returns (x, w', e) \<Longrightarrow>
    impersonate_step ag sel r
      (r\<lparr>ir_sim := (ir_sim r)\<lparr>im_sims := (im_sims (ir_sim r))[d := x]\<rparr>, ir_world := w'\<rparr>)"

definition im_start :: "ImpersonateSpec \<Rightarrow> 's world \<Rightarrow> 's im_run" where
  "im_start spec w = \<lparr>ir_sim = NewImpersonate spec, ir_world = w, ir_seen = Map.empty\<rparr>"

section \<open>The invariant\<close>

text \<open>A pod is wanted when it is selected and has an address.\<close>

definition wanted :: "(smap \<Rightarrow> bool) \<Rightarrow> kobj option \<Rightarrow> bool" where
  "wanted sel pod \<longleftrightarrow> (\<exists>p. pod = Some p \<and> im_pod_ip p \<noteq> [] \<and> sel (o_labels p))"

definition known_clients :: "Impersonate \<Rightarrow> nat set" where
  "known_clients i = {d. \<exists>key ds. im_known i key = Some ds \<and> d \<in> set ds}"

definition im_inv :: "(smap \<Rightarrow> bool) \<Rightarrow> 's im_run \<Rightarrow> bool" where
  "im_inv sel r \<longleftrightarrow>
     (let i = ir_sim r; sims = im_sims i in
      (\<forall>key ds. im_known i key = Some ds \<longrightarrow> length ds = nat (im_Replicas (im_Spec i)) \<and> (\<forall>d \<in> set ds. d < length sims)) \<and>
      (\<forall>d < length sims. d \<notin> known_clients i \<longrightarrow> cancelled (ir_world r) (sims ! d)) \<and>
      (\<forall>d < length sims. x_done (sims ! d) = None \<or> started (length (streams (ir_world r))) (sims ! d)) \<and>
      dom (im_known i) = {key. \<exists>pod. ir_seen r key = Some pod \<and> wanted sel pod})"

lemma cancelled_started: "cancelled w x \<Longrightarrow> x_done x \<noteq> None"
  by (auto simp: cancelled_def)

lemma add_replicas_spec:
  "add_replicas ag pod delay n sims w = Returns (sims', ds, w') \<Longrightarrow>
   \<exists>new. sims' = sims @ new \<and> length new = n \<and> ds = [length sims..<length sims + n] \<and> (\<forall>x \<in> set new. x_done x = None) \<and>
     streams w' = streams w"
proof (induction n arbitrary: sims w sims' ds w')
  case (Suc n)
  obtain x sims1 ds1 where x: "newSimulation ag pod = Returns x"
    and rest: "add_replicas ag pod delay n (sims @ [x]) (w\<lparr>now := now w + delay\<rparr>) = Returns (sims1, ds1, w')"
    and r: "sims' = sims1" "ds = length sims # ds1"
    using Suc.prems by (auto simp: obind_Returns_iff)
  have "x_done x = None" using x by (auto simp: newSimulation_def obind_Returns_iff)
  moreover have "[length sims..<length sims + Suc n] = length sims # [length (sims @ [x])..<length (sims @ [x]) + n]"
    by (simp add: upt_rec)
  ultimately show ?case using Suc.IH [OF rest] r by auto
qed simp

text \<open>Cleaning up cancels the clients it goes through, and leaves the clients as they are.\<close>

lemma cleanup_clients_spec:
  "cleanup_clients ds sims w = Returns (sims', w') \<Longrightarrow> \<forall>d \<in> set ds. d < length sims \<Longrightarrow>
   (\<forall>d < length sims. x_done (sims ! d) = None \<or> started (length (streams w)) (sims ! d)) \<Longrightarrow>
   sims' = sims \<and> length (streams w') = length (streams w) \<and> (\<forall>d \<in> set ds. cancelled w' (sims ! d)) \<and>
   (\<forall>x. cancelled w x \<longrightarrow> cancelled w' x)"
proof (induction ds arbitrary: sims w)
  case (Cons d ds)
  obtain x w1 e where c: "xds_Cleanup (sims ! d) w = Returns (x, w1, e)"
    and rest: "cleanup_clients ds (sims[d := x]) w1 = Returns (sims', w')"
    using Cons.prems(1) by (auto simp: obind_Returns_iff)
  have x: "x = sims ! d" using xds_Cleanup_live [OF c] by blast
  have "x_done (sims ! d) \<noteq> None" using c by (auto simp: xds_Cleanup_def Let_def split: option.splits)
  then have st: "started (length (streams w)) (sims ! d)" using Cons.prems(2,3) by auto
  from xds_Cleanup_returns [OF this] c have w1: "length (streams w1) = length (streams w)"
    "\<forall>i. x_done (sims ! d) = Some i \<longrightarrow> sm_cancelled (streams w1 ! i)"
    "\<forall>j < length (streams w). sm_cancelled (streams w ! j) \<longrightarrow> sm_cancelled (streams w1 ! j)" by auto
  have here: "cancelled w1 (sims ! d)" using st w1(1,2) by (auto simp: cancelled_def started_def)
  have mono: "cancelled w y \<longrightarrow> cancelled w1 y" for y using w1(1,3) by (auto simp: cancelled_def)
  show ?case using Cons.IH [OF rest] Cons.prems(2,3) here mono w1(1) by (simp add: x)
qed simp

lemma xds_Run_streams:
  assumes "xds_Run ag x w = Returns (x', w', e)"
  shows "cancelled w y \<Longrightarrow> cancelled w' y" and "started (length (streams w)) y \<Longrightarrow> started (length (streams w')) y"
    and "started (length (streams w')) x'"
  using assms by (auto simp: xds_Run_def cancelled_def started_def Let_def nth_append)

lemma known_clients_upd:
  assumes "d \<in> known_clients i" and "d \<notin> known_clients (i\<lparr>im_sims := s, im_known := (im_known i)(key := None)\<rparr>)"
    and "im_known i key = Some ds"
  shows "d \<in> set ds"
proof -
  obtain k es where k: "im_known i k = Some es" "d \<in> set es" using assms(1) by (auto simp: known_clients_def)
  have "k = key"
  proof (rule ccontr)
    assume "k \<noteq> key"
    then have "im_known (i\<lparr>im_sims := s, im_known := (im_known i)(key := None)\<rparr>) k = Some es" using k(1) by simp
    then show False using assms(2) k(2) unfolding known_clients_def by blast
  qed
  then show ?thesis using k assms(3) by simp
qed

lemma known_clients_add:
  assumes "im_known i key = None"
  shows "known_clients (i\<lparr>im_sims := s, im_known := (im_known i)(key \<mapsto> ds)\<rparr>) = known_clients i \<union> set ds"
proof -
  have "(\<exists>k es. ((im_known i)(key \<mapsto> ds)) k = Some es \<and> d \<in> set es) \<longleftrightarrow> (\<exists>k es. im_known i k = Some es \<and> d \<in> set es) \<or> d \<in> set ds" for d
    using assms by (metis fun_upd_apply option.inject option.distinct(1))
  then show ?thesis by (auto simp: known_clients_def)
qed

lemma del_inv:
  assumes inv: "im_inv sel r" and run: "del key (ir_sim r) (ir_world r) = Returns (i', w')" and "\<not> wanted sel pod"
  shows "im_inv sel \<lparr>ir_sim = i', ir_world = w', ir_seen = (ir_seen r)(key \<mapsto> pod)\<rparr>"
proof (cases "im_known (ir_sim r) key")
  case None
  then have "i' = ir_sim r" "w' = ir_world r" using run by (auto simp: del_def)
  moreover have "key \<notin> dom (im_known (ir_sim r))" using None by auto
  ultimately show ?thesis using inv assms(3) unfolding im_inv_def Let_def by auto
next
  case (Some ds)
  let ?i = "ir_sim r" and ?w = "ir_world r"
  have ds: "\<forall>d \<in> set ds. d < length (im_sims ?i)"
    and st: "\<forall>d < length (im_sims ?i). x_done (im_sims ?i ! d) = None \<or> started (length (streams ?w)) (im_sims ?i ! d)"
    and free: "\<forall>d < length (im_sims ?i). d \<notin> known_clients ?i \<longrightarrow> cancelled ?w (im_sims ?i ! d)"
    and len: "\<forall>key ds. im_known ?i key = Some ds \<longrightarrow> length ds = nat (im_Replicas (im_Spec ?i)) \<and> (\<forall>d \<in> set ds. d < length (im_sims ?i))"
    and dom: "dom (im_known ?i) = {key. \<exists>pod. ir_seen r key = Some pod \<and> wanted sel pod}"
    using inv Some unfolding im_inv_def Let_def by blast+
  obtain sims where c: "cleanup_clients ds (im_sims ?i) ?w = Returns (sims, w')"
    and i': "i' = ?i\<lparr>im_sims := sims, im_known := (im_known ?i)(key := None)\<rparr>"
    using run Some by (auto simp: del_def obind_Returns_iff)
  note spec = cleanup_clients_spec [OF c ds st]
  have "cancelled w' (im_sims i' ! d)" if "d < length (im_sims i')" "d \<notin> known_clients i'" for d
  proof (cases "d \<in> known_clients ?i")
    case True
    then have "d \<in> set ds" using known_clients_upd [OF True _ Some] that(2) by (simp add: i')
    then show ?thesis using spec by (simp add: i')
  next
    case False
    then show ?thesis using free that(1) spec by (simp add: i')
  qed
  moreover have "dom (im_known i') = {k. \<exists>p. ((ir_seen r)(key \<mapsto> pod)) k = Some p \<and> wanted sel p}"
    using dom assms(3) by (auto simp: i' split: if_splits)
  ultimately show ?thesis using len st spec by (auto simp: im_inv_def Let_def i' split: if_splits)
qed

lemma add_inv:
  assumes inv: "im_inv sel r" and run: "add ag key p (ir_sim r) (ir_world r) = Returns (i', w')" and "wanted sel (Some p)"
  shows "im_inv sel \<lparr>ir_sim = i', ir_world = w', ir_seen = (ir_seen r)(key \<mapsto> Some p)\<rparr>"
proof (cases "im_known (ir_sim r) key")
  case (Some ds)
  then have "i' = ir_sim r" "w' = ir_world r" using run by (auto simp: add_def)
  moreover have "key \<in> dom (im_known (ir_sim r))" using Some by auto
  ultimately show ?thesis using inv assms(3) unfolding im_inv_def Let_def by auto
next
  case None
  let ?i = "ir_sim r" and ?w = "ir_world r"
  have st: "\<forall>d < length (im_sims ?i). x_done (im_sims ?i ! d) = None \<or> started (length (streams ?w)) (im_sims ?i ! d)"
    and free: "\<forall>d < length (im_sims ?i). d \<notin> known_clients ?i \<longrightarrow> cancelled ?w (im_sims ?i ! d)"
    and len: "\<forall>key ds. im_known ?i key = Some ds \<longrightarrow> length ds = nat (im_Replicas (im_Spec ?i)) \<and> (\<forall>d \<in> set ds. d < length (im_sims ?i))"
    and dom: "dom (im_known ?i) = {key. \<exists>pod. ir_seen r key = Some pod \<and> wanted sel pod}"
    using inv unfolding im_inv_def Let_def by blast+
  let ?n = "nat (im_Replicas (im_Spec ?i))"
  obtain sims ds where a: "add_replicas ag p (im_Delay (im_Spec ?i)) ?n (im_sims ?i) ?w = Returns (sims, ds, w')"
    and i': "i' = ?i\<lparr>im_sims := sims, im_known := (im_known ?i)(key \<mapsto> ds)\<rparr>"
    using run None by (auto simp: add_def obind_Returns_iff)
  obtain new where new: "sims = im_sims ?i @ new" "length new = ?n" "ds = [length (im_sims ?i)..<length (im_sims ?i) + ?n]"
    "\<forall>x \<in> set new. x_done x = None" "streams w' = streams ?w" using add_replicas_spec [OF a] by blast
  have known: "known_clients i' = known_clients ?i \<union> set ds"
    by (simp add: i' known_clients_add [OF None])
  have "cancelled w' (im_sims i' ! d)" if "d < length (im_sims i')" "d \<notin> known_clients i'" for d
  proof -
    have "d \<notin> known_clients ?i" "d \<notin> set ds" using that(2) unfolding known by blast+
    moreover have "d < length (im_sims ?i) + ?n" using that(1) new(1,2) by (simp add: i')
    ultimately have d: "d < length (im_sims ?i)" "d \<notin> known_clients ?i" using new(3) by auto
    then have "cancelled ?w (im_sims ?i ! d)" using free by blast
    then show ?thesis using d(1) new(1,5) by (simp add: i' nth_append cancelled_def)
  qed
  moreover have "x_done (im_sims i' ! d) = None \<or> started (length (streams w')) (im_sims i' ! d)" if "d < length (im_sims i')" for d
    using st that new by (cases "d < length (im_sims ?i)") (auto simp: i' nth_append)
  moreover have "dom (im_known i') = {k. \<exists>q. ((ir_seen r)(key \<mapsto> Some p)) k = Some q \<and> wanted sel q}"
    using dom assms(3) by (auto simp: i' split: if_splits)
  moreover have "length es = ?n \<and> (\<forall>d \<in> set es. d < length (im_sims i'))" if "im_known i' k = Some es" for k es
  proof (cases "k = key")
    case True
    then show ?thesis using that new(1-3) by (auto simp: i')
  next
    case False
    then have "im_known ?i k = Some es" using that by (simp add: i')
    then show ?thesis using len new(1) by (fastforce simp: i')
  qed
  moreover have "im_Spec i' = im_Spec ?i" by (simp add: i')
  ultimately show ?thesis unfolding im_inv_def Let_def by simp
qed

lemma impersonate_step_inv:
  assumes inv: "im_inv sel r" and step: "impersonate_step ag sel r r'"
  shows "im_inv sel r'"
  using step
proof (cases rule: impersonate_step.cases)
  case (reconcile key pod i' w')
  show ?thesis
  proof (cases "wanted sel pod")
    case True
    then obtain p where "pod = Some p" "add ag key p (ir_sim r) (ir_world r) = Returns (i', w')"
      using reconcile(2) by (auto simp: wanted_def impersonate_reconcile_def)
    then show ?thesis using add_inv [OF inv] True reconcile(1) by simp
  next
    case False
    then have "del key (ir_sim r) (ir_world r) = Returns (i', w')"
      using reconcile(2) by (auto simp: wanted_def impersonate_reconcile_def split: option.splits if_splits)
    then show ?thesis using del_inv [OF inv _ False] reconcile(1) by simp
  qed
next
  case (start d x w' e)
  let ?i = "ir_sim r"
  note run = xds_Run_streams [OF start(4)]
  have known: "known_clients (?i\<lparr>im_sims := s\<rparr>) = known_clients ?i" for s by (simp add: known_clients_def)
  have d: "d \<in> known_clients ?i"
  proof (rule ccontr)
    assume "d \<notin> known_clients ?i"
    then have "cancelled (ir_world r) (im_sims ?i ! d)" using inv start(2) unfolding im_inv_def Let_def by blast
    then show False using start(3) cancelled_started by blast
  qed
  show ?thesis using inv run d start(1,2) unfolding im_inv_def Let_def
    by (auto simp: known nth_list_update)
qed

interpretation impersonations: step_invariant "impersonate_step ag sel" "im_inv sel" True
  by unfold_locales (rule impersonate_step_inv)

text \<open>
  C34: Impersonation follows the cluster: after any sequence of pod events and starts of clients, the
  known pods are exactly those that were selected and had an address when they were last looked at, each
  with the configured number of clients, and every client of another pod has been cancelled; and a
  Cleanup that returns has cancelled every client there is.
\<close>

theorem impersonate_follows:
  assumes "(impersonate_step ag sel)\<^sup>*\<^sup>* (im_start spec w) r"
  shows "dom (im_known (ir_sim r)) = {key. \<exists>pod. ir_seen r key = Some pod \<and> wanted sel pod} \<and>
    (\<forall>key ds. im_known (ir_sim r) key = Some ds \<longrightarrow> length ds = nat (im_Replicas (im_Spec (ir_sim r)))) \<and>
    (\<forall>d < length (im_sims (ir_sim r)). d \<notin> known_clients (ir_sim r) \<longrightarrow> cancelled (ir_world r) (im_sims (ir_sim r) ! d)) \<and>
    (\<forall>keys i' w' e. set (keys (im_known (ir_sim r))) = dom (im_known (ir_sim r)) \<longrightarrow>
       Impersonate_Cleanup keys (ir_sim r) (ir_world r) = Returns (i', w', e) \<longrightarrow> (\<forall>x \<in> set (im_sims i'). cancelled w' x))"
proof -
  have inv: "im_inv sel r"
    by (rule impersonations.star_inv [OF TrueI assms]) (simp add: im_inv_def im_start_def NewImpersonate_def)
  let ?i = "ir_sim r"
  have clean: "\<forall>x \<in> set (im_sims i'). cancelled w' x"
    if keys: "set (keys (im_known ?i)) = dom (im_known ?i)" and run: "Impersonate_Cleanup keys ?i (ir_world r) = Returns (i', w', e)"
    for keys i' w' e
  proof -
    let ?ds = "concat (map (\<lambda>k. the (im_known ?i k)) (keys (im_known ?i)))"
    obtain sims where c: "cleanup_clients ?ds (im_sims ?i) (ir_world r) = Returns (sims, w')" and i': "i' = ?i\<lparr>im_sims := sims\<rparr>"
      using run by (auto simp: Impersonate_Cleanup_def obind_Returns_iff)
    have ds: "set ?ds = known_clients ?i" using keys unfolding known_clients_def by (auto simp: dom_def) force+
    have "\<forall>d \<in> set ?ds. d < length (im_sims ?i)"
      using inv unfolding ds im_inv_def Let_def known_clients_def by blast
    moreover have "\<forall>d < length (im_sims ?i). x_done (im_sims ?i ! d) = None \<or> started (length (streams (ir_world r))) (im_sims ?i ! d)"
      using inv unfolding im_inv_def Let_def by blast
    ultimately have spec: "sims = im_sims ?i" "\<forall>d \<in> set ?ds. cancelled w' (im_sims ?i ! d)" "\<forall>x. cancelled (ir_world r) x \<longrightarrow> cancelled w' x"
      using cleanup_clients_spec [OF c] by blast+
    have "cancelled w' (im_sims ?i ! d)" if "d < length (im_sims ?i)" for d
      using spec(2,3) ds that inv unfolding im_inv_def Let_def by blast
    then show ?thesis by (auto simp: i' spec(1) in_set_conv_nth)
  qed
  show ?thesis using inv clean unfolding im_inv_def Let_def by blast
qed

text \<open>A selected pod appears, its client starts.\<close>

definition im_pod :: kobj where
  "im_pod = (new_object ''Pod'' (PodSpec empty_podspec))\<lparr>o_name := ''p'', o_namespace := ''ns'',
     o_status := Status (PodStatus (empty_podstatus\<lparr>st_podIP := ''10.0.0.1''\<rparr>))\<rparr>"

lemma impersonate_follows_witness:
  "\<exists>r. (impersonate_step small_args (\<lambda>l. True))\<^sup>*\<^sup>* (im_start \<lparr>im_Selector = ''both'', im_Delay = 0, im_Replicas = 1\<rparr> small_world) r \<and>
     dom (im_known (ir_sim r)) = {(''ns'', ''p'')} \<and> length (streams (ir_world r)) = 1"
proof -
  let ?spec = "\<lparr>im_Selector = ''both'', im_Delay = 0, im_Replicas = 1\<rparr>"
  let ?r0 = "im_start ?spec small_world"
  have "\<exists>i' w'. impersonate_reconcile small_args (\<lambda>l. True) (''ns'', ''p'') (Some im_pod) (ir_sim ?r0) (ir_world ?r0) = Returns (i', w') \<and>
      im_known i' = [(''ns'', ''p'') \<mapsto> [0]] \<and> length (im_sims i') = 1 \<and> x_done (im_sims i' ! 0) = None \<and> streams w' = []"
    by (simp add: impersonate_reconcile_def im_pod_ip_def im_pod_def im_start_def NewImpersonate_def add_def newSimulation_def
        small_args_def small_world_def GrpcOptions_def)
  then obtain i' w' where rec: "impersonate_reconcile small_args (\<lambda>l. True) (''ns'', ''p'') (Some im_pod) (ir_sim ?r0) (ir_world ?r0) = Returns (i', w')"
    and i': "im_known i' = [(''ns'', ''p'') \<mapsto> [0]]" "length (im_sims i') = 1" "x_done (im_sims i' ! 0) = None" "streams w' = []" by blast
  let ?r1 = "\<lparr>ir_sim = i', ir_world = w', ir_seen = (ir_seen ?r0)((''ns'', ''p'') \<mapsto> Some im_pod)\<rparr>"
  have s1: "impersonate_step small_args (\<lambda>l. True) ?r0 ?r1" by (rule impersonate_step.reconcile [OF rec])
  obtain x w2 e where run: "xds_Run small_args (im_sims i' ! 0) w' = Returns (x, w2, e)" "length (streams w2) = 1"
    using i'(4) by (simp add: xds_Run_def Let_def)
  let ?r2 = "?r1\<lparr>ir_sim := i'\<lparr>im_sims := (im_sims i')[0 := x]\<rparr>, ir_world := w2\<rparr>"
  have s2: "impersonate_step small_args (\<lambda>l. True) ?r1 ?r2"
    using impersonate_step.start [of 0 ?r1 small_args x w2 e] i'(2,3) run(1) by simp
  have steps: "(impersonate_step small_args (\<lambda>l. True))\<^sup>*\<^sup>* ?r0 ?r2" using s1 s2 by (meson r_into_rtranclp rtranclp.rtrancl_into_rtrancl)
  have "\<exists>pod. ir_seen ?r2 (''ns'', ''p'') = Some pod" by simp
  then show ?thesis using impersonate_follows [OF steps] steps i'(1) run(2)
    by (intro exI [of _ ?r2]) simp
qed

text \<open>A pod that goes before its client has started: the queue's worker waits for ever.\<close>

lemma del_before_start_blocks:
  assumes "im_known i key = Some (d # ds)" and "x_done (im_sims i ! d) = None"
  shows "del key i w = Blocks"
  using assms by (simp add: del_def xds_Cleanup_def)

end
