(* ===== verification/Kube_Requests.thy ===== *)
theory Kube_Requests
  imports Kube
begin

text \<open>
  What the requests of a stretch of the log have created and deleted, and where they failed.
\<close>

text \<open>Errors of Create that count as an object that is there already, or may not be there.\<close>

definition tolerated :: "'s kenv \<Rightarrow> gerror \<Rightarrow> bool" where
  "tolerated env err \<longleftrightarrow> IsAlreadyExists env err \<or> (IsForbidden env err \<and> str_contains (err_text err) ''exceeded quota'')"

definition created :: "(request \<times> gerror option) list \<Rightarrow> key set" where
  "created l = {k. \<exists>r ob. (Create_req r ob, None) \<in> set l \<and> k = obj_key r ob}"

definition create_failed :: "'s kenv \<Rightarrow> (request \<times> gerror option) list \<Rightarrow> key set" where
  "create_failed env l = {k. \<exists>r ob err. (Create_req r ob, Some err) \<in> set l \<and> \<not> tolerated env err \<and> k = obj_key r ob}"

definition deleted :: "(request \<times> gerror option) list \<Rightarrow> key set" where
  "deleted l = {k. \<exists>g x. (Delete_req k g, x) \<in> set l}"

definition delete_failed :: "'s kenv \<Rightarrow> (request \<times> gerror option) list \<Rightarrow> key set" where
  "delete_failed env l = {k. \<exists>g err. (Delete_req k g, Some err) \<in> set l \<and> \<not> IsNotFound env err}"

lemma requests_append [simp]:
  "created (l @ m) = created l \<union> created m" "create_failed env (l @ m) = create_failed env l \<union> create_failed env m"
  "deleted (l @ m) = deleted l \<union> deleted m" "deleted [] = {}"
  "delete_failed env (l @ m) = delete_failed env l \<union> delete_failed env m"
  unfolding created_def create_failed_def deleted_def delete_failed_def set_append Un_iff by (blast, blast, blast, simp, blast)

lemma Create_request:
  assumes "Create env T ob w = Returns (b, e, w')"
  shows "\<exists>r x. resource_of env T ob = Returns r \<and> log w' = log w @ [(Create_req r ob, x)] \<and>
    (case x of None \<Rightarrow> b \<and> e = None | Some err \<Rightarrow> \<not> b \<and> (e = None \<longleftrightarrow> tolerated env err))"
proof -
  obtain r where r: "resource_of env T ob = Returns r" using assms by (auto simp: Create_def obind_Returns_iff)
  obtain y w1 where x: "exec env (Create_req r ob) w = (y, w1)" by fastforce
  show ?thesis using assms r x exec_log [OF x]
    by (auto simp: Create_def obind_Returns_iff tolerated_def split: sum.splits if_splits)
qed

lemma Delete_request:
  assumes "Delete env T ob w = Returns (e, w')"
  shows "\<exists>r x. resource_of env T ob = Returns r \<and> log w' = log w @ [(Delete_req (obj_key r ob) 0, x)] \<and>
    (e \<noteq> None \<longrightarrow> (\<exists>err. x = Some err \<and> \<not> IsNotFound env err))"
proof -
  obtain r where r: "resource_of env T ob = Returns r" using assms by (auto simp: Delete_def obind_Returns_iff)
  obtain y w1 where x: "exec env (Delete_req (obj_key r ob) 0) w = (y, w1)" by fastforce
  show ?thesis using assms r x exec_log [OF x]
    by (auto simp: Delete_def obind_Returns_iff split: sum.splits if_splits)
qed

end
