(* ===== verification/Reproduce.thy ===== *)
theory Reproduce
  imports Execution Reader App_Laws Kube_Requests
begin

text \<open>
  Reproducing a cluster from its configuration (sims/reproducecluster/sim.go): reading the objects,
  skipping and sanitising them, creating what does not exist, connecting XDS clients for pods, and the
  cleanup of what was created.
\<close>

section \<open>Configuration and state\<close>

record ReproduceConfig =
  re_ConfigFile :: string
  re_ConfigOnly :: bool
  re_Delay :: int

record createSim =
  cr_Spec :: kobj
  cr_skipCleanup :: bool

datatype rsim = RXds xds_sim | RCreate createSim

record ReproduceSimulation =
  rp_Spec :: ReproduceConfig
  rp_sims :: "rsim list"
  rp_running :: bool

text \<open>The kinds in the order of creation, by the name of their constant in the gvk package, which is \<open>gvk_of\<close>.\<close>

definition reproduce_order :: "(string \<Rightarrow> gvk) \<Rightarrow> (gvk \<times> bool) list" where
  "reproduce_order gvk_of =
     [(gvk_of ''Namespace'', False), (gvk_of ''EnvoyFilter'', True), (gvk_of ''Telemetry'', True), (gvk_of ''ServiceEntry'', True),
      (gvk_of ''PeerAuthentication'', True), (gvk_of ''Sidecar'', True), (gvk_of ''VirtualService'', True),
      (gvk_of ''Gateway'', True), (gvk_of ''DestinationRule'', True), (gvk_of ''AuthorizationPolicy'', True),
      (gvk_of ''RequestAuthentication'', True), (gvk_of ''WorkloadEntry'', True), (gvk_of ''WorkloadGroup'', True),
      (gvk_of ''ConfigMap'', False), (gvk_of ''Service'', False), (gvk_of ''Endpoints'', False),
      (('''', ''v1'', ''ServiceAccount''), False), (gvk_of ''Pod'', False)]"

definition denylistNamespaces :: "string set" where
  "denylistNamespaces = {''kube-system'', ''kube-public'', ''istio-system'', ''resource-group-system''}"

definition kind_of :: "gvk \<Rightarrow> string" where
  "kind_of g = snd (snd g)"

definition shouldSkipResource :: "(string \<Rightarrow> gvk) \<Rightarrow> string \<Rightarrow> string \<Rightarrow> string \<Rightarrow> bool \<Rightarrow> bool" where
  "shouldSkipResource gvk_of ns name kind isIstioApi =
     (if ns \<in> denylistNamespaces \<and> \<not> isIstioApi then True
      else if ns = ''default'' \<and> name = ''kubernetes'' \<and> kind = ''Service'' then True
      else if kind = kind_of (gvk_of ''Namespace'') \<and> name \<in> denylistNamespaces then True
      else False)"

section \<open>Reading\<close>

text \<open>
  \<open>chunks\<close> is what the reader returns up to the end of the file, \<open>alias\<close> the schema lookup that
  normalises the version of a kind.
\<close>

fun parse_inputs :: "(string \<Rightarrow> gerror + kobj) \<Rightarrow> (gvk \<Rightarrow> gvk option) \<Rightarrow> (gerror + string) list \<Rightarrow> (gvk \<Rightarrow> kobj list) \<Rightarrow>
    gerror + (gvk \<Rightarrow> kobj list)" where
  "parse_inputs decode alias [] resp = Inr resp"
| "parse_inputs decode alias (chunk # chunks) resp =
     (case chunk of
        Inl err \<Rightarrow> Inl err
      | Inr c \<Rightarrow>
          (case decode c of
             Inl err \<Rightarrow> Inl (ErrV ''cannot parse message: '' err)
           | Inr obj \<Rightarrow>
               (let obj1 = (case alias (o_gvk obj) of None \<Rightarrow> obj | Some g \<Rightarrow> obj\<lparr>o_gvk := g\<rparr>)
                in parse_inputs decode alias chunks (resp(o_gvk obj1 := resp (o_gvk obj1) @ [obj1])))))"

record inputs =
  in_open :: "string \<Rightarrow> gerror + (gerror + string) list"
  in_decode :: "string \<Rightarrow> gerror + kobj"
  in_alias :: "gvk \<Rightarrow> gvk option"
  in_gvk :: "string \<Rightarrow> gvk"

definition parseInputs :: "inputs \<Rightarrow> string \<Rightarrow> gerror + (gvk \<Rightarrow> kobj list)" where
  "parseInputs I inputFile =
     (case in_open I inputFile of
        Inl err \<Rightarrow> Inl err
      | Inr chunks \<Rightarrow> parse_inputs (in_decode I) (in_alias I) chunks (\<lambda>g. []))"

section \<open>Objects\<close>

definition sanitize_service :: "servicespec \<Rightarrow> servicespec" where
  "sanitize_service spec =
     (let s1 = (if sv_clusterIP spec \<noteq> ''None'' then spec\<lparr>sv_clusterIP := [], sv_clusterIPs := []\<rparr> else spec);
          s2 = (if sv_type s1 = ''LoadBalancer'' then s1\<lparr>sv_type := ''NodePort''\<rparr> else s1)
      in s2\<lparr>sv_selector := Map.empty\<rparr>)"

definition sanitize_object :: "kobj \<Rightarrow> kobj" where
  "sanitize_object c =
     (let co = c\<lparr>o_resourceVersion := [], o_managedFields := [], o_creationTimestamp := 0, o_finalizers := []\<rparr>
      in case o_spec co of
           ServiceSpec spec \<Rightarrow> co\<lparr>o_spec := ServiceSpec (sanitize_service spec)\<rparr>
         | EndpointsSpec subsets \<Rightarrow> co\<lparr>o_spec := EndpointsSpec (map (map (\<lambda>a. a\<lparr>ep_targetRef := None\<rparr>)) subsets)\<rparr>
         | ServiceAccountSpec \<Rightarrow> co\<lparr>o_annotations := Map.empty, o_labels := Map.empty\<rparr>
         | _ \<Rightarrow> co)"

definition newCreateSim :: "kobj \<Rightarrow> createSim" where
  "newCreateSim s = \<lparr>cr_Spec = s, cr_skipCleanup = False\<rparr>"

text \<open>The generic operations are used at the interface type, so the client is dynamic.\<close>

abbreviation objT :: gotype where
  "objT \<equiv> Interface ''Object''"

definition createSim_Run :: "'s kenv \<Rightarrow> (createSim, 's world) action" where
  "createSim_Run env v w =
     obind (Create env objT (cr_Spec v) w) (\<lambda>(created, e, w1).
       case e of
         Some err \<Rightarrow> Returns (v, w1, Some err)
       | None \<Rightarrow> Returns (if \<not> created then v\<lparr>cr_skipCleanup := True\<rparr> else v, w1, None))"

definition createSim_Cleanup :: "'s kenv \<Rightarrow> (createSim, 's world) action" where
  "createSim_Cleanup env v w =
     (if cr_skipCleanup v then Returns (v, w, None)
      else obind (Delete env objT (cr_Spec v) w) (\<lambda>(e, w1). Returns (v, w1, e)))"

section \<open>Run and Cleanup\<close>

text \<open>What one object makes of the loops: they go on, or Run returns.\<close>

datatype verdict = Continue | Return "gerror option"

type_synonym 's rstate = "rsim list \<times> nat \<times> 's world"

definition reproduce_ip :: "kobj \<Rightarrow> string" where
  "reproduce_ip pod = (case o_status pod of Status (PodStatus s) \<Rightarrow> st_podIP s | _ \<Rightarrow> [])"

definition reproduce_xds :: "args \<Rightarrow> kobj \<Rightarrow> podspec \<Rightarrow> xds_sim" where
  "reproduce_xds ag co spec =
     \<lparr>x_Labels = o_labels co, x_Metadata = Map.empty, x_Namespace = o_namespace co,
      x_ServiceAccount = ps_serviceAccountName spec, x_Name = o_name co, x_IP = reproduce_ip co, x_Cluster = ''Kubernetes'',
      x_AppType = SidecarType, x_Delta = ag_DeltaXDS ag, x_cancel = None, x_done = None\<rparr>"

definition reproduce_one :: "'s simenv \<Rightarrow> inputs \<Rightarrow> ReproduceConfig \<Rightarrow> bool \<Rightarrow> kobj \<Rightarrow> 's rstate \<Rightarrow>
    ('s rstate \<times> verdict) outcome" where
  "reproduce_one E I spec isIstioApi c st =
     (case st of (sims, n, w) \<Rightarrow>
        if IsDone (kruntime (kube E)) w then Returns (st, Return None)
        else if shouldSkipResource (in_gvk I) (o_namespace c) (o_name c) (kind_of (o_gvk c)) isIstioApi then Returns (st, Continue)
        else if kind_of (o_gvk c) = kind_of (in_gvk I ''Pod'') \<and> \<not> re_ConfigOnly spec then
          (case o_spec c of
             PodSpec ps \<Rightarrow>
               obind (GrpcOptions (ag_Auth (sim_args E)) (ps_serviceAccountName ps) (o_namespace c)) (\<lambda>opts.
               obind (xds_Run (sim_args E) (reproduce_xds (sim_args E) c ps) w) (\<lambda>(x, w1, e).
                 case e of
                   Some err \<Rightarrow> Returns ((sims @ [RXds x], n, w1), Return (Some err))
                 | None \<Rightarrow> Returns ((sims @ [RXds x], n, ContextSleep (kruntime (kube E)) (re_Delay spec) w1), Continue)))
           | _ \<Rightarrow> Panics ''interface conversion'')
        else
          obind (createSim_Run (kube E) (newCreateSim (sanitize_object c)) w) (\<lambda>(v, w1, err).
            Returns ((sims @ [RCreate v], if cr_skipCleanup v then n else n + 1, w1), Continue)))"

fun reproduce_objects :: "'s simenv \<Rightarrow> inputs \<Rightarrow> ReproduceConfig \<Rightarrow> bool \<Rightarrow> kobj list \<Rightarrow> 's rstate \<Rightarrow>
    ('s rstate \<times> verdict) outcome" where
  "reproduce_objects E I spec isIstioApi [] st = Returns (st, Continue)"
| "reproduce_objects E I spec isIstioApi (c # cs) st =
     obind (reproduce_one E I spec isIstioApi c st) (\<lambda>(st1, v).
       case v of Continue \<Rightarrow> reproduce_objects E I spec isIstioApi cs st1 | Return e \<Rightarrow> Returns (st1, Return e))"

fun reproduce_kinds :: "'s simenv \<Rightarrow> inputs \<Rightarrow> ReproduceConfig \<Rightarrow> (gvk \<Rightarrow> kobj list) \<Rightarrow> (gvk \<times> bool) list \<Rightarrow> 's rstate \<Rightarrow>
    ('s rstate \<times> verdict) outcome" where
  "reproduce_kinds E I spec cfgs [] st = Returns (st, Continue)"
| "reproduce_kinds E I spec cfgs ((g, isIstioApi) # gs) st =
     obind (reproduce_objects E I spec isIstioApi (cfgs g) st) (\<lambda>(st1, v).
       case v of Continue \<Rightarrow> reproduce_kinds E I spec cfgs gs st1 | Return e \<Rightarrow> Returns (st1, Return e))"

text \<open>Closing the running channel a second time is a panic.\<close>

definition Reproduce_Run :: "'s simenv \<Rightarrow> inputs \<Rightarrow> (ReproduceSimulation, 's world) action" where
  "Reproduce_Run E I i w =
     (case parseInputs I (re_ConfigFile (rp_Spec i)) of
        Inl err \<Rightarrow> Returns (i, w, Some err)
      | Inr cfgsByKind \<Rightarrow>
          obind (reproduce_kinds E I (rp_Spec i) cfgsByKind (reproduce_order (in_gvk I)) (rp_sims i, 0, w)) (\<lambda>((sims, n, w1), v).
            let i1 = i\<lparr>rp_sims := sims\<rparr> in
            case v of
              Return e \<Rightarrow> Returns (i1, w1, e)
            | Continue \<Rightarrow>
                if rp_running i then Panics ''close of closed channel''
                else Returns (i1\<lparr>rp_running := True\<rparr>, w1, None)))"

fun rsim_cleanup :: "'s simenv \<Rightarrow> (rsim, 's world) action" where
  "rsim_cleanup E (RXds x) = lift_sim RXds xds_Cleanup x"
| "rsim_cleanup E (RCreate v) = lift_sim RCreate (createSim_Cleanup (kube E)) v"

fun rsim_type :: "rsim \<Rightarrow> string" where
  "rsim_type (RXds x) = ''*xds.Simulation''"
| "rsim_type (RCreate v) = ''*reproducecluster.createSim''"

definition Reproduce_Cleanup :: "'s simenv \<Rightarrow> (ReproduceSimulation, 's world) action" where
  "Reproduce_Cleanup E i w =
     obind (agg_Cleanup rsim_type (rsim_cleanup E) \<lparr>Simulations = ReverseSimulations (rp_sims i), Delay = 0\<rparr> w) (\<lambda>(g, w1, e).
       Returns (i\<lparr>rp_sims := Simulations g\<rparr>, w1, e))"

section \<open>What is owned\<close>

text \<open>What Cleanup of a member deletes.\<close>

fun rsim_owned :: "'s kenv \<Rightarrow> rsim \<Rightarrow> key set" where
  "rsim_owned env (RXds x) = {}"
| "rsim_owned env (RCreate v) =
     (if cr_skipCleanup v then {} else {k. \<exists>r. resource_of env objT (cr_Spec v) = Returns r \<and> k = obj_key r (cr_Spec v)})"

lemma rsim_cleanup_live:
  assumes "rsim_cleanup E s w = Returns (s', w', e)"
  shows "s' = s \<and> live (kube E) w' \<subseteq> live (kube E) w \<and> (e = None \<longrightarrow> live (kube E) w' \<inter> rsim_owned (kube E) s = {})"
proof (cases s)
  case (RXds x)
  then show ?thesis using assms by (auto simp: lift_sim_def obind_Returns_iff dest!: xds_Cleanup_live)
next
  case (RCreate v)
  then show ?thesis using assms Delete_live [of "kube E" objT "cr_Spec v" w e w']
    by (auto simp: lift_sim_def createSim_Cleanup_def obind_Returns_iff)
qed

interpretation rsims: cleanable "rsim_cleanup E" "rsim_owned (kube E)" "live (kube E)" True for E
  by unfold_locales (auto dest: rsim_cleanup_live)

section \<open>The requests of a run\<close>

text \<open>
  What a run has done so far: it has deleted nothing, what its members own was created or failed to be
  created by it, and whatever is new is owned.
\<close>

definition reproduced :: "'s kenv \<Rightarrow> 's world \<Rightarrow> 's rstate \<Rightarrow> bool" where
  "reproduced env w0 st \<longleftrightarrow> (case st of (sims, n, w) \<Rightarrow>
     \<exists>l. log w = log w0 @ l \<and> deleted l = {} \<and> \<Union> (rsim_owned env ` set sims) \<subseteq> created l \<union> create_failed env l \<and>
       live env w \<subseteq> live env w0 \<union> \<Union> (rsim_owned env ` set sims))"

lemma reproduced_frame:
  "reproduced env w0 (sims, n, w) \<Longrightarrow> log w' = log w \<Longrightarrow> rsim_owned env s = {} \<Longrightarrow> reproduced env w0 (sims @ [s], m, w')"
  by (auto simp: reproduced_def live_def)

lemma reproduced_create:
  assumes inv: "reproduced env w0 (sims, n, w)" and run: "createSim_Run env (newCreateSim ob) w = Returns (v, w', e)"
  shows "reproduced env w0 (sims @ [RCreate v], m, w')"
proof -
  obtain b e1 where c: "Create env objT ob w = Returns (b, e1, w')"
    and v: "v = \<lparr>cr_Spec = ob, cr_skipCleanup = (e1 = None \<and> \<not> b)\<rparr>"
    using run by (auto simp: createSim_Run_def newCreateSim_def obind_Returns_iff split: option.splits if_splits)
  obtain r x where r: "resource_of env objT ob = Returns r" and l': "log w' = log w @ [(Create_req r ob, x)]"
    and x: "case x of None \<Rightarrow> b \<and> e1 = None | Some err \<Rightarrow> \<not> b \<and> (e1 = None \<longleftrightarrow> tolerated env err)"
    using Create_request [OF c] by blast
  obtain l where l: "log w = log w0 @ l" "deleted l = {}" "\<Union> (rsim_owned env ` set sims) \<subseteq> created l \<union> create_failed env l"
    "live env w \<subseteq> live env w0 \<union> \<Union> (rsim_owned env ` set sims)"
    using inv by (auto simp: reproduced_def)
  let ?new = "[(Create_req r ob, x)]"
  have own: "rsim_owned env (RCreate v) \<subseteq> created ?new \<union> create_failed env ?new"
    using r x v by (auto simp: created_def create_failed_def split: option.splits)
  have "live env w' \<subseteq> live env w \<union> rsim_owned env (RCreate v)"
    using Create_live [OF c] r v x by (auto split: option.splits if_splits)
  then show ?thesis using l l' own unfolding reproduced_def
    by (intro case_prodI exI [of _ "l @ ?new"]) (auto simp: deleted_def)
qed

lemma reproduce_one_inv:
  assumes sleep: "sleep_documented (kube E)" and inv: "reproduced (kube E) w0 st"
    and run: "reproduce_one E I spec api c st = Returns (st', v)"
  shows "reproduced (kube E) w0 st'"
proof -
  obtain sims n w where st: "st = (sims, n, w)" by (rule prod_cases3)
  let ?xds = "kind_of (o_gvk c) = kind_of (in_gvk I ''Pod'') \<and> \<not> re_ConfigOnly spec"
  consider (same) "st' = st"
    | (xds) x w1 where "st' = (sims @ [RXds x], n, w1)" "log w1 = log w"
    | (create) u w1 e m where "createSim_Run (kube E) (newCreateSim (sanitize_object c)) w = Returns (u, w1, e)"
        "st' = (sims @ [RCreate u], m, w1)"
  proof (cases "IsDone (kruntime (kube E)) w \<or> shouldSkipResource (in_gvk I) (o_namespace c) (o_name c) (kind_of (o_gvk c)) api")
    case True
    then show ?thesis using run st that(1) by (auto simp: reproduce_one_def split: if_splits)
  next
    case go: False
    show ?thesis
    proof (cases ?xds)
      case True
      then show ?thesis using run st go sleep that(2)
        by (auto simp: reproduce_one_def obind_Returns_iff xds_Run_def Let_def ContextSleep_def sleep_documented_def
            split: kspec.splits)
    next
      case False
      then show ?thesis using run st go that(3) by (auto simp: reproduce_one_def obind_Returns_iff)
    qed
  qed
  then show ?thesis
  proof cases
    case same
    then show ?thesis using inv by simp
  next
    case (xds x w1)
    then show ?thesis using reproduced_frame [OF inv [unfolded st], of w1 "RXds x"] by simp
  next
    case (create u w1 e m)
    then show ?thesis using reproduced_create [OF inv [unfolded st] create(1)] by simp
  qed
qed

lemma reproduce_objects_inv:
  assumes "sleep_documented (kube E)"
  shows "reproduced (kube E) w0 st \<Longrightarrow> reproduce_objects E I spec api cs st = Returns (st', v) \<Longrightarrow> reproduced (kube E) w0 st'"
proof (induction cs arbitrary: st)
  case (Cons c cs)
  obtain st1 v1 where one: "reproduce_one E I spec api c st = Returns (st1, v1)"
    using Cons.prems(2) by (auto simp: obind_Returns_iff)
  note inv1 = reproduce_one_inv [OF assms Cons.prems(1) one]
  then show ?case using Cons.IH [OF inv1] Cons.prems(2) one by (cases v1) simp_all
qed simp

lemma reproduce_kinds_inv:
  assumes "sleep_documented (kube E)"
  shows "reproduced (kube E) w0 st \<Longrightarrow> reproduce_kinds E I spec cfgs gs st = Returns (st', v) \<Longrightarrow> reproduced (kube E) w0 st'"
proof (induction gs arbitrary: st)
  case (Cons g gs)
  obtain k api where g: "g = (k, api)" by fastforce
  obtain st1 v1 where one: "reproduce_objects E I spec api (cfgs k) st = Returns (st1, v1)"
    using Cons.prems(2) by (auto simp: g obind_Returns_iff)
  note inv1 = reproduce_objects_inv [OF assms Cons.prems(1) one]
  then show ?case using Cons.IH [OF inv1] Cons.prems(2) one by (cases v1) (simp_all add: g)
qed simp

lemma Reproduce_Run_inv:
  assumes "sleep_documented (kube E)" and "rp_sims i = []" and "Reproduce_Run E I i w = Returns (i', w', e)"
  shows "\<exists>n. reproduced (kube E) w (rp_sims i', n, w')"
proof (cases "parseInputs I (re_ConfigFile (rp_Spec i))")
  case (Inl err)
  then show ?thesis using assms(2,3) by (auto simp: Reproduce_Run_def reproduced_def)
next
  case (Inr cfgs)
  obtain sims n w2 v where k: "reproduce_kinds E I (rp_Spec i) cfgs (reproduce_order (in_gvk I)) ([], 0, w) = Returns ((sims, n, w2), v)"
    using assms(2,3) Inr by (auto simp: Reproduce_Run_def obind_Returns_iff)
  then have eq: "rp_sims i' = sims \<and> w' = w2"
    using assms(2,3) Inr by (cases v) (auto simp: Reproduce_Run_def Let_def split: if_splits)
  have "reproduced (kube E) w ([], 0, w)" by (simp add: reproduced_def)
  then show ?thesis using reproduce_kinds_inv [OF assms(1) _ k] eq by auto
qed

lemma subset_gone: "A \<subseteq> B \<union> C \<Longrightarrow> D \<subseteq> A \<Longrightarrow> D \<inter> C = {} \<Longrightarrow> D \<subseteq> B"
  by blast

section \<open>The requests of a cleanup\<close>

lemma rsim_cleanup_log:
  assumes "rsim_cleanup E s w = Returns (s', w', e)"
  shows "\<exists>l. log w' = log w @ l \<and> deleted l \<subseteq> rsim_owned (kube E) s"
proof (cases s)
  case (RXds x)
  then show ?thesis using assms
    by (auto simp: lift_sim_def obind_Returns_iff xds_Cleanup_def cancel_stream_def Let_def split: option.splits if_splits)
next
  case (RCreate v)
  show ?thesis
  proof (cases "cr_skipCleanup v")
    case True
    then show ?thesis using assms RCreate by (auto simp: lift_sim_def obind_Returns_iff createSim_Cleanup_def)
  next
    case False
    then have "Delete (kube E) objT (cr_Spec v) w = Returns (e, w')"
      using assms RCreate by (auto simp: lift_sim_def obind_Returns_iff createSim_Cleanup_def)
    from Delete_request [OF this] show ?thesis using RCreate False by (auto simp: deleted_def)
  qed
qed

lemma cleanup_seq_log:
  "cleanup_seq tn (rsim_cleanup E) ss w errs = Returns (ss', w', e) \<Longrightarrow>
     \<exists>l. log w' = log w @ l \<and> deleted l \<subseteq> \<Union> (rsim_owned (kube E) ` set ss)"
proof (induction ss arbitrary: w errs ss' w' e)
  case (Cons s ss)
  from Cons.prems obtain s1 w1 e1 errs1 ss2 where c: "rsim_cleanup E s w = Returns (s1, w1, e1)"
    and rest: "cleanup_seq tn (rsim_cleanup E) ss w1 errs1 = Returns (ss2, w', e)"
    by (auto simp: obind_Returns_iff Let_def simp del: rsim_cleanup.simps)
  obtain l m where "log w1 = log w @ l" "deleted l \<subseteq> rsim_owned (kube E) s"
    "log w' = log w1 @ m" "deleted m \<subseteq> \<Union> (rsim_owned (kube E) ` set ss)"
    using rsim_cleanup_log [OF c] Cons.IH [OF rest] by blast
  then show ?case by (intro exI [of _ "l @ m"]) auto
qed simp

text \<open>
  C35: Reproducing a cluster leaves other people's objects alone. Run deletes nothing. Cleanup deletes only
  objects that Run has created, or tried to create and failed for a reason other than that they exist or that the
  quota is used up. And if Cleanup reports no error, nothing exists that did not exist before Run.
\<close>

theorem reproduce_cleans_its_own:
  assumes "sleep_documented (kube E)" and "rp_sims i = []"
    and "Reproduce_Run E I i w = Returns (i1, w1, e1)" and "Reproduce_Cleanup E i1 w1 = Returns (i2, w2, e2)"
  shows "\<exists>ran cleaned. log w1 = log w @ ran \<and> log w2 = log w1 @ cleaned \<and> deleted ran = {} \<and>
    deleted cleaned \<subseteq> created ran \<union> create_failed (kube E) ran \<and> (e2 = None \<longrightarrow> live (kube E) w2 \<subseteq> live (kube E) w)"
proof -
  let ?own = "\<Union> (rsim_owned (kube E) ` set (rp_sims i1))"
  obtain ran where ran: "log w1 = log w @ ran" "deleted ran = {}" "?own \<subseteq> created ran \<union> create_failed (kube E) ran"
    "live (kube E) w1 \<subseteq> live (kube E) w \<union> ?own"
    using Reproduce_Run_inv [OF assms(1-3)] by (auto simp: reproduced_def)
  obtain ss where c: "cleanup_seq rsim_type (rsim_cleanup E) (rev (rp_sims i1)) w1 None = Returns (ss, w2, e2)"
    using assms(4) by (auto simp: Reproduce_Cleanup_def agg_Cleanup_def obind_Returns_iff)
  obtain cleaned where "log w2 = log w1 @ cleaned" "deleted cleaned \<subseteq> ?own"
    using cleanup_seq_log [OF c] by auto
  moreover have "e2 = None \<longrightarrow> live (kube E) w2 \<subseteq> live (kube E) w"
    using subset_gone [OF ran(4)] rsims.cleanup_seq_live [OF _ c] by simp
  ultimately show ?thesis using ran by blast
qed

section \<open>A small run\<close>

text \<open>One object in the file; \<open>pilot\<close> exists already.\<close>

definition re_object :: "string \<Rightarrow> kobj" where
  "re_object name = (new_object ''VirtualService'' (RawSpec ''spec''))\<lparr>o_gvk := ('''', ''v1'', ''VirtualService''), o_name := name, o_namespace := ''ns''\<rparr>"

definition re_inputs :: inputs where
  "re_inputs = \<lparr>in_open = (\<lambda>f. Inr [Inr ''pilot'', Inr ''other'']), in_decode = (\<lambda>c. Inr (re_object c)),
     in_alias = (\<lambda>g. None), in_gvk = (\<lambda>k. ('''', ''v1'', k))\<rparr>"

definition re_sample :: ReproduceSimulation where
  "re_sample = \<lparr>rp_Spec = \<lparr>re_ConfigFile = ''f'', re_ConfigOnly = True, re_Delay = 0\<rparr>, rp_sims = [], rp_running = False\<rparr>"

definition re_world :: "store world" where
  "re_world = memory_world\<lparr>srv_state := [(''VirtualService'', ''ns'', ''pilot'') \<mapsto> re_object ''pilot'']\<rparr>"

lemmas re_eval = re_object_def re_inputs_def re_sample_def re_world_def memory_world_def memory_env_def
  Reproduce_Run_def Reproduce_Cleanup_def parseInputs_def reproduce_order_def reproduce_one_def shouldSkipResource_def
  denylistNamespaces_def kind_of_def createSim_Run_def createSim_Cleanup_def newCreateSim_def sanitize_object_def
  new_object_def Create_def Delete_def resource_of_def dynamicClient_def exec_def obj_key_def IsDone_def Let_def agg_Cleanup_def lift_sim_def

lemma reproduce_cleans_its_own_witness:
  "\<exists>i1 w1 i2 w2. Reproduce_Run memory_sim re_inputs re_sample re_world = Returns (i1, w1, None) \<and>
     Reproduce_Cleanup memory_sim i1 w1 = Returns (i2, w2, None) \<and>
     live memory_env w2 \<subseteq> live memory_env re_world \<and> srv_state w2 (''VirtualService'', ''ns'', ''pilot'') \<noteq> None"
proof -
  have run: "\<exists>i1 w1. Reproduce_Run memory_sim re_inputs re_sample re_world = Returns (i1, w1, None) \<and>
      (\<exists>i2 w2. Reproduce_Cleanup memory_sim i1 w1 = Returns (i2, w2, None) \<and> srv_state w2 (''VirtualService'', ''ns'', ''pilot'') \<noteq> None)"
    by (simp add: re_eval)
  then obtain i1 w1 i2 w2 where r: "Reproduce_Run memory_sim re_inputs re_sample re_world = Returns (i1, w1, None)"
    "Reproduce_Cleanup memory_sim i1 w1 = Returns (i2, w2, None)" "srv_state w2 (''VirtualService'', ''ns'', ''pilot'') \<noteq> None" by blast
  have "live memory_env w2 \<subseteq> live memory_env re_world"
    using reproduce_cleans_its_own [OF _ _ r(1,2)] memory_sleep by (simp add: re_sample_def) blast
  then show ?thesis using r by blast
qed

text \<open>
  An object that could not be created is counted as created, and Cleanup deletes what has its name, whoever
  made it.
\<close>

lemma failed_create_deleted:
  assumes "createSim_Run env (newCreateSim ob) w = Returns (v, w1, Some err)"
  shows "\<exists>r. resource_of env objT ob = Returns r \<and>
    (\<forall>v' w2 e. createSim_Cleanup env v w1 = Returns (v', w2, e) \<longrightarrow> (\<exists>x. log w2 = log w1 @ [(Delete_req (obj_key r ob) 0, x)]))"
proof -
  obtain b where c: "Create env objT ob w = Returns (b, Some err, w1)" and v: "v = newCreateSim ob"
    using assms by (auto simp: createSim_Run_def newCreateSim_def obind_Returns_iff split: option.splits if_splits)
  obtain r where r: "resource_of env objT ob = Returns r" using Create_request [OF c] by blast
  have "\<exists>x. log w2 = log w1 @ [(Delete_req (obj_key r ob) 0, x)]" if "createSim_Cleanup env v w1 = Returns (v', w2, e)" for v' w2 e
    using that r Delete_request [of env objT ob w1 e w2] by (auto simp: createSim_Cleanup_def v newCreateSim_def obind_Returns_iff)
  then show ?thesis using r by blast
qed

end
