(* ===== verification/Victoria.thy ===== *)
theory Victoria
  imports Go_Prelude
begin

text \<open>
  Pushing log entries to VictoriaLogs: the batching reporter (pkg/victoria/batch.go), the request of one
  batch (pkg/victoria/logs.go) and the command that reads entries from its standard input
  (sims/victoriapush/command.go). JSON and HTTP are parameters. The goroutines - callers of Report, the
  flusher, the command - interleave as the steps of a relation.
\<close>

section \<open>One batch\<close>

record 't http =
  json_encode :: "'t \<Rightarrow> gerror + string"
  http_post :: "string \<Rightarrow> string \<Rightarrow> string \<Rightarrow> gerror + nat"

text \<open>The encoder ends every value with a newline; an entry that does not encode is left out.\<close>

definition json_lines :: "'t http \<Rightarrow> 't list \<Rightarrow> string" where
  "json_lines H entries = concat (map (\<lambda>item. case json_encode H item of Inl e \<Rightarrow> [] | Inr s \<Rightarrow> s @ [CHR 0x0A]) entries)"

lemma json_lines_concat: "json_lines H (concat bs) = concat (map (json_lines H) bs)"
  by (induction bs) (simp_all add: json_lines_def)

definition Report_batch :: "'t http \<Rightarrow> string \<Rightarrow> string list \<Rightarrow> 't list \<Rightarrow> gerror option" where
  "Report_batch H address streamFields entries =
     (case http_post H (address @ ''/insert/jsonline?_stream_fields='' @ join_with '','' streamFields)
             ''application/stream+json'' (json_lines H entries) of
        Inl err \<Rightarrow> Some (ErrV ''error posting victoria logs: '' err)
      | Inr code \<Rightarrow> if code \<noteq> 200 then Some (ErrText (''error posting victoria logs: code '' @ itoa code)) else None)"

section \<open>The reporter\<close>

text \<open>
  \<open>br_calls\<close> are the calls of Report in progress, each with the entries it has not sent yet. \<open>br_posted\<close>
  lists the batches handed to \<open>Report_batch\<close>, whose error is only logged. \<open>br_accepted\<close> is the history of the
  entries that were taken into the channel.
\<close>

datatype flusher = Flushing | Draining | Finished

record 't BatchReporter =
  br_address :: string
  br_streamFields :: "string list"
  br_entryChan :: "'t list"
  br_closed :: bool
  br_flusher :: flusher
  br_batch :: "'t list"
  br_calls :: "'t list list"
  br_posted :: "'t list list"
  br_accepted :: "'t list"

definition MAX_BATCH :: nat where
  "MAX_BATCH = 500"

definition NewBatchReporter :: "string \<Rightarrow> string list \<Rightarrow> 't BatchReporter" where
  "NewBatchReporter address streamFields =
     \<lparr>br_address = address, br_streamFields = streamFields, br_entryChan = [], br_closed = False, br_flusher = Flushing,
      br_batch = [], br_calls = [], br_posted = [], br_accepted = []\<rparr>"

definition Report :: "'t list \<Rightarrow> 't BatchReporter \<Rightarrow> 't BatchReporter" where
  "Report entries br = br\<lparr>br_calls := br_calls br @ [entries]\<rparr>"

text \<open>Closing a closed channel is a panic. Close then waits for the flusher: \<open>Close_done\<close>.\<close>

definition Close :: "'t BatchReporter \<Rightarrow> 't BatchReporter outcome" where
  "Close br = (if br_closed br then Panics ''close of closed channel'' else Returns (br\<lparr>br_closed := True\<rparr>))"

definition Close_done :: "'t BatchReporter \<Rightarrow> bool" where
  "Close_done br \<longleftrightarrow> br_flusher br = Finished"

definition send :: "'t BatchReporter \<Rightarrow> 't BatchReporter" where
  "send br = br\<lparr>br_posted := br_posted br @ [br_batch br], br_batch := []\<rparr>"

text \<open>The two alternatives of Report's select, and the end of a call.\<close>

definition can_send :: "'t BatchReporter \<Rightarrow> bool" where
  "can_send br \<longleftrightarrow> length (br_entryChan br) < 500"

inductive report_step :: "'t BatchReporter \<Rightarrow> 't BatchReporter \<Rightarrow> bool" where
  sent: "i < length (br_calls br) \<Longrightarrow> br_calls br ! i = entry # rest \<Longrightarrow> can_send br \<Longrightarrow>
    report_step br (br\<lparr>br_entryChan := br_entryChan br @ [entry], br_accepted := br_accepted br @ [entry],
                       br_calls := (br_calls br)[i := rest]\<rparr>)"
| refused: "i < length (br_calls br) \<Longrightarrow> br_calls br ! i = entry # rest \<Longrightarrow> br_closed br \<Longrightarrow>
    report_step br (br\<lparr>br_calls := (br_calls br)[i := []]\<rparr>)"
| returned: "i < length (br_calls br) \<Longrightarrow> br_calls br ! i = [] \<Longrightarrow>
    report_step br (br\<lparr>br_calls := take i (br_calls br) @ drop (Suc i) (br_calls br)\<rparr>)"

text \<open>The flusher: an entry, a tick, the closing; then it drains.\<close>

definition flush_entry :: "'t \<Rightarrow> 't list \<Rightarrow> 't BatchReporter \<Rightarrow> 't BatchReporter" where
  "flush_entry entry rest br =
     (let br1 = br\<lparr>br_entryChan := rest, br_batch := br_batch br @ [entry]\<rparr>
      in if length (br_batch br1) \<ge> MAX_BATCH then send br1 else br1)"

definition flush_tick :: "'t BatchReporter \<Rightarrow> 't BatchReporter" where
  "flush_tick br = (if length (br_batch br) > 0 then send br else br)"

fun drain_step :: "'t BatchReporter \<Rightarrow> 't BatchReporter" where
  "drain_step br =
     (case br_entryChan br of
        entry # rest \<Rightarrow> br\<lparr>br_entryChan := rest, br_batch := br_batch br @ [entry]\<rparr>
      | [] \<Rightarrow> (flush_tick br)\<lparr>br_flusher := Finished\<rparr>)"

inductive flusher_step :: "'t BatchReporter \<Rightarrow> 't BatchReporter \<Rightarrow> bool" where
  entry: "br_flusher br = Flushing \<Longrightarrow> br_entryChan br = entry # rest \<Longrightarrow> flusher_step br (flush_entry entry rest br)"
| tick: "br_flusher br = Flushing \<Longrightarrow> flusher_step br (flush_tick br)"
| closing: "br_flusher br = Flushing \<Longrightarrow> br_closed br \<Longrightarrow> flusher_step br (br\<lparr>br_flusher := Draining\<rparr>)"
| drain: "br_flusher br = Draining \<Longrightarrow> flusher_step br (drain_step br)"

inductive_cases flusher_stepE: "flusher_step br br'"
inductive_cases report_stepE: "report_step br br'"

section \<open>What the reporter keeps\<close>

text \<open>
  Every accepted entry is in exactly one place, in order; batches are not empty, and until the last one they
  have at most \<open>MAX_BATCH\<close> entries.
\<close>

definition reporter_inv :: "'t BatchReporter \<Rightarrow> bool" where
  "reporter_inv br \<longleftrightarrow>
     concat (br_posted br) @ br_batch br @ br_entryChan br = br_accepted br \<and>
     [] \<notin> set (br_posted br) \<and> length (br_entryChan br) \<le> 500 \<and>
     (br_flusher br = Flushing \<longrightarrow> length (br_batch br) < MAX_BATCH) \<and>
     (br_flusher br = Finished \<longrightarrow> br_batch br = []) \<and>
     (br_flusher br \<noteq> Flushing \<longrightarrow> br_closed br) \<and>
     (\<forall>b \<in> set (if br_flusher br = Finished then butlast (br_posted br) else br_posted br). length b \<le> MAX_BATCH)"

lemma reporter_inv_new: "reporter_inv (NewBatchReporter a sf)"
  by (simp add: reporter_inv_def NewBatchReporter_def MAX_BATCH_def)

lemma reporter_inv_Report: "reporter_inv br \<Longrightarrow> reporter_inv (Report es br)"
  by (simp add: reporter_inv_def Report_def)

lemma reporter_inv_Close: "reporter_inv br \<Longrightarrow> Close br = Returns br' \<Longrightarrow> reporter_inv br'"
  by (auto simp: reporter_inv_def Close_def split: if_splits)

lemma reporter_inv_report_step: "report_step br br' \<Longrightarrow> reporter_inv br \<Longrightarrow> reporter_inv br'"
  by (erule report_step.cases) (auto simp: reporter_inv_def can_send_def)

lemma reporter_inv_flusher_step:
  assumes "flusher_step br br'" and "reporter_inv br"
  shows "reporter_inv br'"
  using assms
proof cases
  case (entry e rest)
  then show ?thesis using assms(2) by (auto simp: reporter_inv_def flush_entry_def send_def MAX_BATCH_def Let_def)
next
  case tick
  then show ?thesis using assms(2) by (auto simp: reporter_inv_def flush_tick_def send_def)
next
  case closing
  then show ?thesis using assms(2) by (auto simp: reporter_inv_def)
next
  case drain
  then show ?thesis using assms(2)
    by (auto simp: reporter_inv_def flush_tick_def send_def butlast_append split: list.splits dest: in_set_butlastD)
qed

section \<open>The command\<close>

text \<open>Numbers with a fraction are passed on as they are: their type is a parameter.\<close>

record 'f LogIn =
  li_Latency :: 'f
  li_Timestamp :: int
  li_Thread :: int
  li_Iter :: int
  li_Details :: string

record 'f Log =
  lo_Message :: string
  lo_Time :: int
  lo_Value :: 'f
  lo_Stream :: string
  lo_Substream :: string

record 'f Pusher =
  pu_Batcher :: "'f Log BatchReporter"
  pu_Stream :: string
  pu_SubStream :: string

definition NewPusher :: "string \<Rightarrow> string \<Rightarrow> string \<Rightarrow> 'f Pusher" where
  "NewPusher address stream subStream =
     (let sid = [''stream'']; sid1 = (if subStream \<noteq> [] then sid @ [''subStream''] else sid)
      in \<lparr>pu_Batcher = NewBatchReporter address sid1, pu_Stream = stream, pu_SubStream = subStream\<rparr>)"

text \<open>What one line of the input becomes; an empty line and one that does not parse are skipped.\<close>

definition push_line :: "(string \<Rightarrow> gerror + 'f LogIn) \<Rightarrow> 'f Pusher \<Rightarrow> string \<Rightarrow> 'f Log option" where
  "push_line unmarshal p line =
     (if length line = 0 then None
      else case unmarshal line of
          Inl err \<Rightarrow> None
        | Inr r \<Rightarrow> Some \<lparr>lo_Message = li_Details r, lo_Time = li_Timestamp r, lo_Value = li_Latency r,
                         lo_Stream = pu_Stream p, lo_Substream = pu_SubStream p\<rparr>)"

text \<open>
  A run of the command. The scanner has the lines \<open>pr_input\<close> left and ends with \<open>scan_err\<close>; the context may
  end at any time. \<open>pr_read\<close> is the history of the lines that were looked at.
\<close>

datatype progress = Scanning | Ran "gerror option" | Cleaning "gerror option" | Cleaned "gerror option"


record 'f pushrun =
  pr_pusher :: "'f Pusher"
  pr_input :: "string list"
  pr_read :: "string list"
  pr_cancelled :: bool
  pr_progress :: progress

definition set_batcher :: "'f Log BatchReporter \<Rightarrow> 'f pushrun \<Rightarrow> 'f pushrun" where
  "set_batcher br r = r\<lparr>pr_pusher := (pr_pusher r)\<lparr>pu_Batcher := br\<rparr>\<rparr>"

abbreviation batcher :: "'f pushrun \<Rightarrow> 'f Log BatchReporter" where
  "batcher r \<equiv> pu_Batcher (pr_pusher r)"

definition ctx_Err :: gerror where
  "ctx_Err = ErrText ''context canceled''"

definition Pusher_scan :: "(string \<Rightarrow> gerror + 'f LogIn) \<Rightarrow> gerror option \<Rightarrow> 'f pushrun \<Rightarrow> 'f pushrun" where
  "Pusher_scan unmarshal scan_err r =
     (case pr_input r of
        [] \<Rightarrow> r\<lparr>pr_cancelled := True, pr_progress := Ran scan_err\<rparr>
      | line # rest \<Rightarrow>
          if pr_cancelled r then r\<lparr>pr_input := rest, pr_progress := Ran (Some ctx_Err)\<rparr>
          else let r1 = r\<lparr>pr_input := rest, pr_read := pr_read r @ [line]\<rparr>
               in case push_line unmarshal (pr_pusher r) line of
                    None \<Rightarrow> r1
                  | Some out \<Rightarrow> set_batcher (Report [out] (batcher r)) r1)"

definition Pusher_Cleanup :: "'f pushrun \<Rightarrow> 'f pushrun outcome" where
  "Pusher_Cleanup r = obind (Close (batcher r)) (\<lambda>br. Returns (set_batcher br r))"

inductive push_step :: "(string \<Rightarrow> gerror + 'f LogIn) \<Rightarrow> gerror option \<Rightarrow> 'f pushrun \<Rightarrow> 'f pushrun \<Rightarrow> bool"
  for unmarshal scan_err where
  scan: "pr_progress r = Scanning \<Longrightarrow> br_calls (batcher r) = [] \<Longrightarrow>
    push_step unmarshal scan_err r (Pusher_scan unmarshal scan_err r)"
| cancel: "push_step unmarshal scan_err r (r\<lparr>pr_cancelled := True\<rparr>)"
| report: "report_step (batcher r) br \<Longrightarrow> push_step unmarshal scan_err r (set_batcher br r)"
| flush: "flusher_step (batcher r) br \<Longrightarrow> push_step unmarshal scan_err r (set_batcher br r)"
| cleanup: "pr_progress r = Ran e \<Longrightarrow> Pusher_Cleanup r = Returns r' \<Longrightarrow> push_step unmarshal scan_err r (r'\<lparr>pr_progress := Cleaning e\<rparr>)"
| cleaned: "pr_progress r = Cleaning e \<Longrightarrow> Close_done (batcher r) \<Longrightarrow> push_step unmarshal scan_err r (r\<lparr>pr_progress := Cleaned e\<rparr>)"

definition push_start :: "'f Pusher \<Rightarrow> string list \<Rightarrow> 'f pushrun" where
  "push_start p input = \<lparr>pr_pusher = p, pr_input = input, pr_read = [], pr_cancelled = False, pr_progress = Scanning\<rparr>"

section \<open>Every line is delivered\<close>

abbreviation pushed :: "(string \<Rightarrow> gerror + 'f LogIn) \<Rightarrow> 'f Pusher \<Rightarrow> string list \<Rightarrow> 'f Log list" where
  "pushed unmarshal p lines \<equiv> List.map_filter (push_line unmarshal p) lines"

lemma push_line_batcher [simp]: "push_line unmarshal (p\<lparr>pu_Batcher := br\<rparr>) = push_line unmarshal p"
  by (rule ext) (auto simp: push_line_def split: sum.splits)

text \<open>How the lines that were read relate to the input, and to the error that Run returns.\<close>

definition read_up_to :: "gerror option \<Rightarrow> string list \<Rightarrow> string list \<Rightarrow> gerror option \<Rightarrow> bool" where
  "read_up_to scan_err input lines e \<longleftrightarrow>
     e = scan_err \<and> lines = input \<or> e = Some ctx_Err \<and> (\<exists>line rest. input = lines @ line # rest)"

fun scanned :: "gerror option \<Rightarrow> string list \<Rightarrow> string list \<Rightarrow> string list \<Rightarrow> progress \<Rightarrow> bool" where
  "scanned scan_err input lines rest Scanning = (input = lines @ rest)"
| "scanned scan_err input lines rest (Ran e) = read_up_to scan_err input lines e"
| "scanned scan_err input lines rest (Cleaning e) = read_up_to scan_err input lines e"
| "scanned scan_err input lines rest (Cleaned e) = read_up_to scan_err input lines e"

text \<open>
  What was read was accepted, but for the one call of Report in progress, which ends before Run does; then
  nothing is accepted any more.
\<close>

definition push_inv :: "(string \<Rightarrow> gerror + 'f LogIn) \<Rightarrow> gerror option \<Rightarrow> 'f Pusher \<Rightarrow> string list \<Rightarrow> 'f pushrun \<Rightarrow> bool" where
  "push_inv unmarshal scan_err p input r \<longleftrightarrow>
     reporter_inv (batcher r) \<and> push_line unmarshal (pr_pusher r) = push_line unmarshal p \<and>
     pushed unmarshal p (pr_read r) = br_accepted (batcher r) @ concat (br_calls (batcher r)) \<and>
     length (br_calls (batcher r)) \<le> 1 \<and>
     scanned scan_err input (pr_read r) (pr_input r) (pr_progress r) \<and>
     (pr_progress r \<noteq> Scanning \<longrightarrow> br_calls (batcher r) = []) \<and>
     (br_closed (batcher r) \<longleftrightarrow> pr_progress r \<noteq> Scanning \<and> (\<forall>e. pr_progress r \<noteq> Ran e)) \<and>
     (\<forall>e. pr_progress r = Cleaned e \<longrightarrow> br_flusher (batcher r) = Finished) \<and>
     (br_closed (batcher r) \<and> br_flusher (batcher r) \<noteq> Finished \<longrightarrow> length (br_batch (batcher r)) + length (br_entryChan (batcher r)) < 1000) \<and>
     (br_flusher (batcher r) = Finished \<longrightarrow> br_entryChan (batcher r) = [] \<and> (\<forall>b \<in> set (br_posted (batcher r)). length b < 1000))"

lemma push_inv_start:
  "pu_Batcher p = NewBatchReporter a sf \<Longrightarrow> push_inv unmarshal scan_err p input (push_start p input)"
  using reporter_inv_new [of a sf]
  by (simp add: push_inv_def push_start_def NewBatchReporter_def List.map_filter_simps)

lemma set_batcher_simps [simp]:
  "batcher (set_batcher br r) = br" "pr_input (set_batcher br r) = pr_input r" "pr_read (set_batcher br r) = pr_read r"
  "pr_cancelled (set_batcher br r) = pr_cancelled r" "pr_progress (set_batcher br r) = pr_progress r"
  "push_line unmarshal (pr_pusher (set_batcher br r)) = push_line unmarshal (pr_pusher r)"
  by (simp_all add: set_batcher_def)

text \<open>A reporter step of either kind, seen from the command.\<close>

lemma push_inv_report:
  assumes inv: "push_inv unmarshal scan_err p input r" and step: "report_step (batcher r) br"
  shows "push_inv unmarshal scan_err p input (set_batcher br r)"
proof -
  have calls: "length (br_calls (batcher r)) \<le> 1" and scanning: "br_calls (batcher r) \<noteq> [] \<longrightarrow> pr_progress r = Scanning"
    using inv by (auto simp: push_inv_def)
  from step have ne: "br_calls (batcher r) \<noteq> []" by cases auto
  with scanning inv have open1: "\<not> br_closed (batcher r)" "br_flusher (batcher r) = Flushing"
    unfolding push_inv_def reporter_inv_def by auto
  have rep: "reporter_inv br" using reporter_inv_report_step [OF step] inv by (simp add: push_inv_def)
  from calls ne obtain c where c: "br_calls (batcher r) = [c]" by (cases "br_calls (batcher r)") auto
  from step show ?thesis
    using inv rep open1 c scanning ne by cases (auto simp: push_inv_def)
qed

lemma push_inv_flush:
  assumes inv: "push_inv unmarshal scan_err p input r" and step: "flusher_step (batcher r) br"
  shows "push_inv unmarshal scan_err p input (set_batcher br r)"
proof -
  have rep: "reporter_inv br" and old: "reporter_inv (batcher r)"
    using reporter_inv_flusher_step [OF step] inv by (simp_all add: push_inv_def)
  have nf: "br_flusher (batcher r) \<noteq> Finished" using step by cases auto
  have same: "br_accepted br = br_accepted (batcher r)" "br_calls br = br_calls (batcher r)" "br_closed br = br_closed (batcher r)"
    using step by (cases; auto simp: flush_entry_def flush_tick_def send_def Let_def split: list.splits)+
  have size: "length (br_batch br) + length (br_entryChan br) \<le> length (br_batch (batcher r)) + length (br_entryChan (batcher r))"
    using step by cases (auto simp: flush_entry_def flush_tick_def send_def Let_def split: list.splits)
  have fin: "br_entryChan br = [] \<and> (\<forall>b \<in> set (br_posted br). length b < 1000)" if "br_flusher br = Finished"
  proof -
    from step that have d: "br_flusher (batcher r) = Draining" "br = drain_step (batcher r)" "br_entryChan (batcher r) = []"
      by (cases; auto simp: flush_entry_def flush_tick_def send_def Let_def split: list.splits if_splits)+
    have "br_closed (batcher r)" using old d by (simp add: reporter_inv_def)
    then have "length (br_batch (batcher r)) < 1000" using inv nf d by (simp add: push_inv_def)
    moreover have "\<forall>b \<in> set (br_posted (batcher r)). length b < 1000"
      using old d by (fastforce simp: reporter_inv_def MAX_BATCH_def)
    ultimately show ?thesis using d by (auto simp: flush_tick_def send_def)
  qed
  show ?thesis using inv rep nf same size fin by (auto simp: push_inv_def)
qed

lemma push_inv_scan:
  assumes inv: "push_inv unmarshal scan_err p input r" and scan: "pr_progress r = Scanning" "br_calls (batcher r) = []"
  shows "push_inv unmarshal scan_err p input (Pusher_scan unmarshal scan_err r)"
proof (cases "pr_input r")
  case Nil
  then show ?thesis using assms by (auto simp: push_inv_def Pusher_scan_def read_up_to_def)
next
  case (Cons line rest)
  note read = this
  show ?thesis
  proof (cases "pr_cancelled r")
    case True
    then show ?thesis using assms Cons by (auto simp: push_inv_def Pusher_scan_def read_up_to_def)
  next
    case False
    show ?thesis
    proof (cases "push_line unmarshal (pr_pusher r) line")
      case None
      then show ?thesis using assms read False by (auto simp: push_inv_def Pusher_scan_def List.map_filter_def)
    next
      case (Some out)
      have "reporter_inv (Report [out] (batcher r))" using inv by (simp add: push_inv_def reporter_inv_Report)
      then show ?thesis using assms read False Some
        by (auto simp: push_inv_def Pusher_scan_def List.map_filter_def Report_def)
    qed
  qed
qed

lemma push_inv_step:
  assumes "push_step unmarshal scan_err r r'" and "push_inv unmarshal scan_err p input r"
  shows "push_inv unmarshal scan_err p input r'"
  using assms
proof cases
  case scan
  then show ?thesis using push_inv_scan [OF assms(2)] by simp
next
  case cancel
  then show ?thesis using assms(2) by (auto simp: push_inv_def)
next
  case (report br)
  then show ?thesis using push_inv_report [OF assms(2)] by simp
next
  case (flush br)
  then show ?thesis using push_inv_flush [OF assms(2)] by simp
next
  case (cleanup e q)
  then obtain br where br: "Close (batcher r) = Returns br" and q: "q = set_batcher br r"
    by (auto simp: Pusher_Cleanup_def obind_Returns_iff)
  have rep: "reporter_inv br" using reporter_inv_Close [OF _ br] assms(2) by (simp add: push_inv_def)
  have "br_flusher (batcher r) = Flushing"
    using assms(2) br by (auto simp: push_inv_def reporter_inv_def Close_def split: if_splits)
  then have "length (br_batch (batcher r)) + length (br_entryChan (batcher r)) < 1000"
    using assms(2) by (auto simp: push_inv_def reporter_inv_def MAX_BATCH_def)
  moreover have "br = (batcher r)\<lparr>br_closed := True\<rparr>" using br by (simp add: Close_def split: if_splits)
  ultimately show ?thesis using assms(2) rep cleanup(2) unfolding cleanup(1) q push_inv_def by simp
next
  case (cleaned e)
  then show ?thesis using assms(2) by (auto simp: push_inv_def Close_done_def)
qed

interpretation pushes: step_invariant "push_step unmarshal scan_err" "push_inv unmarshal scan_err p input" True
  by unfold_locales (rule push_inv_step)

lemma push_inv_run:
  assumes "(push_step unmarshal scan_err)\<^sup>*\<^sup>* (push_start p input) r" and "pu_Batcher p = NewBatchReporter a sf"
  shows "push_inv unmarshal scan_err p input r"
  by (rule pushes.star_inv [OF TrueI assms(1) push_inv_start [OF assms(2)]])

text \<open>
  C36: However the command, the flusher and the clock interleave, once Cleanup has returned every entry of the
  lines that were read has been posted exactly once and in order, as the lines that one batch of them all would be.
  These are all lines of the input, or, when Run
  returned the error of the context, those before the line at which the context was found to have ended. No batch is empty, every batch but the last has at most
  500 entries, and the last at most 999.
\<close>

theorem pusher_delivers:
  fixes unmarshal :: "string \<Rightarrow> gerror + 'f LogIn"
  assumes "(push_step unmarshal scan_err)\<^sup>*\<^sup>* (push_start (NewPusher address stream subStream) input) r"
    and "pr_progress r = Cleaned e"
  shows "concat (br_posted (batcher r)) = pushed unmarshal (NewPusher address stream subStream) (pr_read r) \<and>
    concat (map (json_lines H) (br_posted (batcher r))) =
      json_lines H (pushed unmarshal (NewPusher address stream subStream) (pr_read r)) \<and>
    read_up_to scan_err input (pr_read r) e \<and>
    [] \<notin> set (br_posted (batcher r)) \<and> (\<forall>b \<in> set (butlast (br_posted (batcher r))). length b \<le> MAX_BATCH) \<and>
    (\<forall>b \<in> set (br_posted (batcher r)). length b < 1000)"
proof -
  let ?p = "NewPusher address stream subStream :: 'f Pusher"
  obtain sf where "pu_Batcher ?p = NewBatchReporter address sf" by (simp add: NewPusher_def Let_def)
  from push_inv_run [OF assms(1) this] have inv: "push_inv unmarshal scan_err ?p input r" .
  then have fin: "br_flusher (batcher r) = Finished" "br_calls (batcher r) = []" "br_entryChan (batcher r) = []"
    and rep: "reporter_inv (batcher r)"
    using assms(2) by (auto simp: push_inv_def)
  then show ?thesis using inv assms(2) unfolding push_inv_def reporter_inv_def
    by (auto simp: json_lines_concat [symmetric])
qed

section \<open>Cleanup returns\<close>

text \<open>The flusher of a closed reporter with no call in progress needs one step per entry in the channel, and two more.\<close>

lemma drains:
  "br_flusher br = Draining \<Longrightarrow> \<exists>br'. (flusher_step ^^ Suc (length (br_entryChan br))) br br' \<and> br_flusher br' = Finished"
proof (induction "br_entryChan br" arbitrary: br)
  case Nil
  then have "flusher_step br (drain_step br)" "br_flusher (drain_step br) = Finished"
    using flusher_step.drain [of br] by (simp_all add: Nil(1)[symmetric])
  then show ?case using Nil(1)[symmetric] by auto
next
  case (Cons e es)
  let ?br = "drain_step br"
  have d: "br_entryChan ?br = es" "br_flusher ?br = Draining" using Cons(2,3) by (auto split: list.splits)
  obtain br' where "(flusher_step ^^ Suc (length es)) ?br br'" "br_flusher br' = Finished"
    using Cons(1) [of ?br] d by auto
  then have "(flusher_step ^^ Suc (Suc (length es))) br br'"
    using relpowp_Suc_I2 [of flusher_step br ?br "Suc (length es)" br'] flusher_step.drain [OF Cons(3)] by blast
  moreover have "length (br_entryChan br) = Suc (length es)" using Cons(2)[symmetric] by simp
  ultimately show ?case using \<open>br_flusher br' = Finished\<close> by metis
qed

lemma closed_reporter_finishes:
  assumes "br_closed br" and "br_flusher br = Flushing"
  shows "\<exists>br'. (flusher_step ^^ (length (br_entryChan br) + 2)) br br' \<and> Close_done br'"
proof -
  have "flusher_step br (br\<lparr>br_flusher := Draining\<rparr>)" by (rule flusher_step.closing [OF assms(2,1)])
  moreover obtain br' where "(flusher_step ^^ Suc (length (br_entryChan br))) (br\<lparr>br_flusher := Draining\<rparr>) br'" "br_flusher br' = Finished"
    using drains [of "br\<lparr>br_flusher := Draining\<rparr>"] by auto
  ultimately show ?thesis
    by (intro exI [of _ br']) (auto simp: Close_done_def simp del: relpowp.simps intro: relpowp_Suc_I2)
qed

text \<open>A reporter that has been closed may still take entries into its channel, which nobody will post.\<close>

lemma late_entry_lost:
  assumes "br_flusher br = Finished" and "br_calls br = [[x]]" and "br_entryChan br = []"
  shows "\<exists>br'. report_step br br' \<and> br_entryChan br' = [x] \<and> (\<forall>br2. \<not> flusher_step br' br2)"
proof -
  let ?br = "br\<lparr>br_entryChan := br_entryChan br @ [x], br_accepted := br_accepted br @ [x], br_calls := (br_calls br)[0 := []]\<rparr>"
  have "report_step br ?br" by (rule report_step.sent) (use assms in \<open>simp_all add: can_send_def\<close>)
  moreover have "\<not> flusher_step ?br br2" for br2 using assms(1) by (auto elim: flusher_step.cases)
  ultimately show ?thesis using assms(3) by (intro exI [of _ ?br]) simp
qed

section \<open>A small run\<close>

text \<open>Two lines, one of them empty, and then the end of the input.\<close>

definition small_unmarshal :: "string \<Rightarrow> gerror + nat LogIn" where
  "small_unmarshal s = Inr \<lparr>li_Latency = 3, li_Timestamp = 7, li_Thread = 1, li_Iter = 2, li_Details = s\<rparr>"

abbreviation small_pusher :: "nat Pusher" where
  "small_pusher \<equiv> NewPusher ''vl'' ''victoriapush'' ''''"

definition small_log :: "nat Log" where
  "small_log = \<lparr>lo_Message = ''a'', lo_Time = 7, lo_Value = 3, lo_Stream = ''victoriapush'', lo_Substream = ''''\<rparr>"

lemma pusher_delivers_witness:
  "\<exists>r. (push_step small_unmarshal None)\<^sup>*\<^sup>* (push_start small_pusher ['''', ''a'']) r \<and>
     pr_progress r = Cleaned None \<and> concat (br_posted (batcher r)) = [small_log]"
proof -
  let ?S = "push_step small_unmarshal None"
  let ?st = "\<lambda>input read c prog chan closed fl batch calls posted acc.
     \<lparr>pr_pusher = \<lparr>pu_Batcher = \<lparr>br_address = ''vl'', br_streamFields = [''stream''], br_entryChan = chan, br_closed = closed,
        br_flusher = fl, br_batch = batch, br_calls = calls, br_posted = posted, br_accepted = acc\<rparr>,
        pu_Stream = ''victoriapush'', pu_SubStream = ''''\<rparr>, pr_input = input, pr_read = read, pr_cancelled = c, pr_progress = prog\<rparr>"
  let ?x = small_log
  note ev = Pusher_scan_def push_line_def small_unmarshal_def small_log_def set_batcher_def Report_def
  have s0: "push_start small_pusher ['''', ''a''] = ?st ['''', ''a''] [] False Scanning [] False Flushing [] [] [] []"
    by (simp add: push_start_def NewPusher_def NewBatchReporter_def Let_def)
  have s1: "?S (?st ['''', ''a''] [] False Scanning [] False Flushing [] [] [] []) (?st [''a''] [''''] False Scanning [] False Flushing [] [] [] [])"
    using push_step.scan [of "?st ['''', ''a''] [] False Scanning [] False Flushing [] [] [] []" small_unmarshal None] by (simp add: ev)
  have s2: "?S (?st [''a''] [''''] False Scanning [] False Flushing [] [] [] []) (?st [] ['''', ''a''] False Scanning [] False Flushing [] [[?x]] [] [])"
    using push_step.scan [of "?st [''a''] [''''] False Scanning [] False Flushing [] [] [] []" small_unmarshal None] by (simp add: ev)
  have s3: "?S (?st [] ['''', ''a''] False Scanning [] False Flushing [] [[?x]] [] []) (?st [] ['''', ''a''] False Scanning [?x] False Flushing [] [[]] [] [?x])"
    using push_step.report [OF report_step.sent [of 0 "batcher (?st [] ['''', ''a''] False Scanning [] False Flushing [] [[?x]] [] [])" ?x "[]"]]
    by (simp add: set_batcher_def can_send_def)
  have s4: "?S (?st [] ['''', ''a''] False Scanning [?x] False Flushing [] [[]] [] [?x]) (?st [] ['''', ''a''] False Scanning [?x] False Flushing [] [] [] [?x])"
    using push_step.report [OF report_step.returned [of 0 "batcher (?st [] ['''', ''a''] False Scanning [?x] False Flushing [] [[]] [] [?x])"]]
    by (simp add: set_batcher_def)
  have s5: "?S (?st [] ['''', ''a''] False Scanning [?x] False Flushing [] [] [] [?x]) (?st [] ['''', ''a''] True (Ran None) [?x] False Flushing [] [] [] [?x])"
    using push_step.scan [of "?st [] ['''', ''a''] False Scanning [?x] False Flushing [] [] [] [?x]" small_unmarshal None] by (simp add: Pusher_scan_def)
  have c6: "Pusher_Cleanup (?st [] ['''', ''a''] True (Ran None) [?x] False Flushing [] [] [] [?x]) =
      Returns (?st [] ['''', ''a''] True (Ran None) [?x] True Flushing [] [] [] [?x])"
    by (simp add: Pusher_Cleanup_def Close_def set_batcher_def)
  have s6: "?S (?st [] ['''', ''a''] True (Ran None) [?x] False Flushing [] [] [] [?x]) (?st [] ['''', ''a''] True (Cleaning None) [?x] True Flushing [] [] [] [?x])"
    using push_step.cleanup [OF _ c6, of None small_unmarshal None] by simp
  have s7: "?S (?st [] ['''', ''a''] True (Cleaning None) [?x] True Flushing [] [] [] [?x]) (?st [] ['''', ''a''] True (Cleaning None) [?x] True Draining [] [] [] [?x])"
    using push_step.flush [OF flusher_step.closing [of "batcher (?st [] ['''', ''a''] True (Cleaning None) [?x] True Flushing [] [] [] [?x])"]]
    by (simp add: set_batcher_def)
  have s8: "?S (?st [] ['''', ''a''] True (Cleaning None) [?x] True Draining [] [] [] [?x]) (?st [] ['''', ''a''] True (Cleaning None) [] True Draining [?x] [] [] [?x])"
    using push_step.flush [OF flusher_step.drain [of "batcher (?st [] ['''', ''a''] True (Cleaning None) [?x] True Draining [] [] [] [?x])"]]
    by (simp add: set_batcher_def)
  have s9: "?S (?st [] ['''', ''a''] True (Cleaning None) [] True Draining [?x] [] [] [?x]) (?st [] ['''', ''a''] True (Cleaning None) [] True Finished [] [] [[?x]] [?x])"
    using push_step.flush [OF flusher_step.drain [of "batcher (?st [] ['''', ''a''] True (Cleaning None) [] True Draining [?x] [] [] [?x])"]]
    by (simp add: set_batcher_def flush_tick_def send_def)
  have s10: "?S (?st [] ['''', ''a''] True (Cleaning None) [] True Finished [] [] [[?x]] [?x]) (?st [] ['''', ''a''] True (Cleaned None) [] True Finished [] [] [[?x]] [?x])"
    using push_step.cleaned [of "?st [] ['''', ''a''] True (Cleaning None) [] True Finished [] [] [[?x]] [?x]"] by (simp add: Close_done_def)
  let ?r = "?st [] ['''', ''a''] True (Cleaned None) [] True Finished [] [] [[?x]] [?x]"
  have run: "?S\<^sup>*\<^sup>* (push_start small_pusher ['''', ''a'']) ?r"
    unfolding s0 using s1 s2 s3 s4 s5 s6 s7 s8 s9 s10 by (meson converse_rtranclp_into_rtranclp rtranclp.rtrancl_refl)
  have "pr_progress ?r = Cleaned None" by simp
  from pusher_delivers [OF run this] have "concat (br_posted (batcher ?r)) = pushed small_unmarshal small_pusher ['''', ''a'']" by simp
  then show ?thesis using run by (intro exI [of _ ?r]) simp
qed

end
