(* ===== verification/Go_Duration.thy ===== *)
theory Go_Duration
  imports Go_Prelude
begin

text \<open>
  Durations of Go's package time: their printed form (\<open>Duration.String\<close>) and its reading
  (\<open>time.ParseDuration\<close>), digit by digit, with the overflow tests. A duration is an \<open>int\<close> in the range of
  64 bits; the sums of 64 bits that may wrap do so. The one floating point product is a parameter.
\<close>

section \<open>Printing\<close>

definition Microsecond :: nat where "Microsecond = 10 ^ 3"
definition Millisec :: nat where "Millisec = 10 ^ 6"
definition Second :: nat where "Second = 10 ^ 9"

lemmas unit_defs = Microsecond_def Millisec_def Second_def

text \<open>\<open>fmtFrac\<close>: the last \<open>prec\<close> digits as a fraction without trailing zeros; \<open>buf\<close> is what is printed already.\<close>

fun fmtFrac_loop :: "nat \<Rightarrow> nat \<Rightarrow> bool \<Rightarrow> string \<Rightarrow> string \<times> nat" where
  "fmtFrac_loop 0 v print buf = ((if print then CHR ''.'' # buf else buf), v)"
| "fmtFrac_loop (Suc n) v print buf =
     (let digit = v mod 10; print1 = (print \<or> digit \<noteq> 0)
      in fmtFrac_loop n (v div 10) print1 (if print1 then digit_char digit # buf else buf))"

definition fmtFrac :: "string \<Rightarrow> nat \<Rightarrow> nat \<Rightarrow> string \<times> nat" where
  "fmtFrac buf v prec = fmtFrac_loop prec v False buf"

definition micro :: string where
  "micro = [CHR 0xC2, CHR 0xB5]"

definition Duration_String :: "int \<Rightarrow> string" where
  "Duration_String d =
     (let u = nat \<bar>d\<bar>;
          buf = (if u < Second then
              (if u = 0 then ''0s''
               else let (unit, prec) = (if u < Microsecond then (''ns'', 0) else if u < Millisec then (micro @ ''s'', 3) else (''ms'', 6));
                        (buf1, v) = fmtFrac unit u prec
                    in itoa v @ buf1)
            else
              (let (buf1, v) = fmtFrac ''s'' u 9;
                   buf2 = itoa (v mod 60) @ buf1;
                   v1 = v div 60
               in if v1 > 0 then
                    (let buf3 = itoa (v1 mod 60) @ ''m'' @ buf2; v2 = v1 div 60
                     in if v2 > 0 then itoa v2 @ ''h'' @ buf3 else buf3)
                  else buf2))
      in if d < 0 then CHR ''-'' # buf else buf)"

section \<open>Reading\<close>

text \<open>\<open>quote\<close>: quotes and backslashes escaped, bytes outside of printable ASCII in hexadecimal.\<close>

definition lowerhex :: "nat \<Rightarrow> char" where
  "lowerhex n = ''0123456789abcdef'' ! n"

definition quote_byte :: "char \<Rightarrow> string" where
  "quote_byte c =
     (let b = of_char c :: nat in
      if b \<ge> 128 \<or> b < 32 then [CHR 0x5C, CHR ''x'', lowerhex (b div 16), lowerhex (b mod 16)]
      else if c = CHR 0x22 \<or> c = CHR 0x5C then [CHR 0x5C, c] else [c])"

definition quote :: "string \<Rightarrow> string" where
  "quote s = CHR 0x22 # concat (map quote_byte s) @ [CHR 0x22]"

definition is_digit :: "char \<Rightarrow> bool" where
  "is_digit c \<longleftrightarrow> 48 \<le> (of_char c :: nat) \<and> (of_char c :: nat) \<le> 57"

text \<open>\<open>leadingInt\<close>: None on overflow.\<close>

fun leadingInt :: "nat \<Rightarrow> string \<Rightarrow> (nat \<times> string) option" where
  "leadingInt x [] = Some (x, [])"
| "leadingInt x (c # s) =
     (if \<not> is_digit c then Some (x, c # s)
      else if x > 2 ^ 63 div 10 then None
      else let x1 = x * 10 + char_digit c in if x1 > 2 ^ 63 then None else leadingInt x1 s)"

text \<open>\<open>leadingFraction\<close>: digits that would overflow are skipped.\<close>

fun leadingFraction :: "nat \<Rightarrow> nat \<Rightarrow> bool \<Rightarrow> string \<Rightarrow> nat \<times> nat \<times> string" where
  "leadingFraction x scale overflow [] = (x, scale, [])"
| "leadingFraction x scale overflow (c # s) =
     (if \<not> is_digit c then (x, scale, c # s)
      else if overflow then leadingFraction x scale overflow s
      else if x > (2 ^ 63 - 1) div 10 then leadingFraction x scale True s
      else let y = x * 10 + char_digit c
           in if y > 2 ^ 63 then leadingFraction x scale True s else leadingFraction y (scale * 10) False s)"

definition unitMap :: "string \<Rightarrow> nat option" where
  "unitMap u =
     (if u = ''ns'' then Some 1
      else if u = ''us'' \<or> u = micro @ ''s'' \<or> u = [CHR 0xCE, CHR 0xBC] @ ''s'' then Some (10 ^ 3)
      else if u = ''ms'' then Some (10 ^ 6)
      else if u = ''s'' then Some (10 ^ 9)
      else if u = ''m'' then Some (60 * 10 ^ 9)
      else if u = ''h'' then Some (3600 * 10 ^ 9)
      else None)"

definition invalid_duration :: "string \<Rightarrow> gerror" where
  "invalid_duration orig = ErrText (''time: invalid duration '' @ quote orig)"

definition unit_end :: "char \<Rightarrow> bool" where
  "unit_end c \<longleftrightarrow> c = CHR ''.'' \<or> is_digit c"

text \<open>The optional fraction; whether it has digits.\<close>

definition parse_fraction :: "string \<Rightarrow> nat \<times> nat \<times> string \<times> bool" where
  "parse_fraction s =
     (if s \<noteq> [] \<and> hd s = CHR ''.'' then
        (case leadingFraction 0 1 False (tl s) of (f, scale, r) \<Rightarrow> (f, scale, r, length (tl s) \<noteq> length r))
      else (0, 1, s, False))"

text \<open>The unit and the value; \<open>fl f unit scale\<close> is \<open>uint64(float64(f) * (float64(unit) / scale))\<close>.\<close>

definition parse_unit :: "(nat \<Rightarrow> nat \<Rightarrow> nat \<Rightarrow> nat) \<Rightarrow> string \<Rightarrow> nat \<Rightarrow> nat \<Rightarrow> nat \<Rightarrow> string \<Rightarrow> gerror + nat \<times> string" where
  "parse_unit fl orig v f scale s =
     (let u = takeWhile (\<lambda>c. \<not> unit_end c) s; r = dropWhile (\<lambda>c. \<not> unit_end c) s
      in if u = [] then Inl (ErrText (''time: missing unit in duration '' @ quote orig))
         else case unitMap u of
             None \<Rightarrow> Inl (ErrText (''time: unknown unit '' @ quote u @ '' in duration '' @ quote orig))
           | Some unit \<Rightarrow>
               if v > 2 ^ 63 div unit then Inl (invalid_duration orig)
               else let v1 = v * unit; v2 = (if f > 0 then v1 + fl f unit scale else v1)
                    in if f > 0 \<and> v2 > 2 ^ 63 then Inl (invalid_duration orig) else Inr (v2, r))"

text \<open>One number with its unit, for a non-empty \<open>s\<close>: its value and the rest.\<close>

definition parse_part :: "(nat \<Rightarrow> nat \<Rightarrow> nat \<Rightarrow> nat) \<Rightarrow> string \<Rightarrow> string \<Rightarrow> gerror + nat \<times> string" where
  "parse_part fl orig s =
     (if \<not> unit_end (hd s) then Inl (invalid_duration orig)
      else case leadingInt 0 s of
          None \<Rightarrow> Inl (invalid_duration orig)
        | Some (v, s1) \<Rightarrow>
            (case parse_fraction s1 of (f, scale, s2, post) \<Rightarrow>
               if length s = length s1 \<and> \<not> post then Inl (invalid_duration orig) else parse_unit fl orig v f scale s2))"

lemma leadingInt_length: "leadingInt x s = Some (v, r) \<Longrightarrow> length r \<le> length s"
  by (induction x s rule: leadingInt.induct) (auto split: if_splits simp: Let_def)

lemma leadingFraction_length: "leadingFraction x sc ov s = (f, sc', r) \<Longrightarrow> length r \<le> length s"
  by (induction x sc ov s rule: leadingFraction.induct) (auto split: if_splits simp: Let_def)

lemma parse_fraction_length: "parse_fraction s = (f, sc, r, post) \<Longrightarrow> length r \<le> length s"
  using leadingFraction_length [of 0 1 False "List.tl s"] by (fastforce simp: parse_fraction_def split: if_splits prod.splits)

lemma parse_unit_length:
  assumes "parse_unit fl orig v f sc s = Inr (x, r)"
  shows "length r < length s"
proof -
  have "takeWhile (\<lambda>c. \<not> unit_end c) s \<noteq> []" and r: "r = dropWhile (\<lambda>c. \<not> unit_end c) s"
    using assms by (auto simp: parse_unit_def Let_def split: if_splits option.splits)
  then have "0 < length (takeWhile (\<lambda>c. \<not> unit_end c) s)" by simp
  moreover have "length (takeWhile (\<lambda>c. \<not> unit_end c) s) + length r = length s"
    unfolding r by (metis length_append takeWhile_dropWhile_id)
  ultimately show ?thesis by linarith
qed

lemma parse_part_length:
  assumes "parse_part fl orig s = Inr (v, r)"
  shows "length r < length s"
proof -
  obtain x s1 where l: "leadingInt 0 s = Some (x, s1)" using assms by (auto simp: parse_part_def split: if_splits option.splits)
  obtain f sc s2 post where f: "parse_fraction s1 = (f, sc, s2, post)" by (metis prod_cases4)
  have "parse_unit fl orig x f sc s2 = Inr (v, r)" using assms l f by (auto simp: parse_part_def split: if_splits)
  then show ?thesis
    using parse_unit_length leadingInt_length [OF l] parse_fraction_length [OF f] by (meson le_trans less_le_trans)
qed

function parse_parts :: "(nat \<Rightarrow> nat \<Rightarrow> nat \<Rightarrow> nat) \<Rightarrow> string \<Rightarrow> nat \<Rightarrow> string \<Rightarrow> gerror + nat" where
  "parse_parts fl orig d s =
     (if s = [] then Inr d
      else case parse_part fl orig s of
          Inl err \<Rightarrow> Inl err
        | Inr (v, s1) \<Rightarrow>
            let d1 = (d + v) mod 2 ^ 64
            in if d1 > 2 ^ 63 then Inl (invalid_duration orig) else parse_parts fl orig d1 s1)"
  by pat_completeness auto

termination
  by (relation "measure (\<lambda>(fl, orig, d, s). length s)") (auto dest: parse_part_length)

declare parse_parts.simps [simp del]

definition ParseDuration :: "(nat \<Rightarrow> nat \<Rightarrow> nat \<Rightarrow> nat) \<Rightarrow> string \<Rightarrow> gerror + int" where
  "ParseDuration fl orig =
     (let (neg, s) = (case orig of c # r \<Rightarrow> if c = CHR ''-'' \<or> c = CHR ''+'' then (c = CHR ''-'', r) else (False, orig) | [] \<Rightarrow> (False, orig))
      in if s = ''0'' then Inr 0
         else if s = [] then Inl (invalid_duration orig)
         else case parse_parts fl orig 0 s of
             Inl err \<Rightarrow> Inl err
           | Inr d \<Rightarrow> if neg then Inr (- int d)
                     else if d > 2 ^ 63 - 1 then Inl (invalid_duration orig) else Inr (int d))"

section \<open>Digits\<close>

lemma is_digit_digit_char: "d < 10 \<Longrightarrow> is_digit (digit_char d)"
  by (simp add: is_digit_def digit_char_in_range)

lemma itoa_digits: "c \<in> set (itoa n) \<Longrightarrow> is_digit c"
  using itoa_chars by (fastforce simp: is_digit_def)

lemma foldl_digits_mono: "x \<le> foldl (\<lambda>n c. 10 * n + char_digit c) x s"
proof (induction s arbitrary: x)
  case (Cons c s)
  have "x \<le> 10 * x + char_digit c" by simp
  also have "\<dots> \<le> foldl (\<lambda>n c. 10 * n + char_digit c) (10 * x + char_digit c) s" by (rule Cons)
  finally show ?case by simp
qed simp

text \<open>What stops the reading of digits.\<close>

definition no_digit :: "string \<Rightarrow> bool" where
  "no_digit r \<longleftrightarrow> (case r of [] \<Rightarrow> True | c # cs \<Rightarrow> \<not> is_digit c)"

lemma leadingInt_digits:
  "\<forall>c \<in> set s. is_digit c \<Longrightarrow> no_digit r \<Longrightarrow> foldl (\<lambda>n c. 10 * n + char_digit c) x s \<le> 2 ^ 63 \<Longrightarrow>
     leadingInt x (s @ r) = Some (foldl (\<lambda>n c. 10 * n + char_digit c) x s, r)"
proof (induction s arbitrary: x)
  case Nil
  then show ?case by (cases r) (auto simp: no_digit_def)
next
  case (Cons c s)
  have "10 * x + char_digit c \<le> 2 ^ 63"
    using foldl_digits_mono [of "10 * x + char_digit c" s] Cons.prems(3) by simp
  then have "x \<le> 2 ^ 63 div 10" by simp
  then show ?case using Cons \<open>10 * x + char_digit c \<le> 2 ^ 63\<close> by (simp add: mult.commute Let_def)
qed

lemma leadingFraction_digits:
  "\<forall>c \<in> set s. is_digit c \<Longrightarrow> no_digit r \<Longrightarrow> foldl (\<lambda>n c. 10 * n + char_digit c) x s < 2 ^ 63 \<Longrightarrow>
     leadingFraction x sc False (s @ r) = (foldl (\<lambda>n c. 10 * n + char_digit c) x s, sc * 10 ^ length s, r)"
proof (induction s arbitrary: x sc)
  case Nil
  then show ?case by (cases r) (auto simp: no_digit_def)
next
  case (Cons c s)
  have "10 * x + char_digit c < 2 ^ 63"
    using foldl_digits_mono [of "10 * x + char_digit c" s] Cons.prems(3) by simp
  then have "leadingFraction x sc False ((c # s) @ r) = leadingFraction (10 * x + char_digit c) (sc * 10) False (s @ r)"
    using Cons.prems(1) by (simp add: mult.commute Let_def)
  then show ?case using Cons by simp
qed

section \<open>The printed fraction\<close>

fun pad :: "nat \<Rightarrow> nat \<Rightarrow> string" where
  "pad 0 v = []"
| "pad (Suc n) v = pad n (v div 10) @ [digit_char (v mod 10)]"

lemma pad_props: "length (pad n v) = n" "atoi (pad n v) = v mod 10 ^ n" "c \<in> set (pad n v) \<Longrightarrow> is_digit c"
proof (induction n arbitrary: v)
  case 0
  { case 1 show ?case by simp next case 2 show ?case by (simp add: atoi_def) next case 3 then show ?case by simp }
next
  case (Suc n)
  { case 1 show ?case by (simp add: Suc) 
  next 
    case 2 
    have "v mod (10 * 10 ^ n) = 10 * (v div 10 mod 10 ^ n) + v mod 10" by (rule mod_mult2_eq)
    then show ?case by (simp add: Suc char_digit_digit_char)
  next case 3 then show ?case using Suc(3) by (auto simp: is_digit_digit_char) }
qed

lemma fmtFrac_loop_True: "fmtFrac_loop n v True buf = (CHR ''.'' # pad n v @ buf, v div 10 ^ n)"
  by (induction n arbitrary: v buf) (simp_all add: Let_def div_mult2_eq)

text \<open>Either the fraction is zero and nothing is printed, or \<open>n - k\<close> digits are.\<close>

lemma fmtFrac_loop_False:
  "fmtFrac_loop n v False buf = (buf, v div 10 ^ n) \<and> v mod 10 ^ n = 0 \<or>
   (\<exists>k < n. fmtFrac_loop n v False buf = (CHR ''.'' # pad (n - k) (v div 10 ^ k) @ buf, v div 10 ^ n) \<and>
      v mod 10 ^ n = 10 ^ k * (v div 10 ^ k mod 10 ^ (n - k)) \<and> v mod 10 ^ n \<noteq> 0)"
proof (induction n arbitrary: v)
  case 0
  then show ?case by simp
next
  case (Suc n)
  have split: "v mod 10 ^ Suc n = 10 * (v div 10 mod 10 ^ n) + v mod 10" by (simp add: mod_mult2_eq)
  have dv: "v div 10 ^ Suc n = v div 10 div 10 ^ n" by (simp only: power_Suc div_mult2_eq)
  show ?case
  proof (cases "v mod 10 = 0")
    case False
    then have "fmtFrac_loop (Suc n) v False buf = (CHR ''.'' # pad (Suc n) v @ buf, v div 10 ^ Suc n)"
      by (simp add: Let_def fmtFrac_loop_True dv del: power_Suc)
    then show ?thesis using False split by (intro disjI2 exI [of _ 0]) simp
  next
    case True
    have step: "fmtFrac_loop (Suc n) v False buf = fmtFrac_loop n (v div 10) False buf" using True by (simp add: Let_def)
    show ?thesis
    proof (cases "v div 10 mod 10 ^ n = 0")
      case zero: True
      then have "fmtFrac_loop n (v div 10) False buf = (buf, v div 10 div 10 ^ n)" using Suc [of "v div 10"] by auto
      then show ?thesis using step split True dv zero by simp
    next
      case False
      then obtain k where k: "k < n"
        "fmtFrac_loop n (v div 10) False buf = (CHR ''.'' # pad (n - k) (v div 10 div 10 ^ k) @ buf, v div 10 div 10 ^ n)"
        "v div 10 mod 10 ^ n = 10 ^ k * (v div 10 div 10 ^ k mod 10 ^ (n - k))"
        using Suc [of "v div 10"] by auto
      have dk: "v div 10 div 10 ^ k = v div 10 ^ Suc k" by (simp only: power_Suc div_mult2_eq)
      have "v mod 10 ^ Suc n = 10 ^ Suc k * (v div 10 ^ Suc k mod 10 ^ (Suc n - Suc k))"
        using k(3) unfolding split True dk by simp
      moreover have nz: "v div 10 ^ Suc k mod 10 ^ (n - k) \<noteq> 0"
        using k(3) False unfolding dk by (rule_tac notI) simp
      ultimately show ?thesis
        using step k(1,2) split True dv dk False nz by (intro disjI2 exI [of _ "Suc k"]) (simp del: power_Suc)
    qed
  qed
qed

section \<open>Reading what was printed\<close>

text \<open>
  Floating point arithmetic of 64 bits is exact where the quotient and the product are integers below
  \<open>2 ^ 53\<close>.
\<close>

definition float_documented :: "(nat \<Rightarrow> nat \<Rightarrow> nat \<Rightarrow> nat) \<Rightarrow> bool" where
  "float_documented fl \<longleftrightarrow>
     (\<forall>f unit scale. unit < 2 ^ 53 \<longrightarrow> scale dvd unit \<longrightarrow> f * (unit div scale) < 2 ^ 53 \<longrightarrow> fl f unit scale = f * (unit div scale))"

definition unit_name :: "string \<Rightarrow> bool" where
  "unit_name u \<longleftrightarrow> u \<noteq> [] \<and> (\<forall>c \<in> set u. \<not> unit_end c)"

definition starts_number :: "string \<Rightarrow> bool" where
  "starts_number r \<longleftrightarrow> (case r of [] \<Rightarrow> True | c # cs \<Rightarrow> unit_end c)"

lemma itoa_starts: "unit_end (hd (itoa n @ r))" "starts_number (itoa n @ r)"
proof -
  obtain c cs where "itoa n = c # cs" by (cases "itoa n") auto
  then show "unit_end (hd (itoa n @ r))" "starts_number (itoa n @ r)"
    using itoa_digits [of c n] by (auto simp: unit_end_def starts_number_def)
qed

lemma unit_split:
  assumes "unit_name u" and "starts_number r"
  shows "takeWhile (\<lambda>c. \<not> unit_end c) (u @ r) = u" "dropWhile (\<lambda>c. \<not> unit_end c) (u @ r) = r"
  using assms by (cases r; auto simp: unit_name_def starts_number_def takeWhile_append2 dropWhile_append2)+

lemma unit_no_digit: "unit_name u \<Longrightarrow> no_digit (u @ r) \<and> u @ r \<noteq> [] \<and> hd (u @ r) \<noteq> CHR ''.''"
  by (cases u) (auto simp: unit_name_def no_digit_def unit_end_def)

lemma parse_whole:
  assumes "unit_name u" "unitMap u = Some unit" "starts_number r" "v * unit \<le> 2 ^ 63" "0 < unit"
  shows "parse_part fl orig (itoa v @ u @ r) = Inr (v * unit, r)"
proof -
  note nd = unit_no_digit [OF assms(1), of r]
  have v: "v \<le> 2 ^ 63 div unit" using assms(4,5) by (simp add: less_eq_div_iff_mult_less_eq)
  then have "v \<le> 2 ^ 63" using div_le_dividend order_trans by blast
  then have "leadingInt 0 (itoa v @ u @ r) = Some (v, u @ r)"
    using leadingInt_digits [of "itoa v" "u @ r" 0] itoa_digits nd atoi_itoa [of v] by (simp add: atoi_def)
  moreover have "parse_fraction (u @ r) = (0, 1, u @ r, False)" using nd by (simp add: parse_fraction_def)
  moreover have "length (itoa v @ u @ r) \<noteq> length (u @ r)" by simp
  moreover have "parse_unit fl orig v 0 1 (u @ r) = Inr (v * unit, r)"
    using v assms(1,2) by (simp add: parse_unit_def unit_split [OF assms(1,3)] unit_name_def Let_def)
  ultimately show ?thesis unfolding parse_part_def using itoa_starts(1) [of v "u @ r"] by simp
qed

lemma parse_fractional:
  assumes fl: "float_documented fl" and u: "unit_name u" "unitMap u = Some (10 ^ n)" and n: "n \<le> 9"
    and size: "v * 10 ^ n + x mod 10 ^ n \<le> 2 ^ 63"
  shows "parse_part fl orig (itoa v @ fst (fmtFrac u x n)) = Inr (v * 10 ^ n + x mod 10 ^ n, [])"
proof (cases "x mod 10 ^ n = 0")
  case True
  then have "fst (fmtFrac u x n) = u @ []" using fmtFrac_loop_False [of n x u] by (auto simp: fmtFrac_def)
  then show ?thesis using parse_whole [OF u, of "[]" v fl orig] size True by (simp add: starts_number_def)
next
  case False
  then obtain k where k: "k < n" "fst (fmtFrac u x n) = CHR ''.'' # pad (n - k) (x div 10 ^ k) @ u"
    "x mod 10 ^ n = 10 ^ k * (x div 10 ^ k mod 10 ^ (n - k))"
    using fmtFrac_loop_False [of n x u] by (auto simp: fmtFrac_def)
  define f where "f = x div 10 ^ k mod 10 ^ (n - k)"
  have n9: "(10 :: nat) ^ n \<le> 10 ^ 9" using n by (rule power_increasing) simp
  have "f < 10 ^ (n - k)" by (simp add: f_def)
  also have "\<dots> \<le> 10 ^ n" by (rule power_increasing) simp_all
  finally have fn: "f < 10 ^ n" .
  have sp: "(10 :: nat) ^ n div 10 ^ (n - k) = 10 ^ k" "(10 :: nat) ^ (n - k) dvd 10 ^ n"
    using k(1) by (simp_all add: power_diff [symmetric] le_imp_power_dvd)
  have fk: "f * 10 ^ k = x mod 10 ^ n" using k(3) by (simp add: f_def mult.commute)
  have "f * 10 ^ k < 10 ^ n" unfolding fk by simp
  then have exact: "fl f (10 ^ n) (10 ^ (n - k)) = f * 10 ^ k"
    using fl sp n9 unfolding float_documented_def by simp
  note nd = unit_no_digit [OF u(1), of "[]", simplified]
  have frac: "leadingFraction 0 1 False (pad (n - k) (x div 10 ^ k) @ u) = (f, 10 ^ (n - k), u)"
    using leadingFraction_digits [of "pad (n - k) (x div 10 ^ k)" u 0 1] pad_props [where n = "n - k" and v = "x div 10 ^ k"] nd fn n9
    by (simp add: atoi_def f_def)
  have v: "v * 10 ^ n \<le> 2 ^ 63" using size by simp
  then have vd: "v \<le> 2 ^ 63 div 10 ^ n" by (simp add: less_eq_div_iff_mult_less_eq)
  then have "v \<le> 2 ^ 63" using div_le_dividend order_trans by blast
  then have "leadingInt 0 (itoa v @ fst (fmtFrac u x n)) = Some (v, fst (fmtFrac u x n))"
    using leadingInt_digits [of "itoa v" "fst (fmtFrac u x n)" 0] itoa_digits atoi_itoa [of v] k(2)
    by (simp add: atoi_def no_digit_def is_digit_def)
  moreover have "parse_fraction (fst (fmtFrac u x n)) = (f, 10 ^ (n - k), u, True)"
    using k(1,2) frac pad_props(1) [where n = "n - k" and v = "x div 10 ^ k"] by (simp add: parse_fraction_def)
  moreover have tw: "takeWhile (\<lambda>c. \<not> unit_end c) u = u" "dropWhile (\<lambda>c. \<not> unit_end c) u = []"
    using unit_split [OF u(1), of "[]"] by (simp_all add: starts_number_def)
  moreover have fpos: "f > 0" using fk False by (cases f) simp_all
  moreover have "parse_unit fl orig v f (10 ^ (n - k)) u = Inr (v * 10 ^ n + x mod 10 ^ n, [])"
    using vd u size exact fk False fpos by (simp add: parse_unit_def unit_name_def tw Let_def)
  ultimately show ?thesis unfolding parse_part_def using itoa_starts(1) [of v "fst (fmtFrac u x n)"] by simp
qed

text \<open>The units that are printed.\<close>

lemma unit_names:
  "unit_name ''ns''" "unit_name (micro @ ''s'')" "unit_name ''ms''" "unit_name ''s''" "unit_name ''m''" "unit_name ''h''"
  by (simp_all add: unit_name_def unit_end_def is_digit_def micro_def)

lemma unit_values:
  "unitMap ''ns'' = Some (10 ^ 0)" "unitMap (micro @ ''s'') = Some (10 ^ 3)" "unitMap ''ms'' = Some (10 ^ 6)"
  "unitMap ''s'' = Some (10 ^ 9)" "unitMap ''m'' = Some (60 * 10 ^ 9)" "unitMap ''h'' = Some (3600 * 10 ^ 9)"
  by (simp_all add: unitMap_def micro_def)

lemma parse_parts_step:
  "parse_part fl orig s = Inr (v, r) \<Longrightarrow> d + v \<le> 2 ^ 63 \<Longrightarrow> s \<noteq> [] \<Longrightarrow> parse_parts fl orig d s = parse_parts fl orig (d + v) r"
  by (subst parse_parts.simps) (simp add: Let_def)

lemma parse_parts_Nil [simp]: "parse_parts fl orig d [] = Inr d"
  by (subst parse_parts.simps) simp

text \<open>The printed form without its sign.\<close>

definition magnitude :: "nat \<Rightarrow> string" where
  "magnitude u = Duration_String (int u)"

lemma Duration_String_sign: "Duration_String d = (if d < 0 then CHR ''-'' # magnitude (nat \<bar>d\<bar>) else magnitude (nat \<bar>d\<bar>))"
  by (simp add: Duration_String_def magnitude_def Let_def)

lemma fmtFrac_value: "snd (fmtFrac buf v n) = v div 10 ^ n"
  using fmtFrac_loop_False [of n v buf] by (auto simp: fmtFrac_def)

lemma magnitude_small:
  assumes "float_documented fl" and "0 < u" and "u < Second"
  shows "\<exists>v r. magnitude u = itoa v @ r \<and> r \<noteq> [] \<and> parse_parts fl orig 0 (magnitude u) = Inr u"
proof -
  have part: "parse_parts fl orig 0 (itoa (u div 10 ^ n) @ fst (fmtFrac un u n)) = Inr u \<and> fst (fmtFrac un u n) \<noteq> []"
    if "unit_name un" "unitMap un = Some (10 ^ n)" "n \<le> 9" for un n
  proof -
    have u: "u div 10 ^ n * 10 ^ n + u mod 10 ^ n = u" by (rule div_mult_mod_eq)
    have "u \<le> 2 ^ 63" using assms(3) by (simp add: Second_def)
    then have "parse_part fl orig (itoa (u div 10 ^ n) @ fst (fmtFrac un u n)) = Inr (u, [])"
      using parse_fractional [OF assms(1) that, of "u div 10 ^ n" u orig] unfolding u by simp
    moreover have "fst (fmtFrac un u n) \<noteq> []"
      using fmtFrac_loop_False [of n u un] that(1) by (auto simp: fmtFrac_def unit_name_def)
    ultimately show ?thesis using parse_parts_step [of fl orig _ u "[]" 0] \<open>u \<le> 2 ^ 63\<close> by simp
  qed
  define un where "un = (if u < Microsecond then (''ns'', 0) else if u < Millisec then (micro @ ''s'', 3) else (''ms'', 6 :: nat))"
  have un: "unit_name (fst un)" "unitMap (fst un) = Some (10 ^ snd un)" "snd un \<le> 9"
    by (simp_all add: un_def unit_names unit_values)
  have "magnitude u = itoa (u div 10 ^ snd un) @ fst (fmtFrac (fst un) u (snd un))"
    using assms(2,3) fmtFrac_value [of "fst un" u "snd un"]
    unfolding magnitude_def Duration_String_def un_def [symmetric] by (simp add: Let_def split_beta un_def)
  then show ?thesis using part [OF un] by metis
qed

text \<open>From a second on: hours and minutes where there are any, and the seconds with their fraction.\<close>

lemma time_total:
  "(u :: nat) = S * b + x \<Longrightarrow> S = h * 3600 + m * 60 + s \<Longrightarrow> h * (3600 * b) + m * (60 * b) + s * b + x = u"
  by (simp add: algebra_simps)

lemma part_le: "a + b + c + d = u \<Longrightarrow> u \<le> n \<Longrightarrow> a \<le> (n :: nat)"
  by simp

lemma magnitude_large:
  assumes "float_documented fl" and "Second \<le> u" and "u \<le> 2 ^ 63"
  shows "\<exists>v r. magnitude u = itoa v @ r \<and> r \<noteq> [] \<and> parse_parts fl orig 0 (magnitude u) = Inr u"
proof -
  define S x q where "S = u div 10 ^ 9" and "x = u mod 10 ^ 9" and "q = S div 60"
  define s m h where "s = S mod 60" and "m = q mod 60" and "h = q div 60"
  define sec where "sec = itoa s @ fst (fmtFrac ''s'' u 9)"
  define minute where "minute = itoa m @ ''m'' @ sec"
  have buf: "fst (fmtFrac ''s'' u 9) \<noteq> []" using fmtFrac_loop_False [of 9 u "''s''"] by (auto simp: fmtFrac_def)
  obtain F where pr: "fmtFrac ''s'' u 9 = (F, S)" unfolding S_def using fmtFrac_value [of "''s''" u 9] by (metis prod.collapse)
  have large: "(u < Second) = False" using assms(2) by simp
  have shape: "magnitude u = (if q > 0 then if h > 0 then itoa h @ ''h'' @ minute else minute else sec)"
    by (simp only: magnitude_def Duration_String_def Let_def abs_of_nat nat_int large pr if_False prod.case fst_conv of_nat_less_0_iff
        sec_def minute_def s_def m_def h_def q_def append_assoc)
  have u: "u = S * 10 ^ 9 + x" unfolding S_def x_def by (rule div_mult_mod_eq [symmetric])
  have S: "S = h * 3600 + m * 60 + s"
    using div_mult_mod_eq [of S 60] div_mult_mod_eq [of q 60] unfolding q_def [symmetric] s_def [symmetric] m_def [symmetric] h_def [symmetric]
    by linarith
  have none: "q = 0 \<Longrightarrow> h = 0 \<and> m = 0" by (simp add: h_def m_def)
  note total = time_total [OF u S]
  have psec: "parse_parts fl orig d sec = Inr (d + s * 10 ^ 9 + x)" if "d + s * 10 ^ 9 + x \<le> 2 ^ 63" for d
  proof -
    have "parse_part fl orig sec = Inr (s * 10 ^ 9 + x, [])"
      unfolding sec_def x_def
      by (rule parse_fractional [OF assms(1) unit_names(4) unit_values(4)]) (use that in \<open>simp_all add: x_def\<close>)
    from parse_parts_step [OF this, of d] that show ?thesis by (simp add: sec_def add.assoc)
  qed
  have pmin: "parse_parts fl orig d minute = Inr (d + m * (60 * 10 ^ 9) + s * 10 ^ 9 + x)"
    if "d + m * (60 * 10 ^ 9) + s * 10 ^ 9 + x \<le> 2 ^ 63" for d
  proof -
    have "parse_part fl orig minute = Inr (m * (60 * 10 ^ 9), sec)"
      unfolding minute_def
      by (rule parse_whole [OF unit_names(5) unit_values(5)]) (use that itoa_starts(2) in \<open>simp_all add: sec_def\<close>)
    from parse_parts_step [OF this, of d] psec [of "d + m * (60 * 10 ^ 9)"] that
    show ?thesis by (simp add: minute_def)
  qed
  have phour: "parse_parts fl orig 0 (itoa h @ ''h'' @ minute) = Inr u"
  proof -
    have le: "h * (3600 * 10 ^ 9) \<le> 2 ^ 63" by (rule part_le [OF total assms(3)])
    have "parse_part fl orig (itoa h @ ''h'' @ minute) = Inr (h * (3600 * 10 ^ 9), minute)"
      by (rule parse_whole [OF unit_names(6) unit_values(6)]) (use le itoa_starts(2) in \<open>simp_all add: minute_def\<close>)
    from parse_parts_step [OF this, of 0] pmin [of "h * (3600 * 10 ^ 9)", unfolded total] le assms(3)
    show ?thesis by simp
  qed
  consider "q = 0" | "q > 0" "h = 0" | "q > 0" "h > 0" by blast
  then show ?thesis
  proof cases
    case 1
    then have "magnitude u = sec" "0 + s * 10 ^ 9 + x = u" using shape total none by simp_all
    then show ?thesis using psec [of 0] assms(3) buf sec_def by metis
  next
    case 2
    then have "magnitude u = minute" "0 + m * (60 * 10 ^ 9) + s * 10 ^ 9 + x = u" using shape total by simp_all
    then show ?thesis using pmin [of 0] assms(3) minute_def by auto
  next
    case 3
    then show ?thesis using shape phour by auto
  qed
qed

lemma magnitude_parses:
  assumes "float_documented fl" and "u \<le> 2 ^ 63"
  shows "\<exists>v r. magnitude u = itoa v @ r \<and> r \<noteq> [] \<and> parse_parts fl orig 0 (magnitude u) = Inr u"
proof (cases "u = 0")
  case True
  have "digit_char 0 = CHR ''0''" using char_of_char [of "CHR ''0''"] by (simp add: digit_char_def)
  then have m: "magnitude 0 = itoa 0 @ ''s''" by (simp add: magnitude_def Duration_String_def Let_def Second_def itoa.simps)
  have "parse_part fl orig (itoa 0 @ ''s'' @ []) = Inr (0 * 10 ^ 9, [])"
    by (rule parse_whole [OF unit_names(4) unit_values(4)]) (simp_all add: starts_number_def)
  then have "parse_parts fl orig 0 (magnitude 0) = Inr 0" using parse_parts_step [of fl orig "magnitude 0" 0 "[]" 0] m by simp
  then show ?thesis using m True by blast
next
  case False
  then show ?thesis
    using magnitude_small [OF assms(1), of u orig] magnitude_large [OF assms(1) _ assms(2), of orig] by (cases "u < Second") auto
qed

lemma ParseDuration_String:
  assumes "float_documented fl" and "- (2 ^ 63) \<le> d" and "d < 2 ^ 63"
  shows "ParseDuration fl (Duration_String d) = Inr d"
proof -
  define u where "u = nat \<bar>d\<bar>"
  have u: "u \<le> 2 ^ 63" "\<not> d < 0 \<Longrightarrow> u \<le> 2 ^ 63 - 1" using assms(2,3) by (auto simp: u_def)
  obtain v r where m: "magnitude u = itoa v @ r" "r \<noteq> []" and p: "parse_parts fl (Duration_String d) 0 (magnitude u) = Inr u"
    using magnitude_parses [OF assms(1) u(1)] by blast
  obtain c cs where i: "itoa v = c # cs" by (cases "itoa v") auto
  then have c: "c \<noteq> CHR ''-''" "c \<noteq> CHR ''+''" using itoa_digits [of c v] by (auto simp: is_digit_def)
  have no: "magnitude u \<noteq> ''0''" "magnitude u \<noteq> []" using m i by (auto simp: append_eq_Cons_conv)
  show ?thesis
  proof (cases "d < 0")
    case True
    then have "Duration_String d = CHR ''-'' # magnitude u" by (simp add: Duration_String_sign u_def)
    then show ?thesis using p no True by (simp add: ParseDuration_def u_def)
  next
    case False
    then have s: "Duration_String d = magnitude u" by (simp add: Duration_String_sign u_def)
    have "u \<le> 2 ^ 63 - 1" using u(2) False by simp
    moreover have "int u = d" using False by (simp add: u_def)
    ultimately show ?thesis using p no m i c by (simp add: ParseDuration_def s)
  qed
qed

end
