(* ===== verification/Model_Codecs.thy ===== *)
theory Model_Codecs
  imports Application Go_Duration
begin

text \<open>
  The JSON codecs of configuration (pkg/simulation/model/model.go): durations, which are written as text and read from text or
  from a number, references to templates, which may be just a name, and template definitions. encoding/json
  and text/template are parameters.
\<close>

section \<open>JSON\<close>

datatype 'f json =
    JNull
  | JBool bool
  | JNumber 'f
  | JString string
  | JArray "'f json list"
  | JObject "(string \<times> 'f json) list"

text \<open>
  \<open>json_Unmarshal\<close> decodes into an interface value, \<open>json_template\<close> into the fields of a ConfigTemplate and
  \<open>json_strings\<close> into a map of strings, in the order in which Go goes through it. \<open>to_int64\<close> is the conversion of
  a float64 to an int64.
\<close>

record 'f jcodec =
  json_Unmarshal :: "string \<Rightarrow> gerror + 'f json"
  json_string :: "string \<Rightarrow> string"
  json_template :: "string \<Rightarrow> ConfigTemplate \<Rightarrow> gerror + ConfigTemplate"
  json_strings :: "string \<Rightarrow> gerror + (string \<times> string) list"
  to_int64 :: "'f \<Rightarrow> int"
  float_mul :: "nat \<Rightarrow> nat \<Rightarrow> nat \<Rightarrow> nat"

section \<open>Durations\<close>

definition Duration_MarshalJSON :: "'f jcodec \<Rightarrow> int \<Rightarrow> string" where
  "Duration_MarshalJSON J d = json_string J (Duration_String d)"

definition Duration_UnmarshalJSON :: "'f jcodec \<Rightarrow> string \<Rightarrow> gerror + int" where
  "Duration_UnmarshalJSON J b =
     (case json_Unmarshal J b of
        Inl err \<Rightarrow> Inl err
      | Inr v \<Rightarrow>
          (case v of
             JNumber value \<Rightarrow> Inr (to_int64 J value)
           | JString value \<Rightarrow>
               (case ParseDuration (float_mul J) value of
                  Inl err \<Rightarrow> Inl err
                | Inr tmp \<Rightarrow> Inr tmp)
           | _ \<Rightarrow> Inl (ErrText ''invalid duration'')))"

section \<open>Templates\<close>

text \<open>Decoding into a string: null leaves it empty.\<close>

definition as_string :: "'f json \<Rightarrow> string option" where
  "as_string v = (case v of JString s \<Rightarrow> Some s | JNull \<Rightarrow> Some [] | _ \<Rightarrow> None)"

definition ConfigTemplate_UnmarshalJSON :: "'f jcodec \<Rightarrow> string \<Rightarrow> ConfigTemplate \<Rightarrow> gerror + ConfigTemplate" where
  "ConfigTemplate_UnmarshalJSON J data r =
     (case json_Unmarshal J data of
        Inl err \<Rightarrow> json_template J data r
      | Inr v \<Rightarrow>
          (case as_string v of
             Some stringValue \<Rightarrow> Inr (r\<lparr>ct_Name := stringValue\<rparr>)
           | None \<Rightarrow> json_template J data r))"

text \<open>On an error of a template, the ones before it have been stored.\<close>

fun parse_templates :: "(string \<Rightarrow> string \<Rightarrow> gerror + string) \<Rightarrow> (string \<times> string) list \<Rightarrow> smap \<Rightarrow> gerror option \<times> smap" where
  "parse_templates parse [] inner = (None, inner)"
| "parse_templates parse ((k, v) # kvs) inner =
     (case parse k v of
        Inl err \<Rightarrow> (Some err, inner)
      | Inr p \<Rightarrow> parse_templates parse kvs (inner(k \<mapsto> p)))"

definition TemplateDefinitions_UnmarshalJSON :: "'f jcodec \<Rightarrow> (string \<Rightarrow> string \<Rightarrow> gerror + string) \<Rightarrow> string \<Rightarrow> smap \<Rightarrow>
    gerror option \<times> smap" where
  "TemplateDefinitions_UnmarshalJSON J parse b inner =
     (case json_strings J b of
        Inl err \<Rightarrow> (Some err, inner)
      | Inr raw \<Rightarrow> parse_templates parse raw Map.empty)"

text \<open>Every name of a configuration that was read can be looked up.\<close>

lemma parse_templates_dom:
  "parse_templates parse kvs inner = (None, inner') \<Longrightarrow> dom inner' = dom inner \<union> fst ` set kvs"
  by (induction parse kvs inner rule: parse_templates.induct) (auto split: sum.splits)

lemma unmarshalled_template_known:
  assumes "TemplateDefinitions_UnmarshalJSON J parse b inner = (None, defs)"
  shows "\<exists>raw. json_strings J b = Inr raw \<and> (\<forall>name. (\<exists>t. TemplateDefinitions_Get defs name = Returns t) \<longleftrightarrow> name \<in> fst ` set raw)"
proof -
  obtain raw where raw: "json_strings J b = Inr raw" and p: "parse_templates parse raw Map.empty = (None, defs)"
    using assms by (auto simp: TemplateDefinitions_UnmarshalJSON_def split: sum.splits)
  have "(\<exists>t. TemplateDefinitions_Get defs name = Returns t) \<longleftrightarrow> name \<in> dom defs" for name
    by (auto simp: TemplateDefinitions_Get_def split: option.splits)
  then show ?thesis using raw parse_templates_dom [OF p] by simp
qed

section \<open>Durations keep their value\<close>

text \<open>Text in UTF-8 whose characters take at most two bytes.\<close>

fun utf8_text :: "string \<Rightarrow> bool" where
  "utf8_text [] = True"
| "utf8_text (c # s) =
     (if (of_char c :: nat) < 128 then utf8_text s
      else case s of
          [] \<Rightarrow> False
        | d # r \<Rightarrow> 194 \<le> (of_char c :: nat) \<and> (of_char c :: nat) < 224 \<and> 128 \<le> (of_char d :: nat) \<and> (of_char d :: nat) < 192 \<and> utf8_text r)"

text \<open>encoding/json reads back the text it has written; arithmetic is that of IEEE 754.\<close>

definition jcodec_documented :: "'f jcodec \<Rightarrow> bool" where
  "jcodec_documented J \<longleftrightarrow>
     (\<forall>s. utf8_text s \<longrightarrow> json_Unmarshal J (json_string J s) = Inr (JString s)) \<and> float_documented (float_mul J)"

lemma utf8_ascii: "\<forall>c \<in> set s. (of_char c :: nat) < 128 \<Longrightarrow> utf8_text r \<Longrightarrow> utf8_text (s @ r)"
  by (induction s) simp_all

lemma utf8_micro: "utf8_text r \<Longrightarrow> utf8_text (micro @ r)"
  by (simp add: micro_def)

lemma utf8_itoa: "utf8_text r \<Longrightarrow> utf8_text (itoa n @ r)"
  by (rule utf8_ascii) (use itoa_digits in \<open>auto simp: is_digit_def dest!: itoa_digits\<close>)

lemma utf8_fmtFrac: "utf8_text buf \<Longrightarrow> utf8_text (fst (fmtFrac buf v n))"
proof -
  assume buf: "utf8_text buf"
  have "utf8_text (CHR ''.'' # pad k w @ buf)" for k w
    using utf8_ascii [of "CHR ''.'' # pad k w" buf] pad_props(3) [of _ k w] buf by (fastforce simp: is_digit_def)
  then show ?thesis using fmtFrac_loop_False [of n v buf] buf by (auto simp: fmtFrac_def)
qed

lemma utf8_Duration_String: "utf8_text (Duration_String d)"
proof -
  have u: "utf8_text ''ns''" "utf8_text (micro @ ''s'')" "utf8_text ''ms''" "utf8_text ''s''" "utf8_text (CHR ''m'' # r) = utf8_text r"
    "utf8_text (CHR ''h'' # r) = utf8_text r" "utf8_text (CHR ''-'' # r) = utf8_text r" for r
    by (simp_all add: utf8_micro)
  have zero: "utf8_text ''0s''" by simp
  show ?thesis unfolding Duration_String_def Let_def split_beta
    by (simp only: if_distrib [where f = utf8_text] append_Cons append_Nil u zero utf8_itoa utf8_fmtFrac if_distrib [where f = fst]
        fst_conv snd_conv if_split simp_thms)
qed

text \<open>
  C37: A duration of 64 bits that is written as JSON is read back as the same duration, to the nanosecond.
\<close>

theorem duration_json_roundtrip:
  assumes "jcodec_documented J" and "- (2 ^ 63) \<le> d" and "d < 2 ^ 63"
  shows "Duration_UnmarshalJSON J (Duration_MarshalJSON J d) = Inr d"
  using assms ParseDuration_String [of "float_mul J" d] utf8_Duration_String [of d]
  by (simp add: Duration_UnmarshalJSON_def Duration_MarshalJSON_def jcodec_documented_def)

text \<open>Quotes around the text, and exact arithmetic.\<close>

definition small_jcodec :: "int jcodec" where
  "small_jcodec = \<lparr>json_Unmarshal = (\<lambda>b. case b of c # cs \<Rightarrow> if c = CHR 0x22 then Inr (JString (butlast cs)) else Inl (ErrText ''syntax'') | [] \<Rightarrow> Inl (ErrText ''EOF'')),
     json_string = (\<lambda>s. CHR 0x22 # s @ [CHR 0x22]), json_template = (\<lambda>b r. Inr r), json_strings = (\<lambda>b. Inr []),
     to_int64 = (\<lambda>x. x), float_mul = (\<lambda>f unit scale. f * unit div scale)\<rparr>"

lemma duration_json_roundtrip_witness:
  "jcodec_documented small_jcodec \<and> Duration_UnmarshalJSON small_jcodec (Duration_MarshalJSON small_jcodec (-90000001500)) = Inr (-90000001500)"
proof -
  have doc: "jcodec_documented small_jcodec"
    by (simp add: jcodec_documented_def small_jcodec_def float_documented_def div_mult_swap)
  then show ?thesis using duration_json_roundtrip [OF doc, of "-90000001500"] by simp
qed

end
