(* ===== verification/Xds_Latency.thy ===== *)
theory Xds_Latency
  imports Config_Sims Kube_Memory
begin

text \<open>
  The XDS latency benchmark (sims/xdslatency/sim.go): an XDS client with a channel of updates, and a loop that
  creates a service entry, waits for the update it causes, deletes it and waits again.
\<close>

section \<open>The simulation\<close>

record XdsLatencySimulation =
  la_Labels :: smap
  la_Namespace :: string
  la_Name :: string
  la_IP :: string
  la_Cluster :: string
  la_AppType :: AppType
  la_cancel :: "nat option"
  la_done :: "nat option"

definition NewXdsLatency :: "args \<Rightarrow> 's world \<Rightarrow> (XdsLatencySimulation \<times> 's world) outcome" where
  "NewXdsLatency ag w =
     obind (GrpcOptions (ag_Auth ag) ''default'' ''default'') (\<lambda>opts.
       let (ip, next1) = GetIP (nextIp w)
       in Returns (\<lparr>la_Labels = Map.empty, la_Namespace = ''default'', la_Name = ''adsc'', la_IP = ip, la_Cluster = ''Kubernetes'',
                    la_AppType = [], la_cancel = None, la_done = None\<rparr>, w\<lparr>nextIp := next1\<rparr>))"

definition latency_meta :: "args \<Rightarrow> XdsLatencySimulation \<Rightarrow> (string \<rightharpoonup> metaval)" where
  "latency_meta ag x =
     (clone (ag_Metadata ag))
       (''ISTIO_VERSION'' \<mapsto> MStr ''1.20.0-pilot-load'',
        ''CLUSTER_ID'' \<mapsto> MStr (if la_Cluster x = [] then ''Kubernetes'' else la_Cluster x),
        ''LABELS'' \<mapsto> MMap (la_Labels x), ''NAMESPACE'' \<mapsto> MStr (la_Namespace x), ''SDS'' \<mapsto> MStr ''true'')"

definition latency_config :: "args \<Rightarrow> XdsLatencySimulation \<Rightarrow> Config" where
  "latency_config ag x =
     \<lparr>c_Namespace = la_Namespace x, c_Workload = la_Name x @ ''-'' @ la_IP x, c_Meta = latency_meta ag x,
      c_NodeType = la_AppType x, c_IP = la_IP x, c_hasUpdates = True, c_Delta = False\<rparr>"

definition createConfig :: "nat \<Rightarrow> kobj" where
  "createConfig index =
     (new_object ''ServiceEntry'' (ServiceEntrySpec
        \<lparr>se_hosts = [itoa index @ ''.example.com''], se_location = [], se_ports = [], se_resolution = [], se_workloadSelector = None\<rparr>))
       \<lparr>o_name := ''cfg-'' @ itoa index, o_namespace := ''default'', o_status := ZeroStatus\<rparr>"

section \<open>A run\<close>

text \<open>
  Run works on a copy of the simulation, its receiver being a value: \<open>lr_x\<close> is the copy. The channel of updates
  holds ten. Run leaves with its error; its deferred function then cleans up the last configuration, and the
  error of that is dropped (it is kept here as the second component of \<open>Left\<close>).
\<close>

datatype lphase = Begin | AwaitCreated | AwaitRemoved | Left gerror "gerror option"

record 's latency_run =
  lr_x :: XdsLatencySimulation
  lr_updates :: "string list"
  lr_done :: bool
  lr_i :: nat
  lr_cc :: "generic option"
  lr_phase :: lphase
  lr_world :: "'s world"

definition drain :: "string list \<Rightarrow> string list" where
  "drain updates = []"

definition pause :: "'s world \<Rightarrow> 's world" where
  "pause w = w\<lparr>now := now w + 250 * 10 ^ 6\<rparr>"

definition latency_start :: "args \<Rightarrow> XdsLatencySimulation \<Rightarrow> 's world \<Rightarrow> 's latency_run" where
  "latency_start ag x w =
     (let n = length (streams w)
      in \<lparr>lr_x = x\<lparr>la_cancel := Some n, la_done := Some n\<rparr>, lr_updates = [], lr_done = False, lr_i = 0, lr_cc = None, lr_phase = Begin,
          lr_world = w\<lparr>streams := streams w @ [\<lparr>sm_config = latency_config ag x, sm_cancelled = False\<rparr>]\<rparr>\<rparr>)"

definition leave :: "'s kenv \<Rightarrow> gerror \<Rightarrow> 's latency_run \<Rightarrow> 's latency_run outcome" where
  "leave env err r =
     (case lr_cc r of
        None \<Rightarrow> Panics ''nil pointer dereference''
      | Some cc \<Rightarrow> obind (Generic_Cleanup env cc (lr_world r)) (\<lambda>(cc1, w, e). Returns (r\<lparr>lr_phase := Left err e, lr_world := w\<rparr>)))"

definition begin_iteration :: "'s kenv \<Rightarrow> 's latency_run \<Rightarrow> 's latency_run outcome" where
  "begin_iteration env r =
     (let i = Suc (lr_i r); cfg = NewGeneric ''ServiceEntry'' (createConfig i);
          r1 = r\<lparr>lr_i := i, lr_updates := drain (lr_updates r)\<rparr>
      in obind (Generic_Run env cfg (lr_world r1)) (\<lambda>(cfg1, w, e).
           case e of
             Some err \<Rightarrow> leave env err (r1\<lparr>lr_cc := Some cfg1, lr_world := w\<rparr>)
           | None \<Rightarrow> Returns (r1\<lparr>lr_cc := Some cfg1, lr_phase := AwaitCreated, lr_world := w\<rparr>)))"

text \<open>What one update does to a waiting getEvent: None while it goes on waiting.\<close>

definition getEvent :: "string \<Rightarrow> string \<Rightarrow> gerror option option" where
  "getEvent s u = (if u = s then Some None else if u = ''close'' then Some (Some (ErrText ''close event'')) else None)"

definition event_received :: "'s kenv \<Rightarrow> 's latency_run \<Rightarrow> 's latency_run outcome" where
  "event_received env r =
     (case lr_phase r of
        AwaitCreated \<Rightarrow>
          (let r1 = r\<lparr>lr_world := pause (lr_world r)\<rparr> in
           case lr_cc r1 of
             None \<Rightarrow> Panics ''nil pointer dereference''
           | Some cfg \<Rightarrow>
               obind (Generic_Cleanup env cfg (lr_world r1)) (\<lambda>(cfg1, w, e).
                 case e of
                   Some err \<Rightarrow> leave env err (r1\<lparr>lr_world := w\<rparr>)
                 | None \<Rightarrow> Returns (r1\<lparr>lr_phase := AwaitRemoved, lr_world := w\<rparr>)))
      | AwaitRemoved \<Rightarrow> Returns (r\<lparr>lr_phase := Begin, lr_world := pause (lr_world r)\<rparr>)
      | _ \<Rightarrow> Returns r)"

definition awaiting :: "lphase \<Rightarrow> bool" where
  "awaiting p \<longleftrightarrow> p = AwaitCreated \<or> p = AwaitRemoved"

definition latency_update :: "'s kenv \<Rightarrow> string \<Rightarrow> 's latency_run \<Rightarrow> 's latency_run outcome" where
  "latency_update env u r =
     (case getEvent ''cds'' u of
        None \<Rightarrow> Returns r
      | Some None \<Rightarrow> event_received env r
      | Some (Some err) \<Rightarrow> leave env err r)"

text \<open>The client's updates arrive and the context ends at any time.\<close>

inductive latency_step :: "'s kenv \<Rightarrow> 's latency_run \<Rightarrow> 's latency_run \<Rightarrow> bool" for env where
  arrive: "length (lr_updates r) < 10 \<Longrightarrow> latency_step env r (r\<lparr>lr_updates := lr_updates r @ [u]\<rparr>)"
| cancel: "latency_step env r (r\<lparr>lr_done := True\<rparr>)"
| iterate: "lr_phase r = Begin \<Longrightarrow> begin_iteration env r = Returns r' \<Longrightarrow> latency_step env r r'"
| receive: "awaiting (lr_phase r) \<Longrightarrow> lr_updates r = u # rest \<Longrightarrow> latency_update env u (r\<lparr>lr_updates := rest\<rparr>) = Returns r' \<Longrightarrow>
    latency_step env r r'"
| ended: "awaiting (lr_phase r) \<Longrightarrow> lr_done r \<Longrightarrow> leave env (ErrText ''cancel'') r = Returns r' \<Longrightarrow> latency_step env r r'"

definition Latency_Cleanup :: "(XdsLatencySimulation, 's world) action" where
  "Latency_Cleanup x w =
     (let w1 = (case la_cancel x of None \<Rightarrow> w | Some i \<Rightarrow> cancel_stream i w)
      in case la_done x of
           None \<Rightarrow> Returns (x, w1, None)
         | Some i \<Rightarrow> if i < length (streams w1) \<and> sm_cancelled (streams w1 ! i) then Returns (x, w1, None) else Blocks)"

section \<open>At most one configuration\<close>

definition config_key :: "nat \<Rightarrow> key" where
  "config_key i = (''ServiceEntry'', ''default'', ''cfg-'' @ itoa i)"

lemma createConfig_key: "generic_key (NewGeneric ''ServiceEntry'' (createConfig i)) = config_key i"
  by (simp add: generic_key_def NewGeneric_def obj_key_def createConfig_def config_key_def)

definition has_config :: "'s latency_run \<Rightarrow> bool" where
  "has_config r \<longleftrightarrow> (\<exists>cc. lr_cc r = Some cc \<and> generic_key cc = config_key (lr_i r))"

text \<open>What may exist beside \<open>L\<close> in a phase.\<close>

definition latency_inv :: "'s kenv \<Rightarrow> key set \<Rightarrow> 's latency_run \<Rightarrow> bool" where
  "latency_inv env L r \<longleftrightarrow>
     (awaiting (lr_phase r) \<longrightarrow> has_config r) \<and> length (lr_updates r) \<le> 10 \<and>
     live env (lr_world r) \<subseteq> insert (config_key (lr_i r)) L \<and>
     (lr_phase r \<in> {Begin, AwaitRemoved} \<longrightarrow> live env (lr_world r) \<subseteq> L) \<and>
     (\<forall>e. lr_phase r = Left e None \<longrightarrow> live env (lr_world r) \<subseteq> L)"

lemma pause_live [simp]: "live env (pause w) = live env w"
  by (simp add: pause_def live_def)

lemma leave_inv:
  assumes "leave env err r = Returns r'" and "has_config r" and "length (lr_updates r) \<le> 10" and "live env (lr_world r) \<subseteq> insert (config_key (lr_i r)) L"
  shows "latency_inv env L r'"
proof -
  obtain cc g w e where c: "Generic_Cleanup env cc (lr_world r) = Returns (g, w, e)" and k: "generic_key cc = config_key (lr_i r)"
    and r': "r' = r\<lparr>lr_phase := Left err e, lr_world := w\<rparr>"
    using assms(1,2) by (auto simp: leave_def has_config_def obind_Returns_iff)
  note live = Generic_Cleanup_live [OF c, unfolded k]
  have "live env w \<subseteq> insert (config_key (lr_i r)) L" using live assms(4) by blast
  moreover have "e = None \<longrightarrow> live env w \<subseteq> L" using live assms(4) by blast
  ultimately show ?thesis using assms(2,3) by (simp add: latency_inv_def r' awaiting_def)
qed

lemma begin_iteration_inv:
  assumes "retry_documented env" and inv: "latency_inv env L r" and ph: "lr_phase r = Begin" and run: "begin_iteration env r = Returns r'"
  shows "latency_inv env L r'"
proof -
  let ?i = "Suc (lr_i r)"
  let ?cfg = "NewGeneric ''ServiceEntry'' (createConfig ?i)"
  let ?r1 = "\<lambda>g. r\<lparr>lr_i := ?i, lr_updates := drain (lr_updates r), lr_cc := Some g\<rparr>"
  obtain g w e where c: "Generic_Run env ?cfg (lr_world r) = Returns (g, w, e)"
    and rest: "(case e of Some err \<Rightarrow> leave env err (?r1 g\<lparr>lr_world := w\<rparr>) | None \<Rightarrow> Returns (?r1 g\<lparr>lr_phase := AwaitCreated, lr_world := w\<rparr>)) = Returns r'"
    using run by (auto simp: begin_iteration_def Let_def obind_Returns_iff)
  note run1 = Generic_Run_live [OF assms(1) c, unfolded createConfig_key]
  have l: "live env w \<subseteq> insert (config_key ?i) L"
    using run1 inv ph by (auto simp: latency_inv_def)
  show ?thesis
  proof (cases e)
    case None
    then have "r' = ?r1 g\<lparr>lr_phase := AwaitCreated, lr_world := w\<rparr>" using rest by simp
    then show ?thesis using l run1 by (simp add: latency_inv_def awaiting_def drain_def has_config_def)
  next
    case (Some err)
    then have "leave env err (?r1 g\<lparr>lr_world := w\<rparr>) = Returns r'" using rest by simp
    then show ?thesis by (rule leave_inv) (use l run1 in \<open>simp_all add: drain_def has_config_def\<close>)
  qed
qed

lemma event_received_inv:
  assumes inv: "latency_inv env L r" and ph: "awaiting (lr_phase r)" and run: "event_received env r = Returns r'"
  shows "latency_inv env L r'"
proof (cases "lr_phase r = AwaitRemoved")
  case True
  then have "r' = r\<lparr>lr_phase := Begin, lr_world := pause (lr_world r)\<rparr>" using run by (simp add: event_received_def)
  then show ?thesis using inv True by (simp add: latency_inv_def awaiting_def)
next
  case False
  then have ph1: "lr_phase r = AwaitCreated" using ph by (simp add: awaiting_def)
  have cc: "has_config r" and len: "length (lr_updates r) \<le> 10"
    and L: "live env (lr_world r) \<subseteq> insert (config_key (lr_i r)) L" using inv ph by (auto simp: latency_inv_def)
  obtain cf g w e where c: "Generic_Cleanup env cf (pause (lr_world r)) = Returns (g, w, e)" and k: "generic_key cf = config_key (lr_i r)"
    and rest: "(case e of Some err \<Rightarrow> leave env err (r\<lparr>lr_world := w\<rparr>) | None \<Rightarrow> Returns (r\<lparr>lr_phase := AwaitRemoved, lr_world := w\<rparr>)) = Returns r'"
    using run ph1 cc by (auto simp: event_received_def has_config_def Let_def obind_Returns_iff)
  note live = Generic_Cleanup_live [OF c, unfolded k]
  have l1: "live env w \<subseteq> insert (config_key (lr_i r)) L" using live L by auto
  show ?thesis
  proof (cases e)
    case None
    then have r': "r' = r\<lparr>lr_phase := AwaitRemoved, lr_world := w\<rparr>" using rest by simp
    have "live env w \<subseteq> L" using live L None by auto
    then show ?thesis using cc len l1 by (simp add: latency_inv_def awaiting_def has_config_def r')
  next
    case (Some err)
    then have "leave env err (r\<lparr>lr_world := w\<rparr>) = Returns r'" using rest by simp
    then show ?thesis by (rule leave_inv) (use cc len l1 in \<open>simp_all add: has_config_def\<close>)
  qed
qed

lemma latency_update_cases:
  assumes "latency_update env u r = Returns r'"
  shows "r' = r \<or> event_received env r = Returns r' \<or> (\<exists>err. leave env err r = Returns r')"
proof (cases "getEvent ''cds'' u")
  case None
  then show ?thesis using assms by (simp add: latency_update_def)
next
  case (Some res)
  show ?thesis
  proof (cases res)
    case None
    then show ?thesis using assms Some by (simp add: latency_update_def)
  next
    case (Some err)
    then have "leave env err r = Returns r'" using assms \<open>getEvent ''cds'' u = Some res\<close> by (simp add: latency_update_def)
    then show ?thesis by blast
  qed
qed

lemma latency_step_inv:
  assumes "retry_documented env" and "latency_step env r r'" and inv: "latency_inv env L r"
  shows "latency_inv env L r'"
  using assms(2)
proof cases
  case (arrive u)
  then show ?thesis using inv by (simp add: latency_inv_def has_config_def)
next
  case cancel
  then show ?thesis using inv by (simp add: latency_inv_def has_config_def)
next
  case iterate
  then show ?thesis using begin_iteration_inv [OF assms(1) inv] by simp
next
  case (receive u rest)
  let ?r1 = "r\<lparr>lr_updates := rest\<rparr>"
  have inv1: "latency_inv env L ?r1" using inv receive(2) by (simp add: latency_inv_def has_config_def)
  have ph: "awaiting (lr_phase ?r1)" using receive(1) by simp
  from latency_update_cases [OF receive(3)]
  consider "r' = ?r1" | "event_received env ?r1 = Returns r'" | err where "leave env err ?r1 = Returns r'"
    by (elim disjE exE) (rule that(1), assumption, rule that(2), assumption, rule that(3), assumption)
  then show ?thesis
  proof cases
    case 1
    then show ?thesis using inv1 by simp
  next
    case 2
    then show ?thesis using event_received_inv [OF inv1 ph] by simp
  next
    case 3
    then show ?thesis by (rule leave_inv) (use inv1 ph in \<open>simp_all add: latency_inv_def\<close>)
  qed
next
  case ended
  from ended(3) show ?thesis by (rule leave_inv) (use inv ended(1) in \<open>simp_all add: latency_inv_def\<close>)
qed

interpretation latency_runs: step_invariant "latency_step env" "latency_inv env L" "retry_documented env"
  by unfold_locales (rule latency_step_inv)

text \<open>
  C38: The latency benchmark has at most one configuration in the cluster at a time, none between its iterations,
  and whenever and however it ends, with its deferred cleanup succeeding, nothing is left that was not there before.
\<close>

theorem latency_leaves_nothing:
  assumes "retry_documented env" and "(latency_step env)\<^sup>*\<^sup>* (latency_start ag x w) r"
  shows "live env (lr_world r) \<subseteq> insert (config_key (lr_i r)) (live env w) \<and>
    (lr_phase r = Begin \<longrightarrow> live env (lr_world r) \<subseteq> live env w) \<and>
    (\<forall>err. lr_phase r = Left err None \<longrightarrow> live env (lr_world r) \<subseteq> live env w)"
proof -
  have "latency_inv env (live env w) (latency_start ag x w)"
    by (auto simp: latency_inv_def latency_start_def awaiting_def Let_def live_def)
  then have "latency_inv env (live env w) r" by (rule latency_runs.star_inv [OF assms])
  then show ?thesis by (simp add: latency_inv_def)
qed

section \<open>A small run\<close>

text \<open>One configuration is created and the context ends.\<close>

definition latency_sample :: XdsLatencySimulation where
  "latency_sample = \<lparr>la_Labels = Map.empty, la_Namespace = ''default'', la_Name = ''adsc'', la_IP = ''10.0.0.1'', la_Cluster = [],
     la_AppType = [], la_cancel = None, la_done = None\<rparr>"

lemma latency_leaves_nothing_witness:
  "\<exists>r. (latency_step memory_env)\<^sup>*\<^sup>* (latency_start small_args latency_sample memory_world) r \<and>
     lr_phase r = Left (ErrText ''cancel'') None \<and> length (log (lr_world r)) = 3 \<and> live memory_env (lr_world r) = {}"
proof -
  let ?r0 = "latency_start small_args latency_sample memory_world"
  note ev = begin_iteration_def Let_def Generic_Run_def NewGeneric_def apply_obj_def Apply_def internalApply_def exec_def memory_env_def
    latency_start_def memory_world_def createConfig_def obj_key_def new_object_def not_found_def next_version_def hasStatus_def hasStatusInternal_def
  have "\<exists>r1. begin_iteration memory_env ?r0 = Returns r1 \<and> lr_phase r1 = AwaitCreated \<and> (\<exists>cc. lr_cc r1 = Some cc \<and> gn_type cc = ''ServiceEntry'' \<and> obj_key ''ServiceEntry'' (gn_Spec cc) = config_key 1) \<and>
      length (log (lr_world r1)) = 2 \<and> srv_state (lr_world r1) (config_key 1) \<noteq> None"
    by (simp add: ev config_key_def)
  then obtain r1 cc where r1: "begin_iteration memory_env ?r0 = Returns r1" "lr_phase r1 = AwaitCreated"
    "lr_cc r1 = Some cc \<and> gn_type cc = ''ServiceEntry'' \<and> obj_key ''ServiceEntry'' (gn_Spec cc) = config_key 1" "length (log (lr_world r1)) = 2" "srv_state (lr_world r1) (config_key 1) \<noteq> None" by blast
  have s1: "latency_step memory_env ?r0 r1" by (rule latency_step.iterate [OF _ r1(1)]) (simp add: latency_start_def Let_def)
  have s2: "latency_step memory_env r1 (r1\<lparr>lr_done := True\<rparr>)" by (rule latency_step.cancel)
  have "\<exists>r3. leave memory_env (ErrText ''cancel'') (r1\<lparr>lr_done := True\<rparr>) = Returns r3 \<and> lr_phase r3 = Left (ErrText ''cancel'') None \<and>
      length (log (lr_world r3)) = 3"
    using r1(3-5)
    by (auto simp: leave_def Generic_Cleanup_def NewGeneric_def delete_obj_def Delete_def exec_def memory_env_def)
  then obtain r3 where r3: "leave memory_env (ErrText ''cancel'') (r1\<lparr>lr_done := True\<rparr>) = Returns r3" "lr_phase r3 = Left (ErrText ''cancel'') None"
    "length (log (lr_world r3)) = 3" by blast
  have s3: "latency_step memory_env (r1\<lparr>lr_done := True\<rparr>) r3"
    by (rule latency_step.ended [OF _ _ r3(1)]) (simp_all add: awaiting_def r1(2))
  have run: "(latency_step memory_env)\<^sup>*\<^sup>* ?r0 r3" using s1 s2 s3 by (meson rtranclp.rtrancl_into_rtrancl rtranclp.rtrancl_refl)
  then have "live memory_env (lr_world r3) \<subseteq> live memory_env memory_world"
    using latency_leaves_nothing [OF memory_retry run] r3(2) by blast
  then show ?thesis using run r3 by (auto simp: live_def memory_world_def)
qed

text \<open>
  The simulation that is cleaned up is not the copy that ran: Cleanup returns at once and does not cancel the client's
  stream.
\<close>

lemma latency_cleanup_cancels_nothing:
  assumes "la_cancel x = None" and "la_done x = None"
  shows "Latency_Cleanup x w = Returns (x, w, None)"
  by (simp add: Latency_Cleanup_def assms)

end
