(* ===== verification/Pod_Startup.thy ===== *)
theory Pod_Startup
  imports App_Sims Kube_Memory
begin

text \<open>
  The pod start-up benchmark (sims/podstartup/podstartup.go): workers that create a pod, poll it until it is ready,
  and delete it; the collection of their results, and its statistics. Durations and sums of 64 bits wrap.
  YAML is a parameter.
\<close>

section \<open>Reading pods\<close>

record StartupConfig =
  sc_Namespace :: string
  sc_Concurrency :: int
  sc_Inject :: bool
  sc_Cooldown :: int
  sc_Spec :: string

definition startup_defaults :: StartupConfig where
  "startup_defaults = \<lparr>sc_Namespace = [], sc_Concurrency = 1, sc_Inject = False, sc_Cooldown = 10 * 10 ^ 6, sc_Spec = []\<rparr>"

text \<open>The command's Build, with the configuration its flags have filled in; \<open>readFile\<close> is the file system.\<close>

definition startup_Build :: "(string \<Rightarrow> gerror + string) \<Rightarrow> string \<Rightarrow> StartupConfig \<Rightarrow> gerror + StartupConfig" where
  "startup_Build readFile specFile c =
     (if sc_Namespace c = [] then Inl (ErrText ''--namespace required'')
      else if specFile = [] then Inl (ErrText ''--spec required'')
      else case readFile specFile of Inl err \<Rightarrow> Inl err | Inr f \<Rightarrow> Inr (c\<lparr>sc_Spec := f\<rparr>))"

definition createPod :: "(string \<Rightarrow> gerror + kobj) \<Rightarrow> StartupConfig \<Rightarrow> 's world \<Rightarrow> gerror + kobj \<times> 's world" where
  "createPod unmarshal a w =
     (case unmarshal (sc_Spec a) of
        Inl err \<Rightarrow> Inl err
      | Inr p \<Rightarrow>
          (let (uid, r1) = GenUID (rnd w)
           in Inr (p\<lparr>o_namespace := sc_Namespace a, o_name := ''startup-'' @ uid,
                     o_labels := (o_labels p)(''sidecar.istio.io/inject'' \<mapsto> (if sc_Inject a then ''true'' else ''false''))\<rparr>,
                   w\<lparr>rnd := r1\<rparr>)))"

text \<open>Conditions; the index of the first of a type and the condition.\<close>

fun condition_from :: "nat \<Rightarrow> podcondition list \<Rightarrow> string \<Rightarrow> int \<times> podcondition option" where
  "condition_from i [] t = (-1, None)"
| "condition_from i (c # cs) t = (if cond_type c = t then (int i, Some c) else condition_from (Suc i) cs t)"

definition GetPodConditionFromList :: "podcondition list \<Rightarrow> string \<Rightarrow> int \<times> podcondition option" where
  "GetPodConditionFromList conditions t = condition_from 0 conditions t"

definition GetPodCondition :: "podstatus option \<Rightarrow> string \<Rightarrow> int \<times> podcondition option" where
  "GetPodCondition status t = (case status of None \<Rightarrow> (-1, None) | Some s \<Rightarrow> GetPodConditionFromList (st_conditions s) t)"

definition GetPodReadyCondition :: "podstatus \<Rightarrow> podcondition option" where
  "GetPodReadyCondition status = snd (GetPodCondition (Some status) ''Ready'')"

definition IsPodReadyConditionTrue :: "podstatus \<Rightarrow> bool" where
  "IsPodReadyConditionTrue status =
     (case GetPodReadyCondition status of None \<Rightarrow> False | Some condition \<Rightarrow> cond_status condition = ''True'')"

definition status_of :: "kobj \<Rightarrow> podstatus" where
  "status_of pod = (case o_status pod of Status (PodStatus s) \<Rightarrow> s | _ \<Rightarrow> empty_podstatus)"

definition IsPodReady :: "kobj \<Rightarrow> bool" where
  "IsPodReady pod = IsPodReadyConditionTrue (status_of pod)"

text \<open>Times are nanoseconds; 0 is the zero time.\<close>

definition GetPodReadyTime :: "kobj \<Rightarrow> int" where
  "GetPodReadyTime pod =
     (case GetPodReadyCondition (status_of pod) of
        None \<Rightarrow> 0
      | Some c \<Rightarrow> if cond_status c = ''True'' then cond_lastTransitionTime c else 0)"

fun init_times :: "containerstatus list \<Rightarrow> string \<Rightarrow> int \<times> int" where
  "init_times [] name = (0, 0)"
| "init_times (c # cs) name =
     (if cs_name c \<noteq> name then init_times cs name
      else case cs_terminated c of Some st \<Rightarrow> st | None \<Rightarrow> init_times cs name)"

definition GetInitContainerTimes :: "kobj \<Rightarrow> string \<Rightarrow> int \<times> int" where
  "GetInitContainerTimes pod name = init_times (st_initContainerStatuses (status_of pod)) name"

fun running_time :: "containerstatus list \<Rightarrow> string \<Rightarrow> int" where
  "running_time [] name = 0"
| "running_time (c # cs) name =
     (if cs_name c \<noteq> name then running_time cs name
      else case cs_running c of Some st \<Rightarrow> st | None \<Rightarrow> running_time cs name)"

definition GetContainerTimes :: "kobj \<Rightarrow> string \<Rightarrow> int" where
  "GetContainerTimes pod name = running_time (st_containerStatuses (status_of pod)) name"

section \<open>Results\<close>

record result =
  podName :: string
  read :: int
  initStart :: int
  initEnd :: int
  start :: int
  statusReady :: int
  ready :: int

definition no_result :: result where
  "no_result = \<lparr>podName = [], read = 0, initStart = 0, initEnd = 0, start = 0, statusReady = 0, ready = 0\<rparr>"

text \<open>What one look at the pod at time \<open>t\<close> adds to the result; \<open>t0\<close> is when it was created.\<close>

definition observe :: "int \<Rightarrow> int \<Rightarrow> kobj \<Rightarrow> result \<Rightarrow> result" where
  "observe t t0 kpod res =
     (let r1 = (if read res = 0 then res\<lparr>read := t - t0, podName := o_name kpod\<rparr> else res);
          (s, e) = GetInitContainerTimes kpod ''istio-init'';
          r2 = (if s \<noteq> 0 then r1\<lparr>initStart := s - t0\<rparr> else r1);
          r3 = (if e \<noteq> 0 then r2\<lparr>initEnd := e - t0\<rparr> else r2);
          cStart = GetContainerTimes kpod ''app'';
          r4 = (if cStart \<noteq> 0 then r3\<lparr>start := cStart - t0\<rparr> else r3);
          sr = GetPodReadyTime kpod;
          r5 = (if statusReady r4 = 0 \<and> sr \<noteq> 0 then r4\<lparr>statusReady := sr - t0\<rparr> else r4)
      in if IsPodReady kpod then r5\<lparr>ready := t - t0\<rparr> else r5)"

section \<open>Statistics\<close>

definition wrap64 :: "int \<Rightarrow> int" where
  "wrap64 x = (x + 2 ^ 63) mod 2 ^ 64 - 2 ^ 63"

text \<open>Go's integer division rounds towards zero, and so does \<open>Truncate\<close>.\<close>

definition go_div :: "int \<Rightarrow> int \<Rightarrow> int" where
  "go_div a b = sgn a * sgn b * (\<bar>a\<bar> div \<bar>b\<bar>)"

definition Truncate_ms :: "int \<Rightarrow> int" where
  "Truncate_ms d = go_div d (10 ^ 6) * 10 ^ 6"

definition avg :: "result list \<Rightarrow> (result \<Rightarrow> int) \<Rightarrow> int" where
  "avg res f =
     (if length res = 0 then 0
      else Truncate_ms (go_div (foldl (\<lambda>s t. wrap64 (s + f t)) 0 res) (int (length res))))"

definition max_of :: "result list \<Rightarrow> (result \<Rightarrow> int) \<Rightarrow> int" where
  "max_of res f = Truncate_ms (foldl (\<lambda>s t. let g = f t in if g > s then g else s) 0 res)"

text \<open>The columns of the two tables that are printed at the end, and of the line of one result.\<close>

definition columns :: "(result \<Rightarrow> int) list" where
  "columns = [initStart, \<lambda>r. wrap64 (start r - initStart r), \<lambda>r. wrap64 (statusReady r - start r),
     \<lambda>r. wrap64 (ready r - start r), ready]"

definition averages :: "result list \<Rightarrow> int list" where
  "averages results = map (avg results) columns"

definition maxima :: "result list \<Rightarrow> int list" where
  "maxima results = map (max_of results) columns"

definition report_line :: "result \<Rightarrow> int list \<times> string" where
  "report_line r = (map Truncate_ms [initStart r, wrap64 (start r - initStart r), statusReady r, wrap64 (ready r - start r), ready r], podName r)"

section \<open>Workers\<close>

text \<open>
  A worker starts work, polls the pod it has created at a time, or has a result to report. Sleeps only let
  time pass, which any step may come after.
\<close>

datatype worker = Idle | Polling kobj int result | Reporting result | Stopped

datatype smain = Launching | Collecting | Waiting | Finished

text \<open>\<open>su_failed\<close> are the pods whose deletion failed, which is only logged.\<close>

record 's startup_run =
  su_workers :: "worker list"
  su_results :: "result list"
  su_main :: smain
  su_done :: bool
  su_failed :: "key set"
  su_world :: "'s world"

definition set_worker :: "nat \<Rightarrow> worker \<Rightarrow> 's startup_run \<Rightarrow> 's startup_run" where
  "set_worker i v r = r\<lparr>su_workers := (su_workers r)[i := v]\<rparr>"

definition pod_key :: "kobj \<Rightarrow> key" where
  "pod_key pod = obj_key ''Pod'' pod"

text \<open>A pod that cannot be made ends the program.\<close>

definition start_work :: "'s kenv \<Rightarrow> (string \<Rightarrow> gerror + kobj) \<Rightarrow> StartupConfig \<Rightarrow> nat \<Rightarrow> 's startup_run \<Rightarrow> 's startup_run outcome" where
  "start_work env unmarshal a i r =
     (case createPod unmarshal a (su_world r) of
        Inl err \<Rightarrow> Panics (err_text err)
      | Inr (pod, w) \<Rightarrow>
          (let t0 = now w
           in case Apply env (Concrete ''Pod'') pod w of
                (pod1, Some err, w1) \<Rightarrow> Returns (set_worker i (Reporting no_result) (r\<lparr>su_world := w1\<rparr>))
              | (pod1, None, w1) \<Rightarrow> Returns (set_worker i (Polling pod1 t0 no_result) (r\<lparr>su_world := w1\<rparr>))))"

text \<open>The deferred deletion, when work returns.\<close>

definition end_work :: "'s kenv \<Rightarrow> kobj \<Rightarrow> result \<Rightarrow> nat \<Rightarrow> 's startup_run \<Rightarrow> 's startup_run outcome" where
  "end_work env pod res i r =
     obind (Delete env (Concrete ''Pod'') pod (su_world r)) (\<lambda>(e, w).
       Returns (set_worker i (Reporting res)
         (r\<lparr>su_world := w, su_failed := (if e = None then su_failed r else insert (pod_key pod) (su_failed r))\<rparr>)))"

definition poll :: "'s kenv \<Rightarrow> nat \<Rightarrow> 's startup_run \<Rightarrow> 's startup_run outcome" where
  "poll env i r =
     (case su_workers r ! i of
        Polling pod t0 res \<Rightarrow>
          (case exec env (Get (pod_key pod)) (su_world r) of
             (Inl err, w) \<Rightarrow>
               if \<not> IsNotFound env err then end_work env pod res i (r\<lparr>su_world := w\<rparr>) else Returns (r\<lparr>su_world := w\<rparr>)
           | (Inr kpod, w) \<Rightarrow>
               (let res1 = observe (now w) t0 kpod res
                in if IsPodReady kpod then end_work env pod res1 i (r\<lparr>su_world := w\<rparr>)
                   else Returns (set_worker i (Polling pod t0 res1) (r\<lparr>su_world := w\<rparr>))))
      | _ \<Rightarrow> Returns r)"

definition worker_is :: "'s startup_run \<Rightarrow> nat \<Rightarrow> (worker \<Rightarrow> bool) \<Rightarrow> bool" where
  "worker_is r i P \<longleftrightarrow> i < length (su_workers r) \<and> P (su_workers r ! i)"

inductive startup_step :: "'s kenv \<Rightarrow> (string \<Rightarrow> gerror + kobj) \<Rightarrow> StartupConfig \<Rightarrow> 's startup_run \<Rightarrow> 's startup_run \<Rightarrow> bool"
  for env unmarshal a where
  launch: "su_main r = Launching \<Longrightarrow> int (length (su_workers r)) < sc_Concurrency a \<Longrightarrow>
    startup_step env unmarshal a r (r\<lparr>su_workers := su_workers r @ [Idle]\<rparr>)"
| launched: "su_main r = Launching \<Longrightarrow> \<not> int (length (su_workers r)) < sc_Concurrency a \<Longrightarrow>
    startup_step env unmarshal a r (r\<lparr>su_main := Collecting\<rparr>)"
| work: "worker_is r i (\<lambda>v. v = Idle) \<Longrightarrow> \<not> su_done r \<Longrightarrow> start_work env unmarshal a i r = Returns r' \<Longrightarrow> startup_step env unmarshal a r r'"
| quit: "worker_is r i (\<lambda>v. v = Idle) \<Longrightarrow> su_done r \<Longrightarrow> startup_step env unmarshal a r (set_worker i Stopped r)"
| polled: "worker_is r i (\<lambda>v. \<exists>pod t0 res. v = Polling pod t0 res) \<Longrightarrow> poll env i r = Returns r' \<Longrightarrow> startup_step env unmarshal a r r'"
| deliver: "worker_is r i (\<lambda>v. v = Reporting res) \<Longrightarrow> su_main r = Collecting \<Longrightarrow>
    startup_step env unmarshal a r (set_worker i Idle (r\<lparr>su_results := su_results r @ [res]\<rparr>))"
| give_up: "worker_is r i (\<lambda>v. \<exists>res. v = Reporting res) \<Longrightarrow> su_done r \<Longrightarrow> startup_step env unmarshal a r (set_worker i Stopped r)"
| collected: "su_main r = Collecting \<Longrightarrow> su_done r \<Longrightarrow> startup_step env unmarshal a r (r\<lparr>su_main := Waiting\<rparr>)"
| finished: "su_main r = Waiting \<Longrightarrow> \<forall>v \<in> set (su_workers r). v = Stopped \<Longrightarrow> startup_step env unmarshal a r (r\<lparr>su_main := Finished\<rparr>)"
| cancel: "startup_step env unmarshal a r (r\<lparr>su_done := True\<rparr>)"
| elapse: "0 \<le> d \<Longrightarrow> startup_step env unmarshal a r (r\<lparr>su_world := (su_world r)\<lparr>now := now (su_world r) + d\<rparr>\<rparr>)"

definition startup_start :: "'s world \<Rightarrow> 's startup_run" where
  "startup_start w = \<lparr>su_workers = [], su_results = [], su_main = Launching, su_done = False, su_failed = {}, su_world = w\<rparr>"

definition Startup_Cleanup :: "(StartupConfig, 's world) action" where
  "Startup_Cleanup a w = Returns (a, w, None)"

section \<open>Failed creations\<close>

text \<open>An Apply that fails has made nothing, when the object has no status to write.\<close>

lemma retry_ref_error:
  assumes "\<And>a a' e. P a \<Longrightarrow> f a = (a', Some e) \<Longrightarrow> P a'"
  shows "P a \<Longrightarrow> retry_ref isc n f a = (a', Some e) \<Longrightarrow> P a'"
proof (induction n arbitrary: a)
  case (Suc n)
  obtain a1 e1 where f: "f a = (a1, e1)" by fastforce
  then obtain e2 where e1: "e1 = Some e2" using Suc.prems(2) by (cases e1) auto
  with Suc.prems(1) assms f have "P a1" by blast
  then show ?case using Suc f e1 by (auto split: if_splits)
qed simp

lemma refresh_version_live:
  "refresh_version env T a = (a', e) \<Longrightarrow> live env (at_world a') = live env (at_world a)"
  by (auto simp: refresh_version_def split: if_splits prod.splits sum.splits dest!: exec_live)

lemma update_fn_error_live:
  assumes "update_fn env T a = (a', Some e)"
  shows "live env (at_world a') = live env (at_world a)"
proof -
  obtain a1 e1 where r: "refresh_version env T a = (a1, e1)" by fastforce
  obtain y w' where x: "exec env (Update_req (TypeName T) (at_obj a1)) (at_world a1) = (y, w')" by fastforce
  show ?thesis
    using assms r x refresh_version_live [OF r] exec_live [OF x]
    by (auto simp: update_fn_def split: option.splits sum.splits)
qed

lemma update_error_live:
  assumes "retry_documented env" and "update env T o1 w = (o2, res, Some e, w')"
  shows "live env w' = live env w"
proof -
  obtain a where r: "retry_ref (IsConflict env) 3 (update_fn env T)
      \<lparr>at_first = True, at_obj = o1, at_res = None, at_world = w\<rparr> = (a, Some e)" and a: "w' = at_world a"
    using assms by (auto simp: update_def retry_documented_def split: prod.splits)
  have "live env (at_world a) = live env w"
    by (rule retry_ref_error [where P = "\<lambda>a. live env (at_world a) = live env w", OF _ _ r])
      (auto dest: update_fn_error_live)
  then show ?thesis by (simp add: a)
qed

lemma update_status:
  assumes "retry_documented env" and "update env T o1 w = (o2, res, e, w')"
  shows "o_status o2 = o_status o1"
proof -
  obtain a where r: "retry_ref (IsConflict env) 3 (update_fn env T)
      \<lparr>at_first = True, at_obj = o1, at_res = None, at_world = w\<rparr> = (a, e)" and a: "o2 = at_obj a"
    using assms by (auto simp: update_def retry_documented_def split: prod.splits)
  have keep: "o_status (at_obj a1) = o_status (at_obj a0)" if "update_fn env T a0 = (a1, e1)" for a0 a1 e1
    using that by (auto simp: update_fn_def refresh_version_def split: if_splits prod.splits sum.splits option.splits)
  have "o_status (at_obj a) = o_status o1"
    by (rule retry_ref_keeps [where P = "\<lambda>a. o_status (at_obj a) = o_status o1", OF _ _ r]) (auto dest: keep)
  then show ?thesis by (simp add: a)
qed

lemma Apply_error_live:
  assumes ok: "retry_documented env" and ns: "\<not> hasStatusInternal ob" and app: "Apply env T ob w = (ob', Some err, w')"
  shows "live env w' = live env w"
proof -
  obtain got w1 where g: "exec env (Get (obj_key (TypeName T) ob)) w = (got, w1)" by fastforce
  obtain y w2 where c: "exec env (Create_req (TypeName T) ob) w1 = (y, w2)" by fastforce
  have l1: "live env w1 = live env w" using exec_live [OF g] by simp
  have st: "\<not> hasStatus env (ob\<lparr>o_resourceVersion := v\<rparr>)" for v using ns by (simp add: hasStatus_def hasStatusInternal_def)
  define rv where "rv = (case got of Inl e \<Rightarrow> [] | Inr res \<Rightarrow> o_resourceVersion res)"
  obtain o3 r e1 w3 where u: "update env T (ob\<lparr>o_resourceVersion := rv\<rparr>) w1 = (o3, r, e1, w3)" by (metis prod_cases4)
  obtain res where app1: "internalApply env T ob False w = (ob', res, Some err, w')" using app by (auto simp: Apply_def split: prod.splits)
  show ?thesis
  proof (cases "case got of Inl e \<Rightarrow> IsNotFound env e | Inr _ \<Rightarrow> False")
    case True
    then show ?thesis using app1 g c st l1 exec_live [OF c]
      by (auto simp: internalApply_def Let_def split: sum.splits if_splits)
  next
    case False
    have "o_status o3 = o_status ob" if "e1 = None" using update_status [OF ok u] by simp
    then have st3: "\<not> hasStatus env (o3\<lparr>o_resourceVersion := v\<rparr>)" if "e1 = None" for v
      using that ns by (simp add: hasStatus_def hasStatusInternal_def)
    have "e1 = Some err \<and> w' = w3"
      using app1 g False u st3 by (cases e1) (auto simp: internalApply_def Let_def rv_def [symmetric])
    then show ?thesis using update_error_live [OF ok] u l1 by simp
  qed
qed

section \<open>Every pod is deleted\<close>

fun measured :: "worker \<Rightarrow> key set" where
  "measured (Polling pod t0 res) = {pod_key pod}"
| "measured v = {}"

definition in_progress :: "worker list \<Rightarrow> key set" where
  "in_progress vs = (\<Union>j < length vs. measured (vs ! j))"

definition others :: "worker list \<Rightarrow> nat \<Rightarrow> key set" where
  "others vs i = (\<Union>j \<in> {..<length vs} - {i}. measured (vs ! j))"

lemma in_progress_split: "i < length vs \<Longrightarrow> in_progress vs = measured (vs ! i) \<union> others vs i"
  by (auto simp: in_progress_def others_def)

lemma in_progress_update: "i < length vs \<Longrightarrow> in_progress (vs[i := v]) = measured v \<union> others vs i"
  by (auto simp: in_progress_def others_def nth_list_update split: if_splits)

lemma in_progress_append [simp]: "in_progress (vs @ [Idle]) = in_progress vs"
proof -
  have "(\<Union>j < length vs. measured ((vs @ [Idle]) ! j)) = (\<Union>j < length vs. measured (vs ! j))"
    by (rule SUP_cong) (simp_all add: nth_append)
  then show ?thesis by (simp add: in_progress_def lessThan_Suc)
qed

lemma in_progress_none:
  assumes "\<forall>v \<in> set vs. v = Stopped"
  shows "in_progress vs = {}"
proof -
  have "measured (vs ! j) = {}" if "j < length vs" for j
  proof -
    have "vs ! j = Stopped" using assms nth_mem [OF that] by blast
    then show ?thesis by simp
  qed
  then show ?thesis by (simp add: in_progress_def)
qed

text \<open>The specification of the benchmark is a pod without a status, as a user writes it.\<close>

definition spec_without_status :: "(string \<Rightarrow> gerror + kobj) \<Rightarrow> StartupConfig \<Rightarrow> bool" where
  "spec_without_status unmarshal a \<longleftrightarrow> (\<forall>p. unmarshal (sc_Spec a) = Inr p \<longrightarrow> \<not> hasStatusInternal p)"

definition startup_inv :: "'s kenv \<Rightarrow> StartupConfig \<Rightarrow> key set \<Rightarrow> 's startup_run \<Rightarrow> bool" where
  "startup_inv env a L r \<longleftrightarrow>
     live env (su_world r) \<subseteq> L \<union> in_progress (su_workers r) \<union> su_failed r \<and>
     int (length (su_workers r)) \<le> max 0 (sc_Concurrency a) \<and>
     (su_main r = Finished \<longrightarrow> (\<forall>v \<in> set (su_workers r). v = Stopped))"

lemma finished_no_worker:
  "startup_inv env a L r \<Longrightarrow> worker_is r i P \<Longrightarrow> \<not> P Stopped \<Longrightarrow> su_main r \<noteq> Finished"
  unfolding startup_inv_def worker_is_def by (metis nth_mem)

text \<open>A worker that changes its state and the world with it.\<close>

lemma startup_inv_worker:
  assumes inv: "startup_inv env a L r" and i: "worker_is r i P" "\<not> P Stopped"
    and live: "live env w \<subseteq> L \<union> measured v \<union> others (su_workers r) i \<union> F"
  shows "startup_inv env a L (set_worker i v (r\<lparr>su_world := w, su_failed := F\<rparr>))"
proof -
  have "i < length (su_workers r)" using i(1) by (simp add: worker_is_def)
  then have "in_progress ((su_workers r)[i := v]) = measured v \<union> others (su_workers r) i" by (rule in_progress_update)
  then show ?thesis using inv live finished_no_worker [OF inv i] by (simp add: startup_inv_def set_worker_def Un_assoc)
qed

lemma end_work_inv:
  assumes inv: "startup_inv env a L r" and i: "worker_is r i P" "\<not> P Stopped" and pod: "su_workers r ! i = Polling pod t0 res0"
    and w: "live env w = live env (su_world r)" and run: "end_work env pod res i (r\<lparr>su_world := w\<rparr>) = Returns r'"
  shows "startup_inv env a L r'"
proof -
  obtain e w1 where d: "Delete env (Concrete ''Pod'') pod w = Returns (e, w1)"
    and r': "r' = set_worker i (Reporting res) (r\<lparr>su_world := w1, su_failed := (if e = None then su_failed r else insert (pod_key pod) (su_failed r))\<rparr>)"
    using run by (auto simp: end_work_def obind_Returns_iff)
  have len: "i < length (su_workers r)" using i(1) by (simp add: worker_is_def)
  have "live env (su_world r) \<subseteq> L \<union> ({pod_key pod} \<union> others (su_workers r) i) \<union> su_failed r"
    using inv in_progress_split [OF len] pod by (simp add: startup_inv_def)
  moreover have "live env w1 \<subseteq> live env w" "e = None \<Longrightarrow> pod_key pod \<notin> live env w1"
    using Delete_live [OF d] by (auto simp: pod_key_def)
  ultimately have "live env w1 \<subseteq> L \<union> measured (Reporting res) \<union> others (su_workers r) i \<union> (if e = None then su_failed r else insert (pod_key pod) (su_failed r))"
    unfolding w by (cases e; simp; blast)
  from startup_inv_worker [OF inv i this] show ?thesis by (simp add: r')
qed

lemma start_work_inv:
  assumes ok: "retry_documented env" and ns: "spec_without_status unmarshal a"
    and inv: "startup_inv env a L r" and i: "worker_is r i (\<lambda>v. v = Idle)" and run: "start_work env unmarshal a i r = Returns r'"
  shows "startup_inv env a L r'"
proof -
  obtain pod w where c: "createPod unmarshal a (su_world r) = Inr (pod, w)"
    using run by (auto simp: start_work_def split: sum.splits)
  then have w: "live env w = live env (su_world r)" and st: "\<not> hasStatusInternal pod"
    using ns by (auto simp: spec_without_status_def createPod_def live_def hasStatusInternal_def Let_def split: sum.splits prod.splits)
  obtain pod1 e w1 where app: "Apply env (Concrete ''Pod'') pod w = (pod1, e, w1)" by (rule prod_cases3)
  have len: "i < length (su_workers r)" and idle: "su_workers r ! i = Idle" using i by (simp_all add: worker_is_def)
  have old: "live env (su_world r) \<subseteq> L \<union> others (su_workers r) i \<union> su_failed r"
    using inv in_progress_split [OF len] idle by (simp add: startup_inv_def)
  show ?thesis
  proof (cases e)
    case (Some err)
    have "live env w1 = live env (su_world r)" using Apply_error_live [OF ok st] app Some w by simp
    then have "live env w1 \<subseteq> L \<union> measured (Reporting no_result) \<union> others (su_workers r) i \<union> su_failed r" using old by simp
    from startup_inv_worker [OF inv i _ this] show ?thesis using run c app Some by (simp add: start_work_def Let_def)
  next
    case None
    have key: "pod_key pod1 = pod_key pod" using Apply_key [OF ok app] by (simp add: pod_key_def)
    have "live env w1 \<subseteq> insert (pod_key pod) (live env (su_world r))"
      using Apply_live [OF ok app] w by (simp add: pod_key_def)
    then have "live env w1 \<subseteq> L \<union> measured (Polling pod1 (now w) no_result) \<union> others (su_workers r) i \<union> su_failed r"
      using old key by auto
    from startup_inv_worker [OF inv i _ this] show ?thesis using run c app None by (simp add: start_work_def Let_def)
  qed
qed

lemma poll_inv:
  assumes inv: "startup_inv env a L r" and i: "worker_is r i (\<lambda>v. \<exists>pod t0 res. v = Polling pod t0 res)" and run: "poll env i r = Returns r'"
  shows "startup_inv env a L r'"
proof -
  obtain pod t0 res where pod: "su_workers r ! i = Polling pod t0 res" and len: "i < length (su_workers r)"
    using i by (auto simp: worker_is_def)
  obtain y w where x: "exec env (Get (pod_key pod)) (su_world r) = (y, w)" by fastforce
  have w: "live env w = live env (su_world r)" using exec_live [OF x] by simp
  have old: "live env (su_world r) \<subseteq> L \<union> {pod_key pod} \<union> others (su_workers r) i \<union> su_failed r"
    using inv in_progress_split [OF len] pod by (simp add: startup_inv_def Un_assoc)
  have stay: "startup_inv env a L (set_worker i (Polling pod t0 res1) (r\<lparr>su_world := w\<rparr>))" for res1
  proof -
    have "live env w \<subseteq> L \<union> measured (Polling pod t0 res1) \<union> others (su_workers r) i \<union> su_failed r" using old w by simp
    from startup_inv_worker [OF inv i _ this] show ?thesis by simp
  qed
  have over: "startup_inv env a L r'" if "end_work env pod res1 i (r\<lparr>su_world := w\<rparr>) = Returns r'" for res1
    by (rule end_work_inv [OF inv i _ pod w that]) simp
  have same: "startup_inv env a L (r\<lparr>su_world := w\<rparr>)" using inv w by (simp add: startup_inv_def)
  show ?thesis
  proof (cases y)
    case (Inl err)
    then show ?thesis using run pod x over same by (auto simp: poll_def split: if_splits)
  next
    case (Inr kpod)
    then show ?thesis using run pod x over stay by (auto simp: poll_def Let_def split: if_splits)
  qed
qed

lemma startup_step_inv:
  assumes ok: "retry_documented env" and ns: "spec_without_status unmarshal a"
    and "startup_step env unmarshal a r r'" and inv: "startup_inv env a L r"
  shows "startup_inv env a L r'"
proof -
  have idle: "startup_inv env a L (set_worker i v (r\<lparr>su_results := rs\<rparr>))"
    if "worker_is r i P" "\<not> P Stopped" "measured (su_workers r ! i) = {}" "measured v = {}" for i v rs P
  proof -
    have len: "i < length (su_workers r)" using that(1) by (simp add: worker_is_def)
    then have "in_progress ((su_workers r)[i := v]) = in_progress (su_workers r)"
      using in_progress_split [OF len] in_progress_update [OF len] that(3,4) by simp
    then show ?thesis using inv finished_no_worker [OF inv that(1,2)] by (simp add: startup_inv_def set_worker_def)
  qed
  have idle1: "startup_inv env a L (set_worker i v r)"
    if "worker_is r i P" "\<not> P Stopped" "measured (su_workers r ! i) = {}" "measured v = {}" for i v P
    using idle [OF that, of "su_results r"] by simp
  from assms(3) show ?thesis
  proof cases
    case launch
    then show ?thesis using inv by (simp add: startup_inv_def)
  next
    case (work i)
    then show ?thesis using start_work_inv [OF ok ns inv] by blast
  next
    case (quit i)
    have "measured (su_workers r ! i) = {}" using quit(2) by (simp add: worker_is_def)
    then show ?thesis using idle1 [OF quit(2)] quit(1) by simp
  next
    case (polled i)
    then show ?thesis using poll_inv [OF inv] by blast
  next
    case (deliver i res)
    have "measured (su_workers r ! i) = {}" using deliver(2) by (simp add: worker_is_def)
    then show ?thesis using idle [OF deliver(2)] deliver(1) by simp
  next
    case (give_up i)
    have "measured (su_workers r ! i) = {}" using give_up(2) by (auto simp: worker_is_def)
    then show ?thesis using idle1 [OF give_up(2)] give_up(1) by simp
  next
    case (elapse d)
    then show ?thesis using inv by (simp add: startup_inv_def live_def)
  qed (use inv in \<open>simp_all add: startup_inv_def\<close>)
qed

interpretation startup_runs: step_invariant "startup_step env unmarshal a" "startup_inv env a L"
    "retry_documented env \<and> spec_without_status unmarshal a"
  by unfold_locales (blast intro: startup_step_inv)

text \<open>
  C39: The start-up benchmark cleans up after itself. With a pod specification that has no status, at every moment
  the pods that exist beyond those that were there are the ones that a worker is measuring, at most one for each of
  the Concurrency workers, and those whose deletion failed; and when Run returns, only the latter are left.
\<close>

theorem startup_leaves_nothing:
  assumes "retry_documented env" and "spec_without_status unmarshal a"
    and "(startup_step env unmarshal a)\<^sup>*\<^sup>* (startup_start w) r"
  shows "live env (su_world r) \<subseteq> live env w \<union> in_progress (su_workers r) \<union> su_failed r \<and>
    int (length (su_workers r)) \<le> max 0 (sc_Concurrency a) \<and>
    (su_main r = Finished \<longrightarrow> live env (su_world r) \<subseteq> live env w \<union> su_failed r)"
proof -
  have "startup_inv env a (live env w) (startup_start w)" by (simp add: startup_inv_def startup_start_def)
  then have inv: "startup_inv env a (live env w) r" using startup_runs.star_inv assms by blast
  then show ?thesis using in_progress_none [of "su_workers r"] by (auto simp: startup_inv_def)
qed

section \<open>A small run\<close>

text \<open>A server in memory whose pods are ready at once.\<close>

definition ready_status :: podstatus where
  "ready_status = empty_podstatus\<lparr>st_conditions := [\<lparr>cond_type = ''Ready'', cond_status = ''True'', cond_lastTransitionTime = 5\<rparr>]\<rparr>"

fun ready_srv :: "request \<Rightarrow> store \<Rightarrow> (gerror + kobj) \<times> store" where
  "ready_srv (Get k) s = (case memory_srv (Get k) s of
     (Inl e, s1) \<Rightarrow> (Inl e, s1) | (Inr b, s1) \<Rightarrow> (Inr (b\<lparr>o_status := Status (PodStatus ready_status)\<rparr>), s1))"
| "ready_srv req s = memory_srv req s"

definition ready_env :: "store kenv" where
  "ready_env = memory_env\<lparr>srv := ready_srv\<rparr>"

definition one_worker :: StartupConfig where
  "one_worker = \<lparr>sc_Namespace = ''ns'', sc_Concurrency = 1, sc_Inject = True, sc_Cooldown = 10, sc_Spec = ''pod''\<rparr>"

definition plain_unmarshal :: "string \<Rightarrow> gerror + kobj" where
  "plain_unmarshal s = Inr ((new_object ''Pod'' (PodSpec empty_podspec))\<lparr>o_status := ZeroStatus\<rparr>)"

lemma startup_leaves_nothing_witness:
  "\<exists>r. (startup_step ready_env plain_unmarshal one_worker)\<^sup>*\<^sup>* (startup_start memory_world) r \<and>
     su_main r = Finished \<and> length (log (su_world r)) = 4 \<and> live ready_env (su_world r) = {}"
proof -
  let ?S = "startup_step ready_env plain_unmarshal one_worker"
  let ?r0 = "startup_start memory_world :: store startup_run"
  let ?r1 = "?r0\<lparr>su_workers := [Idle]\<rparr>"
  note ev = startup_start_def one_worker_def set_worker_def
  note eval = ev start_work_def createPod_def plain_unmarshal_def GenUID_def memory_world_def ready_env_def memory_env_def
    Apply_def internalApply_def exec_def obj_key_def pod_key_def new_object_def not_found_def next_version_def hasStatus_def hasStatusInternal_def Let_def
  have doc: "retry_documented ready_env" using memory_retry by (simp add: retry_documented_def ready_env_def)
  have spec: "spec_without_status plain_unmarshal one_worker"
    by (simp add: spec_without_status_def plain_unmarshal_def hasStatusInternal_def)
  have s1: "?S ?r0 ?r1" using startup_step.launch [of ?r0 one_worker ready_env plain_unmarshal] by (simp add: ev)
  obtain uid rn where uid: "write_runes 8 (rnd memory_world) = (uid, rn)" by fastforce
  have "\<exists>r2 pod. start_work ready_env plain_unmarshal one_worker 0 ?r1 = Returns r2 \<and> su_workers r2 = [Polling pod 0 no_result] \<and>
      su_main r2 = Launching \<and> \<not> su_done r2 \<and> su_failed r2 = {} \<and> length (log (su_world r2)) = 2 \<and> srv_state (su_world r2) (pod_key pod) \<noteq> None"
    using uid by (simp add: eval)
  then obtain r2 pod where r2: "start_work ready_env plain_unmarshal one_worker 0 ?r1 = Returns r2" "su_workers r2 = [Polling pod 0 no_result]"
    "su_main r2 = Launching" "su_failed r2 = {}" "length (log (su_world r2)) = 2" "srv_state (su_world r2) (pod_key pod) \<noteq> None" by blast
  have s2: "?S ?r1 r2" by (rule startup_step.work [OF _ _ r2(1)]) (simp_all add: worker_is_def startup_start_def)
  have "\<exists>r3 res. poll ready_env 0 r2 = Returns r3 \<and> su_workers r3 = [Reporting res] \<and> su_main r3 = Launching \<and> su_failed r3 = {} \<and>
      length (log (su_world r3)) = 4"
    using r2(2-6) by (auto simp: poll_def exec_def end_work_def Delete_def pod_key_def ready_env_def memory_env_def set_worker_def Let_def IsPodReady_def
        IsPodReadyConditionTrue_def GetPodReadyCondition_def GetPodCondition_def GetPodConditionFromList_def status_of_def ready_status_def)
  then obtain r3 res where r3: "poll ready_env 0 r2 = Returns r3" "su_workers r3 = [Reporting res]" "su_main r3 = Launching" "su_failed r3 = {}"
    "length (log (su_world r3)) = 4" by blast
  have s3: "?S r2 r3" by (rule startup_step.polled [OF _ r3(1)]) (simp add: worker_is_def r2(2))
  let ?r4 = "r3\<lparr>su_done := True\<rparr>"
  have s4: "?S r3 ?r4" by (rule startup_step.cancel)
  let ?r5 = "?r4\<lparr>su_main := Collecting\<rparr>"
  have s5: "?S ?r4 ?r5" by (rule startup_step.launched) (simp_all add: r3(2,3) one_worker_def)
  let ?r6 = "set_worker 0 Stopped ?r5"
  have s6: "?S ?r5 ?r6" by (rule startup_step.give_up) (simp_all add: worker_is_def r3(2))
  let ?r7 = "?r6\<lparr>su_main := Waiting\<rparr>"
  have s7: "?S ?r6 ?r7" by (rule startup_step.collected) (simp_all add: set_worker_def)
  let ?r8 = "?r7\<lparr>su_main := Finished\<rparr>"
  have s8: "?S ?r7 ?r8" by (rule startup_step.finished) (simp_all add: set_worker_def r3(2))
  have run: "?S\<^sup>*\<^sup>* ?r0 ?r8" using s1 s2 s3 s4 s5 s6 s7 s8 by (meson converse_rtranclp_into_rtranclp rtranclp.rtrancl_refl)
  have fin: "su_main ?r8 = Finished" "su_failed ?r8 = {}" "length (log (su_world ?r8)) = 4" by (simp_all add: set_worker_def r3(4,5))
  have "live ready_env (su_world ?r8) \<subseteq> live ready_env memory_world"
    using startup_leaves_nothing [OF doc spec run] fin(1,2) by simp
  then show ?thesis using run fin by (intro exI [of _ ?r8]) (simp add: live_def memory_world_def)
qed

section \<open>What the statistics say\<close>

lemma wrap64_id: "0 \<le> x \<Longrightarrow> x < 2 ^ 63 \<Longrightarrow> wrap64 x = x"
  by (simp add: wrap64_def)

lemma go_div_nonneg: "0 \<le> a \<Longrightarrow> 0 < b \<Longrightarrow> go_div a b = a div b"
  by (cases "a = 0") (simp_all add: go_div_def)

lemma Truncate_ms_nonneg:
  assumes "0 \<le> d"
  shows "0 \<le> Truncate_ms d" "Truncate_ms d \<le> d" "d < Truncate_ms d + 10 ^ 6"
proof -
  have t: "Truncate_ms d = d div 10 ^ 6 * 10 ^ 6" using assms by (simp add: Truncate_ms_def go_div_nonneg)
  show "0 \<le> Truncate_ms d" "Truncate_ms d \<le> d" "d < Truncate_ms d + 10 ^ 6"
    unfolding t using assms div_mult_mod_eq [of d "10 ^ 6"] pos_mod_bound [of "10 ^ 6" d] pos_mod_sign [of "10 ^ 6" d]
    by (simp_all add: pos_imp_zdiv_nonneg_iff del: minus_mod_eq_div_mult [symmetric])
qed

lemma Truncate_ms_mono: "0 \<le> a \<Longrightarrow> a \<le> b \<Longrightarrow> Truncate_ms a \<le> Truncate_ms b"
  by (simp add: Truncate_ms_def go_div_nonneg zdiv_mono1)

lemma wrapped_sum:
  "\<forall>r \<in> set res. 0 \<le> f r \<Longrightarrow> 0 \<le> s \<Longrightarrow> s + sum_list (map f res) < 2 ^ 63 \<Longrightarrow>
     foldl (\<lambda>s t. wrap64 (s + f t)) s res = s + sum_list (map f res)"
proof (induction res arbitrary: s)
  case (Cons r res)
  have "0 \<le> sum_list (map f res)" using Cons.prems(1) by (intro sum_list_nonneg) auto
  then have "wrap64 (s + f r) = s + f r" using Cons.prems by (intro wrap64_id) simp_all
  then show ?case using Cons by simp
qed simp

lemma fold_max:
  fixes f :: "result \<Rightarrow> int"
  shows "s \<le> foldl (\<lambda>s t. let g = f t in if g > s then g else s) s res \<and>
    (\<forall>r \<in> set res. f r \<le> foldl (\<lambda>s t. let g = f t in if g > s then g else s) s res) \<and>
    (foldl (\<lambda>s t. let g = f t in if g > s then g else s) s res = s \<or>
     (\<exists>r \<in> set res. foldl (\<lambda>s t. let g = f t in if g > s then g else s) s res = f r))"
proof (induction res arbitrary: s)
  case (Cons r res)
  show ?case using Cons [of s] Cons [of "f r"] by (cases "f r > s") (auto simp: Let_def)
qed simp

lemma sum_le_length:
  fixes f :: "result \<Rightarrow> int"
  shows "\<forall>r \<in> set res. f r \<le> m \<Longrightarrow> sum_list (map f res) \<le> m * int (length res)"
  by (induction res) (auto simp: algebra_simps)

lemma mean_bounds:
  fixes s :: int
  assumes "0 < n"
  shows "s div n * n \<le> s" "s < (s div n + 1) * n"
proof -
  show "s div n * n \<le> s" using div_mult_mod_eq [of s n] pos_mod_sign [OF assms, of s] by linarith
  have "s < s div n * n + n" using div_mult_mod_eq [of s n] pos_mod_bound [OF assms, of s] by linarith
  then show "s < (s div n + 1) * n" by (simp only: distrib_right mult_1_left)
qed

lemma mean_le:
  fixes s :: int
  assumes "0 < n" and "s \<le> m * n"
  shows "s div n \<le> m"
proof -
  have "s div n \<le> (m * n) div n" by (rule zdiv_mono1 [OF assms(2,1)])
  then show ?thesis using assms(1) by simp
qed

text \<open>
  C40: The statistics are what they say: for a column without negative entries whose sum fits into 64 bits, the average is the mean
  rounded down to a millisecond, the maximum is an entry rounded down, no entry rounded down exceeds it, and
  neither does the average.
\<close>

theorem statistics_correct:
  assumes "\<forall>r \<in> set res. 0 \<le> f r" and "sum_list (map f res) < 2 ^ 63" and "res \<noteq> []"
  shows "avg res f * int (length res) \<le> sum_list (map f res) \<and> sum_list (map f res) < (avg res f + 10 ^ 6) * int (length res) \<and>
    (\<exists>r \<in> set res. max_of res f = Truncate_ms (f r)) \<and> (\<forall>r \<in> set res. Truncate_ms (f r) \<le> max_of res f) \<and>
    0 \<le> avg res f \<and> avg res f \<le> max_of res f"
proof -
  let ?S = "sum_list (map f res)" and ?n = "int (length res)"
  let ?m = "foldl (\<lambda>s t. let g = f t in if g > s then g else s) 0 res"
  have n: "0 < ?n" using assms(3) by simp
  have S: "0 \<le> ?S" using assms(1) by (intro sum_list_nonneg) auto
  have avg: "avg res f = Truncate_ms (?S div ?n)"
    using wrapped_sum [of res f 0] assms S n by (simp add: avg_def go_div_nonneg)
  have q: "0 \<le> ?S div ?n" using S n by (simp add: pos_imp_zdiv_nonneg_iff)
  note t = Truncate_ms_nonneg [OF q]
  have "avg res f * ?n \<le> ?S div ?n * ?n" using t(2) n unfolding avg by (simp add: mult_right_mono)
  also have "\<dots> \<le> ?S" by (rule mean_bounds(1) [OF n])
  finally have low: "avg res f * ?n \<le> ?S" .
  have "?S < (?S div ?n + 1) * ?n" by (rule mean_bounds(2) [OF n])
  also have "\<dots> \<le> (avg res f + 10 ^ 6) * ?n" using t(3) n unfolding avg by (intro mult_right_mono) simp_all
  finally have high: "?S < (avg res f + 10 ^ 6) * ?n" .
  have m0: "0 \<le> ?m" and ge: "\<forall>r \<in> set res. f r \<le> ?m" and one: "?m = 0 \<or> (\<exists>r \<in> set res. ?m = f r)"
    using fold_max [of 0 f res] by blast+
  have mx: "max_of res f = Truncate_ms ?m" by (simp add: max_of_def)
  obtain r0 where r0: "r0 \<in> set res" using assms(3) by (cases res) auto
  have att: "\<exists>r \<in> set res. ?m = f r"
  proof (cases "?m = 0")
    case True
    then have "f r0 = ?m" using ge assms(1) r0 by force
    then show ?thesis using r0 by metis
  qed (use one in blast)
  have "?S \<le> ?m * ?n" by (rule sum_le_length [OF ge])
  then have "?S div ?n \<le> ?m" by (rule mean_le [OF n])
  then have "avg res f \<le> max_of res f" unfolding avg mx by (rule Truncate_ms_mono [OF q])
  moreover have "\<forall>r \<in> set res. Truncate_ms (f r) \<le> max_of res f"
    unfolding mx using Truncate_ms_mono assms(1) ge by blast
  moreover have "0 \<le> avg res f" using t(1) by (simp add: avg)
  ultimately show ?thesis using low high att mx by auto
qed

lemma statistics_correct_witness:
  "avg [no_result\<lparr>ready := 3 * 10 ^ 9\<rparr>, no_result\<lparr>ready := 2 * 10 ^ 9\<rparr>] ready
     \<le> max_of [no_result\<lparr>ready := 3 * 10 ^ 9\<rparr>, no_result\<lparr>ready := 2 * 10 ^ 9\<rparr>] ready"
  using statistics_correct [of "[no_result\<lparr>ready := 3 * 10 ^ 9\<rparr>, no_result\<lparr>ready := 2 * 10 ^ 9\<rparr>]" ready] by (simp add: no_result_def)

text \<open>A pod that could not be created reports an empty result, which counts as one that took no time.\<close>

lemma failed_work_lowers_average: "avg [no_result\<lparr>ready := 2 * 10 ^ 9\<rparr>, no_result] ready = 10 ^ 9"
  by (simp add: avg_def no_result_def wrap64_def go_div_def Truncate_ms_def)

end
