(* ===== verification/Adsc_Dial.thy ===== *)
theory Adsc_Dial
  imports Adsc_Load
begin

text \<open>
  Opening an ADS client in detail (Dial and Run of adsc/adsc.go, DialDelta of adsc/delta.go): defaults, the node, the
  connection and the stream; and Wait. The outcomes that Connect and Fetch see (Adsc_Load.Dial) are an abstraction of it.
  gRPC, the encoders and the network interfaces are the record \<open>netlib\<close>.
\<close>

section \<open>The address of the machine\<close>

text \<open>An interface address has an IP, or is of a kind that is skipped.\<close>

datatype netaddr = IPNet string | IPAddr string | OtherAddr

fun private_ip :: "(string \<Rightarrow> bool) \<Rightarrow> netaddr list \<Rightarrow> string" where
  "private_ip isLoopback [] = ''0.0.0.0''"
| "private_ip isLoopback (IPNet ip # addrs) = (if \<not> isLoopback ip then ip else private_ip isLoopback addrs)"
| "private_ip isLoopback (IPAddr ip # addrs) = (if \<not> isLoopback ip then ip else private_ip isLoopback addrs)"
| "private_ip isLoopback (OtherAddr # addrs) = private_ip isLoopback addrs"

section \<open>Dial\<close>

record ('c, 'st, 'md) netlib =
  InterfaceAddrs :: "netaddr list"
  IsLoopback :: "string \<Rightarrow> bool"
  DialContext :: "string \<Rightarrow> gerror + 'c"
  open_stream :: "'c \<Rightarrow> gerror + 'st"
  json_Marshal :: "(string \<rightharpoonup> metaval) \<Rightarrow> gerror + string"
  ApplyJSON :: "string \<Rightarrow> gerror + 'md"

definition getPrivateIPIfAvailable :: "('c, 'st, 'md) netlib \<Rightarrow> string" where
  "getPrivateIPIfAvailable lib = private_ip (IsLoopback lib) (InterfaceAddrs lib)"

record 'md Node =
  nd_Id :: string
  nd_Metadata :: 'md

definition makeNode :: "('c, 'st, 'md) netlib \<Rightarrow> string \<Rightarrow> (string \<rightharpoonup> metaval) \<Rightarrow> 'md Node outcome" where
  "makeNode lib ident metadata =
     (case json_Marshal lib metadata of
        Inl err \<Rightarrow> Panics (''invalid metadata '' @ err_text err)
      | Inr js \<Rightarrow>
          (case ApplyJSON lib js of
             Inl err \<Rightarrow> Panics (''invalid metadata '' @ err_text err)
           | Inr meta \<Rightarrow> Returns \<lparr>nd_Id = ident, nd_Metadata = meta\<rparr>))"

text \<open>Run of the state-of-the-world client: its connection, its stream and its error.\<close>

definition Run_adsc :: "('c, 'st, 'md) netlib \<Rightarrow> string \<Rightarrow> 'c option \<times> 'st option \<times> gerror option" where
  "Run_adsc lib url =
     (case DialContext lib url of
        Inl err \<Rightarrow> (None, None, Some (ErrV ''dial context: '' err))
      | Inr conn \<Rightarrow>
          (case open_stream lib conn of
             Inl err \<Rightarrow> (Some conn, None, Some (ErrV ''stream: '' err))
           | Inr edsstr \<Rightarrow> (Some conn, Some edsstr, None)))"

text \<open>
  What Dial returns: a client of one of the kinds, and an error. \<open>rs_opened\<close> are the connections it has opened, whether or
  not the caller holds them.
\<close>

record ('c, 'st, 'md) opened_client =
  oc_delta :: bool
  oc_node :: "'md Node"
  oc_conn :: "'c option"
  oc_stream :: "'st option"
  oc_initialWatches :: "type_url list"

record ('c, 'st, 'md) dial_result =
  rs_client :: "('c, 'st, 'md) opened_client option"
  rs_err :: "gerror option"
  rs_opened :: "'c list"

definition DialDelta :: "('c, 'st, 'md) netlib \<Rightarrow> string \<Rightarrow> Config \<Rightarrow> ('c, 'st, 'md) dial_result outcome" where
  "DialDelta lib url opts =
     (case DialContext lib url of
        Inl err \<Rightarrow> Returns \<lparr>rs_client = None, rs_err = Some (ErrV ''dial context: '' err), rs_opened = []\<rparr>
      | Inr conn \<Rightarrow>
          (case open_stream lib conn of
             Inl err \<Rightarrow> Returns \<lparr>rs_client = None, rs_err = Some (ErrV ''stream: '' err), rs_opened = [conn]\<rparr>
           | Inr xdsClient \<Rightarrow>
               obind (makeNode lib (nodeID opts) (c_Meta opts)) (\<lambda>node.
                 Returns \<lparr>rs_client = Some \<lparr>oc_delta = True, oc_node = node, oc_conn = Some conn, oc_stream = Some xdsClient,
                            oc_initialWatches = (if c_NodeType opts = ''ztunnel'' then [AddressType, WorkloadAuthorizationType]
                                                 else [ClusterType, ListenerType])\<rparr>,
                          rs_err = None, rs_opened = [conn]\<rparr>)))"

definition Dial_client :: "('c, 'st, 'md) netlib \<Rightarrow> string \<Rightarrow> Config \<Rightarrow> ('c, 'st, 'md) dial_result outcome" where
  "Dial_client lib url opts0 =
     (let opts = dial_defaults (getPrivateIPIfAvailable lib) opts0
      in if c_Delta opts then DialDelta lib url opts
         else obind (makeNode lib (nodeID opts) (c_Meta opts)) (\<lambda>node.
                let (conn, stream, err) = Run_adsc lib url
                in Returns \<lparr>rs_client = Some \<lparr>oc_delta = False, oc_node = node, oc_conn = conn, oc_stream = stream, oc_initialWatches = []\<rparr>,
                            rs_err = err, rs_opened = (case conn of None \<Rightarrow> [] | Some c \<Rightarrow> [c])\<rparr>))"

section \<open>What the callers see\<close>

definition held_conn :: "('c, 'st, 'md) dial_result \<Rightarrow> 'c option" where
  "held_conn r = (case rs_client r of None \<Rightarrow> None | Some c \<Rightarrow> oc_conn c)"

definition dial_view :: "('c, 'st, 'md) dial_result \<Rightarrow> dialled" where
  "dial_view r =
     (if rs_err r = None then DialOk else if rs_opened r = [] then NoConn else if held_conn r \<noteq> None then HeldConn else LostConn)"

definition dial_ok :: "('c, 'st, 'md) netlib \<Rightarrow> string \<Rightarrow> bool" where
  "dial_ok lib url \<longleftrightarrow> (\<exists>c. DialContext lib url = Inr c)"

definition stream_ok :: "('c, 'st, 'md) netlib \<Rightarrow> string \<Rightarrow> bool" where
  "stream_ok lib url \<longleftrightarrow> (\<forall>c. DialContext lib url = Inr c \<longrightarrow> (\<exists>s. open_stream lib c = Inr s))"

lemma dial_defaults_Delta: "c_Delta (dial_defaults ip opts) = c_Delta opts"
  by (simp add: dial_defaults_def)

lemma Dial_refines:
  assumes "Dial_client lib url opts = Returns r"
  shows "dial_view r = Dial opts (dial_ok lib url) (stream_ok lib url)"
proof (cases "DialContext lib url")
  case (Inl err)
  then show ?thesis using assms
    by (auto simp: Dial_client_def DialDelta_def Run_adsc_def Let_def obind_Returns_iff dial_view_def Dial_def dial_ok_def split: if_splits)
next
  case (Inr conn)
  then show ?thesis using assms
    by (cases "open_stream lib conn")
      (auto simp: Dial_client_def DialDelta_def Run_adsc_def Let_def obind_Returns_iff dial_view_def Dial_def dial_ok_def stream_ok_def
        held_conn_def dial_defaults_Delta split: if_splits)
qed

text \<open>A client without error has a node with the identity of its configuration and holds the one connection that was opened.\<close>

lemma Dial_client_identity:
  assumes "Dial_client lib url opts = Returns r" and "rs_err r = None"
  shows "\<exists>c conn. rs_client r = Some c \<and> rs_opened r = [conn] \<and> oc_conn c = Some conn \<and> oc_stream c \<noteq> None \<and> oc_delta c = c_Delta opts \<and>
    nd_Id (oc_node c) = nodeID (dial_defaults (getPrivateIPIfAvailable lib) opts)"
proof (cases "DialContext lib url")
  case (Inl err)
  then show ?thesis using assms
    by (auto simp: Dial_client_def DialDelta_def Run_adsc_def Let_def obind_Returns_iff split: if_splits)
next
  case (Inr conn)
  have id: "nd_Id n = i" if "makeNode lib i m = Returns n" for n i m
    using that by (auto simp: makeNode_def split: sum.splits)
  show ?thesis using assms Inr
    by (cases "open_stream lib conn")
      (auto simp: Dial_client_def DialDelta_def Run_adsc_def Let_def obind_Returns_iff dial_defaults_Delta id split: if_splits)
qed

text \<open>
  C18: Dial does what Connect and Fetch rely on, in both of its forms. Whether it succeeds, leaves no connection,
  leaves one that its client holds, or one that nobody holds, is decided by whether the connection and the stream
  could be opened, as the abstraction says. And without an error the caller has a client of the kind that was asked
  for, with the node identity of its configuration, and this client holds the one connection that was opened, and
  a stream.
\<close>

theorem Dial_implements:
  assumes "Dial_client lib url opts = Returns r"
  shows "dial_view r = Dial opts (dial_ok lib url) (stream_ok lib url) \<and>
    (rs_err r = None \<longrightarrow>
       (\<exists>c conn. rs_client r = Some c \<and> rs_opened r = [conn] \<and> oc_conn c = Some conn \<and> oc_stream c \<noteq> None \<and>
          oc_delta c = c_Delta opts \<and> nd_Id (oc_node c) = nodeID (dial_defaults (getPrivateIPIfAvailable lib) opts)))"
  using Dial_refines [OF assms] Dial_client_identity [OF assms] by blast

text \<open>A network with one connection whose streams cannot be opened, and with two that can.\<close>

definition small_net :: "bool \<Rightarrow> (nat, nat, nat) netlib" where
  "small_net b = \<lparr>InterfaceAddrs = [IPNet ''127.0.0.1'', OtherAddr, IPAddr ''10.0.0.7''], IsLoopback = (\<lambda>ip. ip = ''127.0.0.1''),
     DialContext = (\<lambda>url. Inr 1), open_stream = (\<lambda>c. if b then Inr 2 else Inl (ErrText ''unavailable'')),
     json_Marshal = (\<lambda>m. Inr ''{}''), ApplyJSON = (\<lambda>s. Inr 0)\<rparr>"

lemma small_net_dials: "\<exists>r. Dial_client (small_net b) url opts = Returns r"
  by (cases b) (auto simp: Dial_client_def DialDelta_def Run_adsc_def makeNode_def small_net_def Let_def)

lemma Dial_implements_witness:
  "\<exists>r r'. Dial_client (small_net True) ''istiod:15010'' sotw_config = Returns r \<and>
     Dial_client (small_net False) ''istiod:15010'' (sotw_config\<lparr>c_Delta := True\<rparr>) = Returns r' \<and>
     rs_err r = None \<and> dial_view r' = LostConn \<and> (\<exists>c. rs_client r = Some c \<and> oc_conn c \<noteq> None)"
proof -
  obtain r r' where r: "Dial_client (small_net True) ''istiod:15010'' sotw_config = Returns r"
    and r': "Dial_client (small_net False) ''istiod:15010'' (sotw_config\<lparr>c_Delta := True\<rparr>) = Returns r'"
    using small_net_dials by blast
  have "rs_err r = None" using r
    by (auto simp: Dial_client_def DialDelta_def Run_adsc_def makeNode_def small_net_def Let_def split: if_splits)
  moreover have "dial_view r' = LostConn"
    using Dial_implements [OF r'] by (simp add: Dial_def dial_ok_def stream_ok_def small_net_def)
  ultimately show ?thesis using Dial_implements [OF r] r r' by auto
qed

section \<open>Closing\<close>

text \<open>
  \<open>Close\<close> of a client of either kind: the connections it closes (the state-of-the-world client closes its stream
  first). The delta client has no responses to hand out.
\<close>

definition Close_client :: "('c, 'st, 'md) opened_client \<Rightarrow> 'c list" where
  "Close_client c = (case oc_conn c of None \<Rightarrow> [] | Some conn \<Rightarrow> [conn])"

definition Responses_delta :: "'r outcome" where
  "Responses_delta = Panics ''implement me''"

text \<open>Closing a client closes all that its Dial has opened, unless a delta client could not open its stream.\<close>

lemma Close_closes_all:
  assumes run: "Dial_client lib url opts = Returns r" and "dial_view r \<noteq> LostConn"
  shows "(case rs_client r of None \<Rightarrow> [] | Some c \<Rightarrow> Close_client c) = rs_opened r"
proof (cases "DialContext lib url")
  case (Inl err)
  then show ?thesis using run
    by (auto simp: Dial_client_def DialDelta_def Run_adsc_def Let_def obind_Returns_iff Close_client_def split: if_splits)
next
  case (Inr conn)
  then show ?thesis using assms
    by (cases "open_stream lib conn")
      (auto simp: Dial_client_def DialDelta_def Run_adsc_def Let_def obind_Returns_iff Close_client_def dial_view_def held_conn_def split: if_splits)
qed

text \<open>The address is one of the machine's that is not a loopback address, or the unspecified one.\<close>

lemma private_ip_cases:
  "private_ip lb addrs = ''0.0.0.0'' \<or>
   (\<not> lb (private_ip lb addrs) \<and> (IPNet (private_ip lb addrs) \<in> set addrs \<or> IPAddr (private_ip lb addrs) \<in> set addrs))"
  by (induction lb addrs rule: private_ip.induct) auto

section \<open>Waiting for an update\<close>

text \<open>What the select of Wait can see, in order: updates and the timer. None when it is still waiting.\<close>

datatype wait_event = Arrived string | Expired

fun Wait_update :: "string \<Rightarrow> wait_event list \<Rightarrow> (gerror + string) option" where
  "Wait_update upd [] = None"
| "Wait_update upd (Arrived t # es) = (if upd = [] \<or> upd = t then Some (Inr t) else Wait_update upd es)"
| "Wait_update upd (Expired # es) = Some (Inl (ErrText ''timeout''))"

text \<open>Wait returns the first update that is asked for, and ErrTimeout when the timer comes before it.\<close>

lemma Wait_skips: "upd \<noteq> [] \<Longrightarrow> upd \<notin> set as \<Longrightarrow> Wait_update upd (map Arrived as @ es) = Wait_update upd es"
  by (induction as) auto

lemma Wait_outcomes:
  assumes "upd \<noteq> []" and "upd \<notin> set as"
  shows "Wait_update upd (map Arrived as @ Arrived upd # es) = Some (Inr upd)"
    "Wait_update upd (map Arrived as @ Expired # es) = Some (Inl (ErrText ''timeout''))"
    "Wait_update upd (map Arrived as) = None"
    "Wait_update [] (Arrived t # es) = Some (Inr t)"
  using Wait_skips [OF assms, of "[]"] by (simp_all add: Wait_skips [OF assms])

end
