(* ===== verification/Rpc_Auth.thy ===== *)
theory Rpc_Auth
  imports Security
begin

text \<open>
  The credentials of the calls of an ADS client (\<open>GrpcOptions\<close> and \<open>grpcCredentials\<close> of
  pkg/simulation/security/auth.go): before each call gRPC asks for its metadata, which fetches a token through the
  process-wide cache of cert.go. The clients call at the same time, and the cache is read, the token is issued and
  the cache is written in three separate steps.
\<close>

section \<open>Metadata of a call\<close>

text \<open>\<open>fetch\<close> of \<open>GrpcOptions\<close>, given what \<open>GetServiceAccountToken\<close> returned.\<close>

type_synonym metadata = "string \<rightharpoonup> string"

definition GetRequestMetadata :: "gerror + string \<Rightarrow> gerror + metadata" where
  "GetRequestMetadata r =
     (case r of Inl err \<Rightarrow> Inl err | Inr tok \<Rightarrow> Inr [''authorization'' \<mapsto> ''Bearer '' @ tok])"

definition RequireTransportSecurity :: bool where
  "RequireTransportSecurity = False"

text \<open>The credentials among the dial options: audience, namespace and account.\<close>

fun per_rpc :: "dialoption list \<Rightarrow> (string \<times> string \<times> string) option" where
  "per_rpc [] = None"
| "per_rpc (TokenFor aud ns sa # opts) = Some (aud, ns, sa)"
| "per_rpc (InsecureTLS # opts) = per_rpc opts"
| "per_rpc (InsecureTransport # opts) = per_rpc opts"

text \<open>The token in the cache, if it is valid for another minute.\<close>

definition cache_hit :: "'s tokens \<Rightarrow> string \<Rightarrow> string \<Rightarrow> token option" where
  "cache_hit w ns sa =
     (case cachedTokens w (san ns sa) of None \<Rightarrow> None
      | Some t \<Rightarrow> if tk_expiration t > tk_now w + 60 then Some t else None)"

section \<open>Calls that run at once\<close>

text \<open>A call: the auth type of its client, and the account and namespace the client was made for.\<close>

record rpc =
  rq_auth :: AuthType
  rq_sa :: string
  rq_ns :: string

datatype rpc_state =
    Asked string string string
  | Fetching string string string
  | Storing string string string token
  | Answered "gerror + metadata"

definition begin_call :: "dialoption list \<Rightarrow> rpc_state" where
  "begin_call opts = (case per_rpc opts of None \<Rightarrow> Answered (Inr Map.empty) | Some (aud, ns, sa) \<Rightarrow> Asked aud ns sa)"

record 's auth_run =
  ar_tokens :: "'s tokens"
  ar_calls :: "(rpc \<times> rpc_state) list"

definition set_call :: "nat \<Rightarrow> rpc_state \<Rightarrow> 's auth_run \<Rightarrow> 's auth_run" where
  "set_call i c r = r\<lparr>ar_calls := (ar_calls r)[i := (fst (ar_calls r ! i), c)]\<rparr>"

text \<open>
  The steps of \<open>GetServiceAccountToken\<close> in one call among others: \<open>Load\<close>, the request for a token, \<open>Store\<close>.
  Names of namespaces contain no slash.
\<close>

inductive auth_step :: "(string \<Rightarrow> string \<Rightarrow> string \<Rightarrow> 's \<Rightarrow> (gerror + token) \<times> 's) \<Rightarrow> 's auth_run \<Rightarrow> 's auth_run \<Rightarrow> bool" for issue where
  begin_rpc: "GrpcOptions (rq_auth q) (rq_sa q) (rq_ns q) = Returns opts \<Longrightarrow> CHR ''/'' \<notin> set (rq_ns q) \<Longrightarrow>
    auth_step issue r (r\<lparr>ar_calls := ar_calls r @ [(q, begin_call opts)]\<rparr>)"
| load_hit: "i < length (ar_calls r) \<Longrightarrow> ar_calls r ! i = (q, Asked aud ns sa) \<Longrightarrow> cache_hit (ar_tokens r) ns sa = Some t \<Longrightarrow>
    auth_step issue r (set_call i (Answered (GetRequestMetadata (Inr (tk_token t)))) r)"
| load_miss: "i < length (ar_calls r) \<Longrightarrow> ar_calls r ! i = (q, Asked aud ns sa) \<Longrightarrow> cache_hit (ar_tokens r) ns sa = None \<Longrightarrow>
    auth_step issue r (set_call i (Fetching aud ns sa) r)"
| refused: "i < length (ar_calls r) \<Longrightarrow> ar_calls r ! i = (q, Fetching aud ns sa) \<Longrightarrow>
    issue aud ns sa (tk_server (ar_tokens r)) = (Inl err, s1) \<Longrightarrow>
    auth_step issue r (set_call i (Answered (GetRequestMetadata (Inl err))) (r\<lparr>ar_tokens := (ar_tokens r)\<lparr>tk_server := s1\<rparr>\<rparr>))"
| issued: "i < length (ar_calls r) \<Longrightarrow> ar_calls r ! i = (q, Fetching aud ns sa) \<Longrightarrow>
    issue aud ns sa (tk_server (ar_tokens r)) = (Inr t, s1) \<Longrightarrow>
    auth_step issue r (set_call i (Storing aud ns sa t)
      (r\<lparr>ar_tokens := (ar_tokens r)\<lparr>tk_server := s1, tk_issued := tk_issued (ar_tokens r) @ [((aud, ns, sa), t)]\<rparr>\<rparr>))"
| store: "i < length (ar_calls r) \<Longrightarrow> ar_calls r ! i = (q, Storing aud ns sa t) \<Longrightarrow>
    auth_step issue r (set_call i (Answered (GetRequestMetadata (Inr (tk_token t))))
      (r\<lparr>ar_tokens := (ar_tokens r)\<lparr>cachedTokens := (cachedTokens (ar_tokens r))(san ns sa \<mapsto> t)\<rparr>\<rparr>))"
| clock: "tk_now (ar_tokens r) \<le> n \<Longrightarrow> auth_step issue r (r\<lparr>ar_tokens := (ar_tokens r)\<lparr>tk_now := n\<rparr>\<rparr>)"

definition auth_start :: "'s \<Rightarrow> 's auth_run" where
  "auth_start s = \<lparr>ar_tokens = no_tokens s, ar_calls = []\<rparr>"

section \<open>The invariant\<close>

definition token_auth :: "AuthType \<Rightarrow> bool" where
  "token_auth a \<longleftrightarrow> a = AuthTypeJWT \<or> a = AuthTypePlaintextJWT"

definition issued_to :: "((string \<times> string \<times> string) \<times> token) list \<Rightarrow> rpc \<Rightarrow> token \<Rightarrow> bool" where
  "issued_to is q t \<longleftrightarrow> ((''istio-ca'', rq_ns q, rq_sa q), t) \<in> set is"

definition bearer :: "token \<Rightarrow> metadata" where
  "bearer t = [''authorization'' \<mapsto> ''Bearer '' @ tk_token t]"

fun call_ok :: "((string \<times> string \<times> string) \<times> token) list \<Rightarrow> rpc \<Rightarrow> rpc_state \<Rightarrow> bool" where
  "call_ok is q (Asked aud ns sa) \<longleftrightarrow> token_auth (rq_auth q) \<and> aud = ''istio-ca'' \<and> ns = rq_ns q \<and> sa = rq_sa q"
| "call_ok is q (Fetching aud ns sa) \<longleftrightarrow> token_auth (rq_auth q) \<and> aud = ''istio-ca'' \<and> ns = rq_ns q \<and> sa = rq_sa q"
| "call_ok is q (Storing aud ns sa t) \<longleftrightarrow> token_auth (rq_auth q) \<and> ns = rq_ns q \<and> sa = rq_sa q \<and> issued_to is q t"
| "call_ok is q (Answered (Inl err)) \<longleftrightarrow> token_auth (rq_auth q)"
| "call_ok is q (Answered (Inr m)) \<longleftrightarrow>
     (rq_auth q = AuthTypePlaintext \<and> m = Map.empty) \<or> (token_auth (rq_auth q) \<and> (\<exists>t. issued_to is q t \<and> m = bearer t))"

definition auth_inv :: "'s auth_run \<Rightarrow> bool" where
  "auth_inv r \<longleftrightarrow>
     (\<forall>(q, c) \<in> set (ar_calls r). CHR ''/'' \<notin> set (rq_ns q) \<and> call_ok (tk_issued (ar_tokens r)) q c) \<and>
     (\<forall>key t. cachedTokens (ar_tokens r) key = Some t \<longrightarrow>
        (\<exists>ns sa. key = san ns sa \<and> CHR ''/'' \<notin> set ns \<and> ((''istio-ca'', ns, sa), t) \<in> set (tk_issued (ar_tokens r))))"

lemma call_ok_more: "call_ok is q c \<Longrightarrow> call_ok (is @ js) q c"
  by (cases "(is, q, c)" rule: call_ok.cases) (auto simp: issued_to_def)

lemma GrpcOptions_per_rpc:
  "GrpcOptions a sa ns = Returns opts \<Longrightarrow>
     (a = AuthTypePlaintext \<and> per_rpc opts = None) \<or> (token_auth a \<and> per_rpc opts = Some (''istio-ca'', ns, sa))"
  unfolding GrpcOptions_def token_auth_def by (fastforce split: if_split_asm)

lemma begin_call_ok:
  assumes "GrpcOptions (rq_auth q) (rq_sa q) (rq_ns q) = Returns opts"
  shows "call_ok is q (begin_call opts)"
  using GrpcOptions_per_rpc [OF assms] by (elim disjE conjE) (simp_all add: begin_call_def)

lemma auth_inv_call:
  assumes inv: "auth_inv r" and "i < length (ar_calls r)" and "ar_calls r ! i = (q, c)"
  shows "CHR ''/'' \<notin> set (rq_ns q) \<and> call_ok (tk_issued (ar_tokens r)) q c"
proof -
  have "(q, c) \<in> set (ar_calls r)" using nth_mem [OF assms(2)] assms(3) by simp
  then show ?thesis using inv unfolding auth_inv_def by blast
qed

text \<open>A call that moves on keeps the invariant if its new state and the cache do.\<close>

lemma auth_inv_set_call:
  assumes inv: "auth_inv r" and i: "i < length (ar_calls r)" "ar_calls r ! i = (q, c)"
    and more: "tk_issued v = tk_issued (ar_tokens r) @ js" and ok: "call_ok (tk_issued v) q c'"
    and cache: "\<And>key t. cachedTokens v key = Some t \<Longrightarrow> cachedTokens (ar_tokens r) key = Some t \<or>
      (key = san (rq_ns q) (rq_sa q) \<and> issued_to (tk_issued v) q t)"
  shows "auth_inv (set_call i c' (r\<lparr>ar_tokens := v\<rparr>))"
proof -
  have old: "CHR ''/'' \<notin> set (rq_ns q')" "call_ok (tk_issued v) q' d" if "(q', d) \<in> set (ar_calls r)" for q' d
    using inv that more call_ok_more unfolding auth_inv_def by fastforce+
  have "CHR ''/'' \<notin> set (rq_ns q)" using auth_inv_call [OF inv i] by blast
  moreover have "x = (q, c') \<or> x \<in> set (ar_calls r)" if "x \<in> set ((ar_calls r)[i := (q, c')])" for x
    using that set_update_subset_insert [of "ar_calls r" i "(q, c')"] by blast
  ultimately have calls: "\<forall>(q', d) \<in> set ((ar_calls r)[i := (q, c')]). CHR ''/'' \<notin> set (rq_ns q') \<and> call_ok (tk_issued v) q' d"
    using old ok by blast
  have "\<exists>ns sa. key = san ns sa \<and> CHR ''/'' \<notin> set ns \<and> ((''istio-ca'', ns, sa), t) \<in> set (tk_issued v)"
    if "cachedTokens v key = Some t" for key t
    using cache [OF that] \<open>CHR ''/'' \<notin> set (rq_ns q)\<close> inv more unfolding auth_inv_def issued_to_def by fastforce
  then show ?thesis using calls i by (simp add: auth_inv_def set_call_def)
qed

text \<open>What the cache answers was issued to the account that asks.\<close>

lemma cache_hit_issued:
  assumes inv: "auth_inv r" and ns: "CHR ''/'' \<notin> set (rq_ns q)" and hit: "cache_hit (ar_tokens r) (rq_ns q) (rq_sa q) = Some t"
  shows "issued_to (tk_issued (ar_tokens r)) q t \<and> tk_expiration t > tk_now (ar_tokens r) + 60"
proof -
  have c: "cachedTokens (ar_tokens r) (san (rq_ns q) (rq_sa q)) = Some t" and e: "tk_expiration t > tk_now (ar_tokens r) + 60"
    using hit by (auto simp: cache_hit_def split: option.splits if_splits)
  obtain ns sa where o: "san (rq_ns q) (rq_sa q) = san ns sa" "CHR ''/'' \<notin> set ns"
    "((''istio-ca'', ns, sa), t) \<in> set (tk_issued (ar_tokens r))"
    using inv c unfolding auth_inv_def by blast
  then show ?thesis using san_inject [OF \<open>CHR ''/'' \<notin> set (rq_ns q)\<close> o(2)] e by (simp add: issued_to_def)
qed

lemma call_ok_answer: "token_auth (rq_auth q) \<Longrightarrow> issued_to is q t \<Longrightarrow> call_ok is q (Answered (GetRequestMetadata (Inr (tk_token t))))"
  by (auto simp: GetRequestMetadata_def bearer_def)

lemma auth_step_inv:
  assumes "auth_step issue r r'" and inv: "auth_inv r"
  shows "auth_inv r'"
  using assms(1)
proof cases
  case (begin_rpc q opts)
  then show ?thesis using inv begin_call_ok [OF begin_rpc(2)] by (simp add: auth_inv_def)
next
  case (load_hit i q aud ns sa t)
  note c = auth_inv_call [OF inv load_hit(2,3)]
  then have "issued_to (tk_issued (ar_tokens r)) q t" using cache_hit_issued [OF inv] load_hit(4) by simp
  then have "auth_inv (set_call i (Answered (GetRequestMetadata (Inr (tk_token t)))) (r\<lparr>ar_tokens := ar_tokens r\<rparr>))"
    using c by (intro auth_inv_set_call [OF inv load_hit(2,3), of _ "[]"] call_ok_answer) auto
  then show ?thesis using load_hit(1) by simp
next
  case (load_miss i q aud ns sa)
  have "auth_inv (set_call i (Fetching aud ns sa) (r\<lparr>ar_tokens := ar_tokens r\<rparr>))"
    using auth_inv_call [OF inv load_miss(2,3)] by (intro auth_inv_set_call [OF inv load_miss(2,3), of _ "[]"]) auto
  then show ?thesis using load_miss(1) by simp
next
  case (refused i q aud ns sa err s1)
  show ?thesis unfolding refused(1)
    using auth_inv_call [OF inv refused(2,3)]
    by (intro auth_inv_set_call [OF inv refused(2,3), of _ "[]"]) (auto simp: GetRequestMetadata_def)
next
  case (issued i q aud ns sa t s1)
  show ?thesis unfolding issued(1)
    using auth_inv_call [OF inv issued(2,3)]
    by (intro auth_inv_set_call [OF inv issued(2,3), of _ "[((aud, ns, sa), t)]"]) (auto simp: issued_to_def)
next
  case (store i q aud ns sa t)
  have c: "token_auth (rq_auth q)" "ns = rq_ns q" "sa = rq_sa q" "issued_to (tk_issued (ar_tokens r)) q t"
    using auth_inv_call [OF inv store(2,3)] by auto
  show ?thesis unfolding store(1)
    by (intro auth_inv_set_call [OF inv store(2,3), of _ "[]"]) (use c call_ok_answer in \<open>auto split: if_splits\<close>)
next
  case (clock n)
  then show ?thesis using inv by (simp add: auth_inv_def)
qed

interpretation rpcs: step_invariant "auth_step issue" auth_inv True
  by unfold_locales (rule auth_step_inv)

text \<open>
  C17: Whatever calls run at once, of whatever clients, and however the reading of the token cache, the issuing of
  tokens and the writing of the cache interleave, every call that gets an answer sends what its own client should
  send: nothing with a plaintext client, and otherwise, with a token auth type, a bearer token that was issued for
  the audience istio-ca to exactly the namespace and the service account of that client; a call fails only if a
  token is needed.
\<close>

theorem rpc_credentials:
  assumes "(auth_step issue)\<^sup>*\<^sup>* (auth_start s) r" and "(q, Answered res) \<in> set (ar_calls r)"
  shows "(rq_auth q = AuthTypePlaintext \<and> res = Inr Map.empty) \<or>
    ((rq_auth q = AuthTypeJWT \<or> rq_auth q = AuthTypePlaintextJWT) \<and>
     (\<forall>m. res = Inr m \<longrightarrow> (\<exists>t. ((''istio-ca'', rq_ns q, rq_sa q), t) \<in> set (tk_issued (ar_tokens r)) \<and>
        m = [''authorization'' \<mapsto> ''Bearer '' @ tk_token t])))"
proof -
  have "auth_inv r" by (rule rpcs.star_inv [OF TrueI assms(1)]) (simp add: auth_inv_def auth_start_def no_tokens_def)
  then have "call_ok (tk_issued (ar_tokens r)) q (Answered res)" using assms(2) unfolding auth_inv_def by blast
  then show ?thesis by (cases res) (auto simp: token_auth_def issued_to_def bearer_def)
qed

definition small_rpc :: rpc where
  "small_rpc = \<lparr>rq_auth = AuthTypeJWT, rq_sa = ''sa'', rq_ns = ''ns''\<rparr>"

text \<open>Two calls of one client that both miss the cache: each gets a token of its own.\<close>

definition both_answered :: "nat auth_run" where
  "both_answered =
     \<lparr>ar_tokens = \<lparr>cachedTokens = [san ''ns'' ''sa'' \<mapsto> \<lparr>tk_token = itoa 0, tk_expiration = 3600\<rparr>], tk_now = 0, tk_server = 2,
        tk_issued = [((''istio-ca'', ''ns'', ''sa''), \<lparr>tk_token = itoa 0, tk_expiration = 3600\<rparr>),
                     ((''istio-ca'', ''ns'', ''sa''), \<lparr>tk_token = itoa 1, tk_expiration = 3600\<rparr>)]\<rparr>,
      ar_calls = [(small_rpc, Answered (GetRequestMetadata (Inr (itoa 0)))), (small_rpc, Answered (GetRequestMetadata (Inr (itoa 1))))]\<rparr>"

lemma both_answered_reached: "(auth_step numbered_issue)\<^sup>*\<^sup>* (auth_start 0) both_answered"
proof -
  let ?t = "\<lambda>n. \<lparr>tk_token = itoa n, tk_expiration = 3600\<rparr>"
  let ?i = "(''istio-ca'', ''ns'', ''sa'')"
  let ?w = "\<lambda>n is. \<lparr>cachedTokens = Map.empty, tk_now = 0, tk_server = n, tk_issued = is\<rparr> :: nat tokens"
  let ?A = "Asked ''istio-ca'' ''ns'' ''sa''" and ?F = "Fetching ''istio-ca'' ''ns'' ''sa''" and ?S = "\<lambda>n. Storing ''istio-ca'' ''ns'' ''sa'' (?t n)"
  let ?r = "\<lambda>w a b. \<lparr>ar_tokens = w, ar_calls = [(small_rpc, a), (small_rpc, b)]\<rparr>"
  have opts: "GrpcOptions (rq_auth small_rpc) (rq_sa small_rpc) (rq_ns small_rpc) = Returns [InsecureTLS, TokenFor ''istio-ca'' ''ns'' ''sa'']"
    by (simp add: GrpcOptions_def small_rpc_def auth_type_defs)
  note step = rtranclp.rtrancl_into_rtrancl [of "auth_step numbered_issue" "auth_start 0"]
  let ?st = "(auth_step numbered_issue)\<^sup>*\<^sup>* (auth_start 0)"
  have "?st \<lparr>ar_tokens = no_tokens 0, ar_calls = [(small_rpc, ?A)]\<rparr>"
    using step [OF rtranclp.rtrancl_refl auth_step.begin_rpc [of small_rpc, OF opts]]
    by (simp add: auth_start_def begin_call_def small_rpc_def)
  from step [OF this auth_step.begin_rpc [of small_rpc, OF opts]] have "?st (?r (?w 0 []) ?A ?A)"
    by (simp add: begin_call_def no_tokens_def) (simp add: small_rpc_def)
  from step [OF this auth_step.load_miss [of 0 _ small_rpc]] have "?st (?r (?w 0 []) ?F ?A)"
    by (simp add: set_call_def cache_hit_def)
  from step [OF this auth_step.load_miss [of 1 _ small_rpc]] have "?st (?r (?w 0 []) ?F ?F)"
    by (simp add: set_call_def cache_hit_def)
  from step [OF this auth_step.issued [of 0 _ small_rpc]] have "?st (?r (?w 1 [(?i, ?t 0)]) (?S 0) ?F)"
    by (simp add: set_call_def numbered_issue_def)
  from step [OF this auth_step.issued [of 1 _ small_rpc]] have "?st (?r (?w 2 [(?i, ?t 0), (?i, ?t 1)]) (?S 0) (?S 1))"
    by (simp add: set_call_def numbered_issue_def numeral_2_eq_2)
  from step [OF this auth_step.store [of 1 _ small_rpc]]
  have "?st (?r ((?w 2 [(?i, ?t 0), (?i, ?t 1)])\<lparr>cachedTokens := [san ''ns'' ''sa'' \<mapsto> ?t 1]\<rparr>) (?S 0) (Answered (GetRequestMetadata (Inr (itoa 1)))))"
    by (simp add: set_call_def)
  from step [OF this auth_step.store [of 0 _ small_rpc]] show ?thesis
    by (simp add: set_call_def both_answered_def)
qed

lemma rpc_credentials_witness:
  "\<exists>m t. (small_rpc, Answered (Inr m)) \<in> set (ar_calls both_answered) \<and>
     ((''istio-ca'', ''ns'', ''sa''), t) \<in> set (tk_issued (ar_tokens both_answered)) \<and> m = [''authorization'' \<mapsto> ''Bearer '' @ tk_token t]"
proof -
  have c: "(small_rpc, Answered (GetRequestMetadata (Inr (itoa 1)))) \<in> set (ar_calls both_answered)" by (simp add: both_answered_def)
  obtain m where m: "GetRequestMetadata (Inr (itoa 1)) = Inr m" by (simp add: GetRequestMetadata_def)
  show ?thesis
    using rpc_credentials [OF both_answered_reached c [unfolded m]] c [unfolded m] by (auto simp: small_rpc_def auth_type_defs)
qed

text \<open>Alone, the three steps are the function.\<close>

lemma GetServiceAccountToken_hit:
  "GetServiceAccountToken issue aud ns sa w =
     (case cache_hit w ns sa of
        Some t \<Rightarrow> (Inr (tk_token t), w)
      | None \<Rightarrow>
          (case issue aud ns sa (tk_server w) of
             (Inl err, s1) \<Rightarrow> (Inl err, w\<lparr>tk_server := s1\<rparr>)
           | (Inr t, s1) \<Rightarrow> (Inr (tk_token t), w\<lparr>tk_server := s1, cachedTokens := (cachedTokens w)(san ns sa \<mapsto> t),
               tk_issued := tk_issued w @ [((aud, ns, sa), t)]\<rparr>)))"
  by (simp add: GetServiceAccountToken_def cache_hit_def Let_def)

end
