(* ===== verification/Kube_Client.thy ===== *)
theory Kube_Client
  imports Kube_Objects Certificates
begin

text \<open>
  The client of pkg/kube/kube.go: its construction from a kubeconfig file or from inside a cluster, raw objects given
  as YAML, the finalization of namespaces, and the requests behind certificates (the root certificate and
  service account tokens). client-go is the record \<open>clientlib\<close> of functions.
\<close>

section \<open>Construction\<close>

text \<open>\<open>'f\<close> is the 32 bit float, \<open>'k\<close> the client of the library.\<close>

record 'f restconfig =
  rc_QPS :: 'f
  rc_Burst :: int

record 'k Client =
  cl_Client :: 'k
  cl_ClusterName :: string

text \<open>\<open>os_Stat\<close> says whether the file exists; a raw configuration is the current context and the cluster of every context.\<close>

record ('f, 'k) clientlib =
  os_Stat :: "string \<Rightarrow> bool"
  RawConfig :: "string \<Rightarrow> gerror + string \<times> (string \<rightharpoonup> string)"
  DefaultRestConfig :: "string \<Rightarrow> string \<Rightarrow> ('f restconfig \<Rightarrow> 'f restconfig) \<Rightarrow> gerror + 'f restconfig"
  InClusterConfig :: "gerror + 'f restconfig"
  NewKubeClient :: "'f restconfig \<Rightarrow> string \<Rightarrow> gerror + 'k"
  float32 :: "int \<Rightarrow> 'f"

definition NewFakeClient :: "'k \<Rightarrow> 'k Client" where
  "NewFakeClient kf = \<lparr>cl_Client = kf, cl_ClusterName = ''fake''\<rparr>"

text \<open>A context that is not in the file is a nil pointer.\<close>

definition rest_config :: "('f, 'k) clientlib \<Rightarrow> string \<Rightarrow> int \<Rightarrow> (gerror + 'f restconfig \<times> string) outcome" where
  "rest_config lib kubeconfig qps =
     (if os_Stat lib kubeconfig then
        (case RawConfig lib kubeconfig of
           Inl err \<Rightarrow> Returns (Inl err)
         | Inr (current, contexts) \<Rightarrow>
             (case DefaultRestConfig lib kubeconfig [] (\<lambda>c. c\<lparr>rc_QPS := float32 lib qps, rc_Burst := qps * 2\<rparr>) of
                Inl err \<Rightarrow> Returns (Inl err)
              | Inr rc \<Rightarrow>
                  (case contexts current of
                     None \<Rightarrow> Panics ''nil pointer dereference''
                   | Some clusterName \<Rightarrow> Returns (Inr (rc, clusterName)))))
      else
        (case InClusterConfig lib of Inl err \<Rightarrow> Returns (Inl err) | Inr rc \<Rightarrow> Returns (Inr (rc, []))))"

definition NewClient :: "('f, 'k) clientlib \<Rightarrow> string \<Rightarrow> int \<Rightarrow> (gerror + 'k Client) outcome" where
  "NewClient lib kubeconfig qps =
     obind (rest_config lib kubeconfig qps) (\<lambda>x.
       case x of
         Inl err \<Rightarrow> Returns (Inl err)
       | Inr (rc, clusterName) \<Rightarrow>
           (case NewKubeClient lib rc clusterName of
              Inl err \<Rightarrow> Returns (Inl err)
            | Inr kf \<Rightarrow> Returns (Inr \<lparr>cl_Client = kf, cl_ClusterName = clusterName\<rparr>)))"

text \<open>A rest configuration is the defaults with the program's change applied.\<close>

definition restconfig_documented :: "('f, 'k) clientlib \<Rightarrow> bool" where
  "restconfig_documented lib \<longleftrightarrow>
     (\<forall>k ctx f rc. DefaultRestConfig lib k ctx f = Inr rc \<longrightarrow> (\<exists>rc0. rc = f rc0))"

lemma NewClient_parts:
  assumes "NewClient lib k qps = Returns (Inr c)"
  obtains rc n kf where "rest_config lib k qps = Returns (Inr (rc, n))" "NewKubeClient lib rc n = Inr kf"
    "c = \<lparr>cl_Client = kf, cl_ClusterName = n\<rparr>"
proof -
  obtain x where x: "rest_config lib k qps = Returns x"
    and c: "(case x of Inl err \<Rightarrow> Returns (Inl err) | Inr (rc, n) \<Rightarrow>
      (case NewKubeClient lib rc n of Inl err \<Rightarrow> Returns (Inl err) | Inr kf \<Rightarrow> Returns (Inr \<lparr>cl_Client = kf, cl_ClusterName = n\<rparr>))) =
      Returns (Inr c)" using assms unfolding NewClient_def obind_Returns_iff by blast
  show thesis
  proof (cases x)
    case (Inr p)
    obtain rc n where p: "p = (rc, n)" by fastforce
    then obtain kf where "NewKubeClient lib rc n = Inr kf" "c = \<lparr>cl_Client = kf, cl_ClusterName = n\<rparr>"
      using c Inr by (auto split: sum.splits)
    then show thesis using that x Inr p by simp
  qed (use c in simp)
qed

text \<open>From a file, a client has the limits of the command line and the cluster of the current context.\<close>

lemma NewClient_from_file:
  assumes "restconfig_documented lib" and "os_Stat lib k" and "NewClient lib k qps = Returns (Inr c)"
  shows "\<exists>current contexts rc. RawConfig lib k = Inr (current, contexts) \<and> contexts current = Some (cl_ClusterName c) \<and>
    rc_QPS rc = float32 lib qps \<and> rc_Burst rc = 2 * qps \<and> NewKubeClient lib rc (cl_ClusterName c) = Inr (cl_Client c)"
proof -
  let ?f = "\<lambda>c. c\<lparr>rc_QPS := float32 lib qps, rc_Burst := qps * 2\<rparr>"
  obtain rc n kf where r: "rest_config lib k qps = Returns (Inr (rc, n))"
    and kf: "NewKubeClient lib rc n = Inr kf" and c: "c = \<lparr>cl_Client = kf, cl_ClusterName = n\<rparr>"
    using assms(3) by (rule NewClient_parts)
  obtain current contexts where raw: "RawConfig lib k = Inr (current, contexts)"
    and rc: "DefaultRestConfig lib k [] ?f = Inr rc" and n: "contexts current = Some n"
    using r assms(2) by (auto simp: rest_config_def split: sum.splits option.splits)
  obtain rc0 where "rc = ?f rc0" using assms(1) rc unfolding restconfig_documented_def by blast
  then have "rc_QPS rc = float32 lib qps" "rc_Burst rc = 2 * qps" by simp_all
  then show ?thesis using raw n kf c by (intro exI) auto
qed

text \<open>Inside a cluster the limit that the flag asks for has no effect, and the cluster has no name.\<close>

lemma NewClient_in_cluster:
  assumes "\<not> os_Stat lib k"
  shows "NewClient lib k qps = NewClient lib k qps' \<and>
    (\<forall>c. NewClient lib k qps = Returns (Inr c) \<longrightarrow> cl_ClusterName c = [])"
  using assms by (auto simp: NewClient_def rest_config_def obind_Returns_iff split: sum.splits)

text \<open>A file whose current context does not exist ends the program.\<close>

lemma NewClient_missing_context:
  assumes "os_Stat lib k" and "RawConfig lib k = Inr (current, contexts)" and "contexts current = None"
    and "DefaultRestConfig lib k [] (\<lambda>c. c\<lparr>rc_QPS := float32 lib qps, rc_Burst := qps * 2\<rparr>) = Inr rc"
  shows "NewClient lib k qps = Panics ''nil pointer dereference''"
  using assms by (simp add: NewClient_def rest_config_def)

section \<open>Raw objects\<close>

text \<open>
  A decoded document has a name; the resource interface that the dynamic client finds for it deletes by name. \<open>apply_yaml\<close> is
  ApplyYAMLContents, \<open>evaluate\<close> the template engine.
\<close>

record ('d, 's) rawlib =
  Decode :: "string \<Rightarrow> gerror + (string \<times> string \<times> string) \<times> 'd"
  doc_GetName :: "'d \<Rightarrow> string"
  DynamicClientFor :: "string \<times> string \<times> string \<Rightarrow> 'd \<Rightarrow> string \<Rightarrow> gerror + (string \<Rightarrow> 's \<Rightarrow> gerror option \<times> 's)"
  IsMissingKind :: "gerror \<Rightarrow> bool"
  apply_yaml :: "string \<Rightarrow> string \<Rightarrow> 's \<Rightarrow> gerror option \<times> 's"

definition buildObject :: "('d, 's) rawlib \<Rightarrow> string \<Rightarrow> string \<Rightarrow> gerror + 'd \<times> (string \<Rightarrow> 's \<Rightarrow> gerror option \<times> 's)" where
  "buildObject lib cfg namespace =
     (case Decode lib cfg of
        Inl err \<Rightarrow> Inl err
      | Inr (g, obj) \<Rightarrow>
          (case DynamicClientFor lib g obj namespace of
             Inl err \<Rightarrow> Inl (ErrV ''get dynamic client: '' err)
           | Inr dc \<Rightarrow> Inr (obj, dc)))"

definition DeleteRaw :: "(gerror \<Rightarrow> bool) \<Rightarrow> ('d, 's) rawlib \<Rightarrow> string \<Rightarrow> string \<Rightarrow> 's \<Rightarrow> gerror option \<times> 's" where
  "DeleteRaw isNotFound lib namespace o1 s =
     (case buildObject lib o1 namespace of
        Inl err \<Rightarrow> if IsMissingKind lib err then (None, s) else (Some err, s)
      | Inr (obj, dr) \<Rightarrow>
          (case dr (doc_GetName lib obj) s of
             (Some err, s1) \<Rightarrow> if isNotFound err then (None, s1) else (Some err, s1)
           | (None, s1) \<Rightarrow> (None, s1)))"

definition ApplyRawSSA :: "('d, 's) rawlib \<Rightarrow> string \<Rightarrow> string \<Rightarrow> 's \<Rightarrow> gerror option \<times> 's" where
  "ApplyRawSSA lib namespace o1 s = apply_yaml lib namespace o1 s"

definition ApplyTemplate :: "(string \<Rightarrow> 'x \<Rightarrow> gerror + string) \<Rightarrow> ('d, 's) rawlib \<Rightarrow> string \<Rightarrow> string \<Rightarrow> 'x \<Rightarrow> 's \<Rightarrow> gerror option \<times> 's" where
  "ApplyTemplate evaluate lib namespace tmp data s =
     (case evaluate tmp data of Inl err \<Rightarrow> (Some err, s) | Inr spec \<Rightarrow> ApplyRawSSA lib namespace spec s)"

text \<open>A deletion that reports no error has deleted, found nothing, or was given a document without a kind, which it leaves alone.\<close>

lemma DeleteRaw_success:
  assumes "DeleteRaw nf lib ns o1 s = (None, s')"
  shows "(\<exists>err. buildObject lib o1 ns = Inl err \<and> IsMissingKind lib err \<and> s' = s) \<or>
    (\<exists>obj dr e. buildObject lib o1 ns = Inr (obj, dr) \<and> dr (doc_GetName lib obj) s = (e, s') \<and> (\<forall>err. e = Some err \<longrightarrow> nf err))"
  using assms by (auto simp: DeleteRaw_def split: sum.splits prod.splits option.splits if_splits)

section \<open>Namespaces\<close>

text \<open>\<open>finalize_ns\<close> and \<open>delete_configmap\<close> are the two requests; their errors are dropped.\<close>

definition Finalize :: "(kobj \<Rightarrow> 's \<Rightarrow> gerror option \<times> 's) \<Rightarrow> (string \<Rightarrow> string \<Rightarrow> 's \<Rightarrow> gerror option \<times> 's) \<Rightarrow> kobj \<Rightarrow> 's \<Rightarrow> 's" where
  "Finalize finalize_ns delete_configmap ns s =
     (let (err1, s1) = finalize_ns ns s;
          (err2, s2) = delete_configmap (o_name ns) ''istio-ca-root-cert'' s1;
          (err3, s3) = delete_configmap (o_name ns) ''kube-root-ca.crt'' s2
      in s3)"

section \<open>Certificates and tokens\<close>

text \<open>\<open>get_configmap\<close> reads the data of a configuration map; a key that is missing reads as the empty string.\<close>

definition FetchRootCert :: "(string \<Rightarrow> string \<Rightarrow> gerror + smap) \<Rightarrow> gerror + string" where
  "FetchRootCert get_configmap =
     (case get_configmap ''istio-system'' ''istio-ca-root-cert'' of
        Inl err \<Rightarrow> Inl err
      | Inr d \<Rightarrow> Inr (case d ''root-cert.pem'' of None \<Rightarrow> [] | Some v \<Rightarrow> v))"

definition saTokenExpiration :: int where
  "saTokenExpiration = 60 * 60 * 24 * 7"

record tokenrequest =
  Audiences :: "string list"
  ExpirationSeconds :: int

definition CreateServiceAccountToken ::
    "(string \<Rightarrow> string \<Rightarrow> tokenrequest \<Rightarrow> 's \<Rightarrow> (gerror + token) \<times> 's) \<Rightarrow>
     string \<Rightarrow> string \<Rightarrow> string \<Rightarrow> 's \<Rightarrow> (gerror + token) \<times> 's" where
  "CreateServiceAccountToken create_token aud ns serviceAccount s =
     create_token ns serviceAccount \<lparr>Audiences = [aud], ExpirationSeconds = saTokenExpiration\<rparr> s"

text \<open>
  The token cache over the requests of this client: a token that is not answered from the cache was
  asked for with one audience and a week's validity, and nothing is asked for while a cached token has more than a minute left.
\<close>

lemma token_request:
  assumes "GetServiceAccountToken (CreateServiceAccountToken create) aud ns sa w = (Inr tok, w')"
  shows "(\<exists>t. cachedTokens w (san ns sa) = Some t \<and> tk_expiration t > tk_now w + 60 \<and> tok = tk_token t \<and> w' = w) \<or>
    (\<exists>t. create ns sa \<lparr>Audiences = [aud], ExpirationSeconds = 604800\<rparr> (tk_server w) = (Inr t, tk_server w') \<and> tok = tk_token t \<and>
       cachedTokens w' (san ns sa) = Some t)"
  using assms
  by (auto simp: GetServiceAccountToken_def CreateServiceAccountToken_def saTokenExpiration_def Let_def
      split: option.splits if_splits sum.splits prod.splits)

text \<open>Without the configuration map there is no certificate, and no token is asked for.\<close>

lemma no_root_no_certificate:
  assumes "get_configmap ''istio-system'' ''istio-ca-root-cert'' = Inl err"
  shows "Certificate c (FetchRootCert get_configmap) addr sa ns w = (Inl (ErrV ''failed to fetch root cert: '' err), w)"
  by (simp add: Certificate_def FetchRootCert_def assms)

end
