(* ===== verification/Commands.thy ===== *)
theory Commands
  imports Kube_Client Dump Pod_Startup Xds_Latency Reproduce Impersonate Victoria
begin

text \<open>
  The command line (cmd, pkg/flag): default values, the arguments that every command gets, the flags and the run of a
  command with its profiles; the loading of the built-in templates (templates/all.go). Parsing of flags is the
  library's: a command runs on the flags as they are set. The environment of the process is a function.
\<close>

section \<open>Global flags\<close>

record flags =
  fl_pilotAddress :: string
  fl_xdsMetadata :: smap
  fl_auth :: string
  fl_delta :: bool
  fl_kubeconfig :: string
  fl_qps :: int

type_synonym environ = "string \<Rightarrow> string option"

definition Getenv :: "environ \<Rightarrow> string \<Rightarrow> string" where
  "Getenv e name = (case e name of None \<Rightarrow> [] | Some v \<Rightarrow> v)"

definition defaultAddress :: "environ \<Rightarrow> string" where
  "defaultAddress e = (if e ''KUBERNETES_SERVICE_HOST'' \<noteq> None then ''istiod.istio-system.svc:15010'' else ''localhost:15010'')"

definition default_flags :: "environ \<Rightarrow> flags" where
  "default_flags e =
     \<lparr>fl_pilotAddress = defaultAddress e, fl_xdsMetadata = Map.empty, fl_auth = AuthTypeDefault, fl_delta = True,
      fl_kubeconfig = Getenv e ''KUBECONFIG'', fl_qps = 100000\<rparr>"

text \<open>GetArgs writes the path of the kubeconfig back into its flag.\<close>

definition set_kubeconfig :: "environ \<Rightarrow> flags \<Rightarrow> flags" where
  "set_kubeconfig e fl =
     (if fl_kubeconfig fl = [] then fl\<lparr>fl_kubeconfig := filepath_Join [Getenv e ''HOME'', ''/.kube/config'']\<rparr> else fl)"

definition GetArgs :: "('f, 'k) clientlib \<Rightarrow> environ \<Rightarrow> flags \<Rightarrow> (flags \<times> (gerror + args \<times> 'k Client)) outcome" where
  "GetArgs lib e fl =
     (let fl1 = set_kubeconfig e fl
      in obind (NewClient lib (fl_kubeconfig fl1) (fl_qps fl1)) (\<lambda>x.
           case x of
             Inl err \<Rightarrow> Returns (fl1, Inl err)
           | Inr cl \<Rightarrow>
               (let auth = (if fl_auth fl1 = [] then DefaultAuthForAddress (fl_pilotAddress fl1) else fl_auth fl1)
                in Returns (fl1, Inr (\<lparr>ag_PilotAddress = fl_pilotAddress fl1, ag_Metadata = fl_xdsMetadata fl1,
                                      ag_DeltaXDS = fl_delta fl1, ag_Auth = auth\<rparr>, cl)))))"

section \<open>Registering flags\<close>

text \<open>The default value of a flag has its type; \<open>FOther\<close> is a type that the program does not register.\<close>

datatype flagval = FString string | FBool bool | FInt int | FStrings "string list" | FDuration int | FMap smap | FOther string

record flagdef =
  fd_name :: string
  fd_short :: string
  fd_default :: flagval

fun parseable :: "flagval \<Rightarrow> bool" where
  "parseable (FMap m) = False"
| "parseable (FOther t) = False"
| "parseable v = True"

fun type_name :: "flagval \<Rightarrow> string" where
  "type_name (FString s) = ''string''"
| "type_name (FBool b) = ''bool''"
| "type_name (FInt i) = ''int''"
| "type_name (FStrings l) = ''[]string''"
| "type_name (FDuration d) = ''time.Duration''"
| "type_name (FMap m) = ''map[string]string''"
| "type_name (FOther t) = t"

text \<open>\<open>var_p\<close> adds a flag to a set of pflag; \<open>'g\<close> is such a set.\<close>

definition RegisterShort :: "(flagdef \<Rightarrow> 'g \<Rightarrow> 'g outcome) \<Rightarrow> flagval \<Rightarrow> string \<Rightarrow> string \<Rightarrow> 'g \<Rightarrow> 'g outcome" where
  "RegisterShort var_p val name short fs =
     (if parseable val then var_p \<lparr>fd_name = name, fd_short = short, fd_default = val\<rparr> fs
      else Panics (''unknown type '' @ type_name val))"

definition Register :: "(flagdef \<Rightarrow> 'g \<Rightarrow> 'g outcome) \<Rightarrow> flagval \<Rightarrow> string \<Rightarrow> 'g \<Rightarrow> 'g outcome" where
  "Register var_p val name fs = RegisterShort var_p val name [] fs"

definition long :: "flagval \<Rightarrow> string \<Rightarrow> flagdef" where
  "long val name = \<lparr>fd_name = name, fd_short = [], fd_default = val\<rparr>"

definition startup_flags :: "StartupConfig \<Rightarrow> flagdef list" where
  "startup_flags c =
     [long (FBool (sc_Inject c)) ''inject'', long (FInt (sc_Concurrency c)) ''concurrency'', long (FString (sc_Namespace c)) ''namespace'',
      long (FDuration (sc_Cooldown c)) ''cooldown'', long (FString []) ''spec'']"

definition latency_flags :: "StartupConfig \<Rightarrow> flagdef list" where
  "latency_flags c =
     [long (FBool (sc_Inject c)) ''inject'', long (FInt (sc_Concurrency c)) ''concurrency'', long (FString (sc_Namespace c)) ''namespace'',
      long (FDuration (sc_Cooldown c)) ''cooldown'', long (FString []) ''spec'']"

definition reproduce_flags :: "flagdef list" where
  "reproduce_flags =
     [long (FDuration 0) ''delay'', \<lparr>fd_name = ''config-only'', fd_short = ''n'', fd_default = FBool False\<rparr>,
      \<lparr>fd_name = ''file'', fd_short = ''f'', fd_default = FString []\<rparr>]"

definition impersonate_flags :: "flagdef list" where
  "impersonate_flags = [long (FDuration 0) ''delay'', long (FInt 1) ''replicas'', long (FString ''sidecar'') ''selector'']"

definition cluster_flags :: "flagdef list" where
  "cluster_flags = [\<lparr>fd_name = ''config'', fd_short = ''c'', fd_default = FString []\<rparr>]"

definition victoria_flags :: "flagdef list" where
  "victoria_flags =
     [\<lparr>fd_name = ''victoria-address'', fd_short = ''v'', fd_default = FString []\<rparr>,
      \<lparr>fd_name = ''stream'', fd_short = ''s'', fd_default = FString ''victoriapush''\<rparr>, long (FString []) ''sub-stream'']"

definition adsc_defaults :: AdscConfig where
  "adsc_defaults = \<lparr>ad_Count = 1, ad_Delay = 10 * 10 ^ 6, ad_Namespace = ''default''\<rparr>"

definition adsc_flags :: "flagdef list" where
  "adsc_flags = [long (FDuration (ad_Delay adsc_defaults)) ''delay'', long (FInt (ad_Count adsc_defaults)) ''count'',
     long (FString (ad_Namespace adsc_defaults)) ''namespace'']"

definition dump_flags :: "flagdef list" where
  "dump_flags = [long (FString []) ''pod'', long (FString []) ''namespace'', long (FString []) ''out'']"

definition global_flags :: "flags \<Rightarrow> flagdef list" where
  "global_flags fl =
     [\<lparr>fd_name = ''pilot-address'', fd_short = ''p'', fd_default = FString (fl_pilotAddress fl)\<rparr>,
      \<lparr>fd_name = ''auth'', fd_short = ''a'', fd_default = FString (fl_auth fl)\<rparr>,
      \<lparr>fd_name = ''kubeconfig'', fd_short = ''k'', fd_default = FString (fl_kubeconfig fl)\<rparr>,
      long (FInt (fl_qps fl)) ''qps'',
      \<lparr>fd_name = ''metadata'', fd_short = ''m'', fd_default = FMap (fl_xdsMetadata fl)\<rparr>,
      long (FBool (fl_delta fl)) ''delta'']"

section \<open>Running a command\<close>

text \<open>
  A command builds a simulation \<open>'a\<close> from the arguments, which it may change. RunE runs it with those arguments;
  \<open>run\<close> and \<open>cleanup\<close> are the methods of the simulation and \<open>marshal\<close> encodes what GetConfig returns.
\<close>

record ('a, 'w) Command =
  cmd_Name :: string
  cmd_Description :: string
  cmd_Details :: string
  cmd_Build :: "args \<Rightarrow> 'w \<Rightarrow> (args \<times> (gerror + 'a) \<times> 'w) outcome"

record cobra =
  co_Use :: string
  co_Short :: string
  co_Long :: string
  co_SilenceUsage :: bool

definition BuildCobra :: "('a, 'w) Command \<Rightarrow> cobra" where
  "BuildCobra built =
     \<lparr>co_Use = cmd_Name built, co_Short = cmd_Description built,
      co_Long = cmd_Description built @ newline @ cmd_Details built, co_SilenceUsage = True\<rparr>"

definition logConfig :: "('c \<Rightarrow> gerror + string) \<Rightarrow> 'c \<Rightarrow> string outcome" where
  "logConfig marshal config = (case marshal config of Inl err \<Rightarrow> Panics (err_text err) | Inr bytes \<Rightarrow> Returns bytes)"

definition RunE :: "('f, 'k) clientlib \<Rightarrow> environ \<Rightarrow> flags \<Rightarrow> ('a, 'w) Command \<Rightarrow> ('a \<Rightarrow> gerror + string) \<Rightarrow>
    (args \<Rightarrow> ('a, 'w) waiting) \<Rightarrow> (args \<Rightarrow> ('a, 'w) action) \<Rightarrow> (args \<Rightarrow> ('a, 'w) action) \<Rightarrow> 'w \<Rightarrow> (gerror option \<times> 'w) outcome" where
  "RunE lib e fl built marshal until_done run cleanup w =
     obind (GetArgs lib e fl) (\<lambda>(fl1, x).
       case x of
         Inl err \<Rightarrow> Returns (Some err, w)
       | Inr (ag, cl) \<Rightarrow>
           obind (cmd_Build built ag w) (\<lambda>(ag1, y, w1).
             case y of
               Inl err \<Rightarrow> Returns (Some err, w1)
             | Inr sim \<Rightarrow>
                 obind (logConfig marshal sim) (\<lambda>bytes.
                   obind (ExecuteSimulations (until_done ag1) (run ag1) (cleanup ag1) sim w1) (\<lambda>(s, w2, err). Returns (err, w2)))))"

text \<open>The builds of the commands.\<close>

definition podstartup_command :: "(string \<Rightarrow> gerror + string) \<Rightarrow> string \<Rightarrow> StartupConfig \<Rightarrow> (StartupConfig, 's world) Command" where
  "podstartup_command readFile specFile c =
     \<lparr>cmd_Name = ''pod-startup'', cmd_Description = ''measure the time for pods to start'', cmd_Details = [],
      cmd_Build = (\<lambda>ag w. Returns (ag, startup_Build readFile specFile c, w))\<rparr>"

definition xdslatency_command :: "(XdsLatencySimulation, 's world) Command" where
  "xdslatency_command =
     \<lparr>cmd_Name = ''xds-latency'', cmd_Description = ''measure end to end XDS latency'', cmd_Details = [],
      cmd_Build = (\<lambda>ag w. obind (NewXdsLatency ag w) (\<lambda>(x, w1). Returns (ag, Inr x, w1)))\<rparr>"

definition cluster_command :: "(string \<Rightarrow> gerror + ClusterConfig) \<Rightarrow> smap \<Rightarrow> gerror + string \<Rightarrow> (string \<Rightarrow> gerror + string) \<Rightarrow>
    templating \<Rightarrow> string \<Rightarrow> (Cluster, 's world) Command" where
  "cluster_command unmarshal builtin stdin read_file te cfgFile =
     \<lparr>cmd_Name = ''cluster'', cmd_Description = ''simulate a full cluster'', cmd_Details = [],
      cmd_Build = (\<lambda>ag w.
        case ReadConfigFile unmarshal builtin stdin read_file cfgFile of
          Inl err \<Rightarrow> Returns (ag, Inl (ErrV ''failed to read config file: '' err), w)
        | Inr config \<Rightarrow> obind (Build te ag config w) (\<lambda>(ag1, c, w1). Returns (ag1, Inr c, w1)))\<rparr>"

definition reproduce_command :: "ReproduceConfig \<Rightarrow> (ReproduceSimulation, 's world) Command" where
  "reproduce_command cfg =
     \<lparr>cmd_Name = ''reproduce-cluster'',
      cmd_Description = ''simulate a cluster by applying the configuration. Makes XDS connections where one would exist in-cluster.'',
      cmd_Details = ''Expected format: `kubectl get vs,gw,dr,sidecar,svc,endpoints,pod,namespace,sa -oyaml -A | kubectl grep`'',
      cmd_Build = (\<lambda>ag w. Returns (ag, Inr \<lparr>rp_Spec = cfg, rp_sims = [], rp_running = False\<rparr>, w))\<rparr>"

definition impersonate_command :: "ImpersonateSpec \<Rightarrow> (Impersonate, 's world) Command" where
  "impersonate_command cfg =
     \<lparr>cmd_Name = ''adsc-impersonate'', cmd_Description = ''simulate ADS connections from real pods running in the cluster'', cmd_Details = [],
      cmd_Build = (\<lambda>ag w. Returns (ag, Inr (NewImpersonate cfg), w))\<rparr>"

definition victoria_command :: "string \<Rightarrow> string \<Rightarrow> string \<Rightarrow> ('f Pusher, 's world) Command" where
  "victoria_command address stream subStream =
     \<lparr>cmd_Name = ''victoriapush'', cmd_Description = ''push logs to victoria logs'', cmd_Details = [],
      cmd_Build = (\<lambda>ag w. Returns (ag, Inr (NewPusher address stream subStream), w))\<rparr>"

definition inmemory_command :: "(unit, 's world) Command" where
  "inmemory_command =
     \<lparr>cmd_Name = ''in-memory-istiod'', cmd_Description = ''Run an in-memory Istiod implementation and pass it the provided config'', cmd_Details = [],
      cmd_Build = (\<lambda>ag w. Returns (ag,
        Inl (ErrText (''this is not implemented anymore; see the '' @ [CHR 0x27] @ ''isolated'' @ [CHR 0x27] @ '' command on older branches'')), w))\<rparr>"

definition adsc_RunE :: "('f, 'k) clientlib \<Rightarrow> environ \<Rightarrow> flags \<Rightarrow> AdscConfig \<Rightarrow> (AdscConfig \<Rightarrow> gerror + string) \<Rightarrow> 's world runtime \<Rightarrow>
    (xds_sim AggregateSimulation, 's world) waiting \<Rightarrow> 's world \<Rightarrow> (gerror option \<times> 's world) outcome" where
  "adsc_RunE lib e fl cfg marshal rt until_done w =
     obind (GetArgs lib e fl) (\<lambda>(fl1, x).
       case x of
         Inl err \<Rightarrow> Returns (Some err, w)
       | Inr (ag, cl) \<Rightarrow>
           obind (logConfig marshal cfg) (\<lambda>bytes.
             obind (Adsc ag cfg rt until_done w) (\<lambda>(s, w1, err). Returns (err, w1))))"

definition dump_RunE :: "('f, 'k) clientlib \<Rightarrow> environ \<Rightarrow> flags \<Rightarrow> DumpSpec \<Rightarrow> (DumpSpec \<Rightarrow> gerror + string) \<Rightarrow> ('s, 't) dump_env \<Rightarrow>
    ('s, 't) dump_world \<Rightarrow> (('s, 't) dump_world \<times> gerror option) outcome" where
  "dump_RunE lib e fl cfg marshal E W =
     obind (GetArgs lib e fl) (\<lambda>(fl1, x).
       case x of
         Inl err \<Rightarrow> Returns (W, Some err)
       | Inr (ag, cl) \<Rightarrow>
           if du_Pod cfg = [] then Returns (W, Some (ErrText ''--pod required''))
           else if du_Namespace cfg = [] then Returns (W, Some (ErrText ''--namespace required''))
           else obind (logConfig marshal cfg) (\<lambda>bytes. Dump (E\<lparr>de_args := ag\<rparr>) cfg W))"

definition command_names :: "string list" where
  "command_names =
     [''pod-startup'', ''xds-latency'', ''reproduce-cluster'', ''in-memory-istiod'', ''adsc-impersonate'', ''cluster'', ''victoriapush'']"

text \<open>The status with which the process ends; a panic of Go has status 2.\<close>

fun exit_status :: "(gerror option \<times> 'w) outcome \<Rightarrow> nat option" where
  "exit_status (Returns (None, w)) = Some 0"
| "exit_status (Returns (Some e, w)) = Some 1"
| "exit_status (Panics m) = Some 2"
| "exit_status Blocks = None"

section \<open>Profiles\<close>

datatype profile_event = CreateFile string | StartCPUProfile string | StopCPUProfile | WriteHeapProfile string

text \<open>What happens before the command and what is deferred until it ends; \<open>create\<close> and \<open>begin_cpu\<close> may fail.\<close>

definition cpu_profile :: "(string \<Rightarrow> gerror option) \<Rightarrow> (string \<Rightarrow> gerror option) \<Rightarrow> string \<Rightarrow>
    gerror option \<times> profile_event list \<times> profile_event list" where
  "cpu_profile create begin_cpu cpuProfile =
     (if cpuProfile = [] then (None, [], [])
      else case create cpuProfile of
             Some err \<Rightarrow> (Some err, [], [])
           | None \<Rightarrow>
               (case begin_cpu cpuProfile of
                  Some err \<Rightarrow> (Some err, [CreateFile cpuProfile], [])
                | None \<Rightarrow> (None, [CreateFile cpuProfile, StartCPUProfile cpuProfile], [StopCPUProfile])))"

definition mem_profile :: "(string \<Rightarrow> gerror option) \<Rightarrow> string \<Rightarrow> gerror option \<times> profile_event list \<times> profile_event list" where
  "mem_profile create memProfile =
     (if memProfile = [] then (None, [], [])
      else case create memProfile of
             Some err \<Rightarrow> (Some err, [], [])
           | None \<Rightarrow> (None, [CreateFile memProfile], [WriteHeapProfile memProfile]))"

text \<open>Deferred functions run in reverse order, also when the command panics, and not when it never ends.\<close>

definition WithProfiling :: "(string \<Rightarrow> gerror option) \<Rightarrow> (string \<Rightarrow> gerror option) \<Rightarrow> string \<Rightarrow> string \<Rightarrow>
    ('w \<Rightarrow> (gerror option \<times> 'w) outcome) \<Rightarrow> 'w \<Rightarrow> profile_event list \<times> (gerror option \<times> 'w) outcome" where
  "WithProfiling create begin_cpu cpuProfile memProfile orig w =
     (let (cpuErr, cpuBefore, cpuAfter) = cpu_profile create begin_cpu cpuProfile
      in case cpuErr of
           Some err \<Rightarrow> (cpuBefore, Returns (Some err, w))
         | None \<Rightarrow>
             (let (memErr, memBefore, memAfter) = mem_profile create memProfile
              in case memErr of
                   Some err \<Rightarrow> (cpuBefore @ memBefore @ cpuAfter, Returns (Some err, w))
                 | None \<Rightarrow>
                     (let r = orig w
                      in (cpuBefore @ memBefore @ (if r = Blocks then [] else memAfter @ cpuAfter), r))))"

section \<open>Built-in templates\<close>

definition Ext :: "string \<Rightarrow> string" where
  "Ext path =
     (let r = takeWhile (\<lambda>c. c \<noteq> CHR ''/'') (rev path)
      in if CHR ''.'' \<in> set r then CHR ''.'' # rev (takeWhile (\<lambda>c. c \<noteq> CHR ''.'') r) else [])"

definition TrimSuffix :: "string \<Rightarrow> string \<Rightarrow> string" where
  "TrimSuffix s suffix = (if drop (length s - length suffix) s = suffix then take (length s - length suffix) s else s)"

definition template_key :: "string \<Rightarrow> string" where
  "template_key n = TrimSuffix n (Ext n)"

fun load_entries :: "(string \<Rightarrow> gerror + string) \<Rightarrow> (string \<Rightarrow> gerror + 'tm) \<Rightarrow> string list \<Rightarrow> (string \<rightharpoonup> 'tm) \<Rightarrow> (string \<rightharpoonup> 'tm) outcome" where
  "load_entries readFile parse [] result = Returns result"
| "load_entries readFile parse (n # entries) result =
     (case readFile n of
        Inl err \<Rightarrow> Panics (''failed to load templates: '' @ err_text err)
      | Inr by \<Rightarrow>
          (case parse by of
             Inl err \<Rightarrow> Panics (''failed to load templates: '' @ err_text err)
           | Inr tm \<Rightarrow> load_entries readFile parse entries (result(template_key n \<mapsto> tm))))"

definition LoadBuiltin :: "(gerror + string list) \<Rightarrow> (string \<Rightarrow> gerror + string) \<Rightarrow> (string \<Rightarrow> gerror + 'tm) \<Rightarrow> (string \<rightharpoonup> 'tm) outcome" where
  "LoadBuiltin readDir readFile parse =
     (case readDir of
        Inl err \<Rightarrow> Panics (''failed to load templates: '' @ err_text err)
      | Inr entries \<Rightarrow> load_entries readFile parse entries Map.empty)"

section \<open>Facts\<close>

text \<open>Every command gets an auth type that is not the default, and with default flags plaintext, inside and outside a cluster.\<close>

lemma GetArgs_auth:
  assumes "GetArgs lib e fl = Returns (fl1, Inr (ag, cl))"
  shows "ag_Auth ag \<noteq> AuthTypeDefault" "fl1 = set_kubeconfig e fl"
    "NewClient lib (fl_kubeconfig fl1) (fl_qps fl1) = Returns (Inr cl)"
proof -
  let ?fl = "set_kubeconfig e fl"
  have "ag_Auth ag \<noteq> AuthTypeDefault \<and> fl1 = ?fl \<and> NewClient lib (fl_kubeconfig fl1) (fl_qps fl1) = Returns (Inr cl)"
  proof (cases "NewClient lib (fl_kubeconfig ?fl) (fl_qps ?fl)")
    case (Returns x)
    then show ?thesis using assms
      by (cases x) (auto simp: GetArgs_def Let_def DefaultAuthForAddress_def auth_type_defs split: if_splits)
  qed (use assms in \<open>simp_all add: GetArgs_def Let_def\<close>)
  then show "ag_Auth ag \<noteq> AuthTypeDefault" "fl1 = ?fl" "NewClient lib (fl_kubeconfig fl1) (fl_qps fl1) = Returns (Inr cl)"
    by blast+
qed

lemma default_address_plaintext: "DefaultAuthForAddress (defaultAddress e) = AuthTypePlaintext"
  by (simp add: defaultAddress_def DefaultAuthForAddress_def SplitHostPort_def after_last_colon_def before_last_colon_def)

text \<open>The flags of a command and the global flags have different names and shorthands.\<close>

definition command_flags :: "flagdef list list" where
  "command_flags = [startup_flags startup_defaults, latency_flags startup_defaults, reproduce_flags, impersonate_flags,
     cluster_flags, victoria_flags, adsc_flags, dump_flags]"

lemma flags_distinct:
  "\<forall>fs \<in> set command_flags. distinct (map fd_name (fs @ global_flags fl)) \<and>
     distinct (filter (\<lambda>s. s \<noteq> []) (map fd_short (fs @ global_flags fl)))"
  by (simp add: command_flags_def startup_flags_def latency_flags_def reproduce_flags_def impersonate_flags_def cluster_flags_def
      victoria_flags_def adsc_flags_def dump_flags_def global_flags_def long_def)

lemma command_names_distinct: "distinct (command_names @ [''adsc'', ''dump''])"
  by (simp add: command_names_def)

text \<open>A profile that was started is stopped when the command ends or panics; without profiles nothing is added.\<close>

lemma WithProfiling_stops:
  assumes "WithProfiling create begin_cpu cpu mem orig w = (ev, r)" and "r \<noteq> Blocks"
  shows "StartCPUProfile cpu \<in> set ev \<longleftrightarrow> StopCPUProfile \<in> set ev"
  using assms by (auto simp: WithProfiling_def cpu_profile_def mem_profile_def Let_def split: if_splits option.splits)

lemma WithProfiling_runs:
  assumes "WithProfiling create begin_cpu cpu mem orig w = (ev, r)"
  shows "r = orig w \<or> (\<exists>err. r = Returns (Some err, w))"
  using assms by (auto simp: WithProfiling_def cpu_profile_def mem_profile_def Let_def split: if_splits option.splits)

lemma WithProfiling_off: "WithProfiling create begin_cpu [] [] orig w = ([], orig w)"
  by (simp add: WithProfiling_def cpu_profile_def mem_profile_def Let_def)

text \<open>Loading succeeds only when every file parses; a template comes from a file whose name without its extension is its key.\<close>

lemma load_entries_templates:
  "load_entries rd parse entries m = Returns m' \<Longrightarrow>
     dom m' = dom m \<union> template_key ` set entries \<and>
     (\<forall>k t. m' k = Some t \<longrightarrow> m k = Some t \<or>
        (\<exists>n \<in> set entries. template_key n = k \<and> (\<exists>by. rd n = Inr by \<and> parse by = Inr t)))"
proof (induction entries arbitrary: m)
  case (Cons n entries)
  obtain by0 t0 where r: "rd n = Inr by0" "parse by0 = Inr t0" and l: "load_entries rd parse entries (m(template_key n \<mapsto> t0)) = Returns m'"
    using Cons.prems by (auto split: sum.splits)
  note IH = Cons.IH [OF l]
  have "m k = Some t \<or> (\<exists>x \<in> set (n # entries). template_key x = k \<and> (\<exists>by. rd x = Inr by \<and> parse by = Inr t))"
    if "m' k = Some t" for k t
    using IH r that by (cases "k = template_key n") (auto split: if_splits)
  then show ?case using IH by auto
qed simp

lemma LoadBuiltin_templates:
  assumes "LoadBuiltin readDir rd parse = Returns m"
  shows "\<exists>entries. readDir = Inr entries \<and> dom m = template_key ` set entries \<and>
    (\<forall>k t. m k = Some t \<longrightarrow> (\<exists>n \<in> set entries. template_key n = k \<and> (\<exists>by. rd n = Inr by \<and> parse by = Inr t)))"
proof (cases readDir)
  case (Inr entries)
  then show ?thesis using load_entries_templates [of rd parse entries Map.empty m] assms by (simp add: LoadBuiltin_def)
qed (use assms in \<open>simp add: LoadBuiltin_def\<close>)

lemma template_key_examples: "template_key ''virtualservice.yaml'' = ''virtualservice''" "template_key ''README'' = ''README''"
  by (simp_all add: template_key_def TrimSuffix_def Ext_def Let_def)

text \<open>A build that fails runs nothing, and neither does a client that cannot be made.\<close>

lemma RunE_no_args:
  "GetArgs lib e fl = Returns (fl1, Inl err) \<Longrightarrow> RunE lib e fl built marshal until_done run cleanup w = Returns (Some err, w)"
  by (simp add: RunE_def)

lemma inmemory_fails:
  assumes "GetArgs lib e fl = Returns (fl1, Inr (ag, cl))"
  shows "\<exists>err. RunE lib e fl inmemory_command marshal until_done run cleanup w = Returns (Some err, w)"
  using assms by (simp add: RunE_def inmemory_command_def)

end
