(* ===== verification/Command_Runs.thy ===== *)
theory Command_Runs
  imports Commands
begin

text \<open>
  The cluster command from end to end: the configuration is read, the cluster is built, run, ended and
  cleaned up. Building a cluster only draws identifiers and addresses.
\<close>

section \<open>Building only draws\<close>

definition drawn :: "'s world \<Rightarrow> 's world \<Rightarrow> bool" where
  "drawn w w' \<longleftrightarrow> log w' = log w \<and> srv_state w' = srv_state w \<and> streams w' = streams w \<and> now w' = now w"

lemma drawn_refl [simp]: "drawn w w"
  by (simp add: drawn_def)

lemma drawn_rnd [simp]: "drawn (w\<lparr>rnd := r\<rparr>) w' = drawn w w'" "drawn w (w'\<lparr>rnd := r\<rparr>) = drawn w w'"
  by (simp_all add: drawn_def)

lemma drawn_trans [trans]: "drawn w w' \<Longrightarrow> drawn w' w'' \<Longrightarrow> drawn w w''"
  by (simp add: drawn_def)

lemma drawn_live: "drawn w w' \<Longrightarrow> live env w' = live env w"
  by (simp add: drawn_def live_def)

lemma NewPod_drawn: "NewPod s w = (p, w') \<Longrightarrow> drawn w w'"
  by (auto simp: NewPod_def drawn_def Let_def split: if_splits prod.splits)

lemma makePod_drawn: "makePod s w = Returns (p, w') \<Longrightarrow> drawn w w'"
  by (auto simp: makePod_def obind_Returns_iff dest!: NewPod_drawn)

lemma make_pods_drawn: "make_pods s n w = Returns (ps, w') \<Longrightarrow> drawn w w'"
proof (induction n arbitrary: w ps)
  case (Suc n)
  then obtain p w1 ps1 where "makePod s w = Returns (p, w1)" "make_pods s n w1 = Returns (ps1, w')"
    by (auto simp: obind_Returns_iff)
  then show ?case using Suc.IH makePod_drawn drawn_trans by blast
qed simp

lemma make_configs_drawn: "make_configs te defs f tmpls w = Returns (ts, w') \<Longrightarrow> drawn w w'"
proof (induction tmpls arbitrary: w ts)
  case (Cons t tmpls)
  then obtain r1 ts1 where "make_configs te defs f tmpls (w\<lparr>rnd := r1\<rparr>) = Returns (ts1, w')"
    by (auto simp: obind_Returns_iff)
  from Cons.IH [OF this] show ?case by simp
qed simp

lemma NewApplication_drawn:
  assumes "NewApplication te s w = Returns (a, w')"
  shows "drawn w w'"
proof -
  obtain cs w1 where c: "make_configs te (as_TemplateDefinitions s) (app_config s) (as_Templates s) w = Returns (cs, w1)"
    and rest: "w' = w1 \<or> (\<exists>ps. make_pods s (nat (as_Instances s)) w1 = Returns (ps, w'))"
    using assms by (auto simp: NewApplication_def obind_Returns_iff Let_def split: if_splits)
  then show ?thesis using make_configs_drawn [OF c] make_pods_drawn drawn_trans by blast
qed

lemma createApplication_drawn: "createApplication te s d suffix w = Returns (a, w') \<Longrightarrow> drawn w w'"
  by (auto simp: createApplication_def Let_def dest!: NewApplication_drawn)

lemma make_replicas_drawn: "make_replicas te s idx d r k w = Returns (as, w') \<Longrightarrow> drawn w w'"
proof (induction k arbitrary: r w as)
  case (Suc k)
  obtain suffix r1 where g: "GenUIDOrStableIdentifier (nsp_StableNames s) idx r (rnd w) = (suffix, r1)" by fastforce
  then obtain a w1 as1 where "createApplication te s d (if ac_Type d = WaypointType then ''static'' else suffix) (w\<lparr>rnd := r1\<rparr>) = Returns (a, w1)"
    "make_replicas te s idx d (Suc r) k w1 = Returns (as1, w')"
    using Suc.prems by (auto simp: Let_def obind_Returns_iff)
  then show ?case using Suc.IH createApplication_drawn drawn_trans drawn_rnd(1) by blast
qed simp

lemma make_deployments_drawn: "make_deployments te s idx ds w = Returns (as, w') \<Longrightarrow> drawn w w'"
proof (induction ds arbitrary: idx w as)
  case (Cons d ds)
  then obtain as1 w1 as2 where "make_replicas te s idx d 0 (nat (ac_Replicas d)) w = Returns (as1, w1)"
    "make_deployments te s (Suc idx) ds w1 = Returns (as2, w')" by (auto simp: obind_Returns_iff)
  then show ?case using Cons.IH make_replicas_drawn drawn_trans by blast
qed simp

lemma NewNamespace_drawn:
  assumes "NewNamespace te s w = Returns (n, w')"
  shows "drawn w w'"
proof -
  obtain f cs w1 deps where "make_configs te (nsp_TemplateDefinitions s) f (nsp_Templates s) w = Returns (cs, w1)"
    "make_deployments te s 0 (nsp_Deployments s) w1 = Returns (deps, w')"
    using assms by (auto simp: NewNamespace_def obind_Returns_iff)
  then show ?thesis using make_configs_drawn make_deployments_drawn drawn_trans by blast
qed

lemma make_ns_replicas_drawn: "make_ns_replicas te cfg nodes i ns r k w = Returns (nss, w') \<Longrightarrow> drawn w w'"
proof (induction k arbitrary: r w nss)
  case (Suc k)
  then obtain name r1 n w1 nss1 where "NewNamespace te (ns_spec cfg nodes ns name) (w\<lparr>rnd := r1\<rparr>) = Returns (n, w1)"
    "make_ns_replicas te cfg nodes i ns (Suc r) k w1 = Returns (nss1, w')"
    by (auto simp: Let_def obind_Returns_iff split: prod.splits)
  then show ?case using Suc.IH NewNamespace_drawn drawn_trans drawn_rnd(1) by blast
qed simp

lemma make_namespaces_drawn: "make_namespaces te cfg nodes i nss w = Returns (ns, w') \<Longrightarrow> drawn w w'"
proof (induction nss arbitrary: i w ns)
  case (Cons n nss)
  then obtain as1 w1 as2 where "make_ns_replicas te cfg nodes i n 0 (nat (nc_Replicas n)) w = Returns (as1, w1)"
    "make_namespaces te cfg nodes (Suc i) nss w1 = Returns (as2, w')" by (auto simp: obind_Returns_iff)
  then show ?case using Cons.IH make_ns_replicas_drawn drawn_trans by blast
qed simp

lemma make_node_replicas_drawn: "make_node_replicas node k w = (ns, w') \<Longrightarrow> drawn w w'"
proof (induction k arbitrary: w ns)
  case (Suc k)
  then obtain r1 ns1 where "make_node_replicas node k (w\<lparr>rnd := r1\<rparr>) = (ns1, w')"
    by (auto simp: Let_def split: prod.splits)
  from Suc.IH [OF this] show ?case by simp
qed simp

lemma make_nodes_drawn: "make_nodes nodes w = (ns, w') \<Longrightarrow> drawn w w'"
proof (induction nodes arbitrary: w ns)
  case (Cons n nodes)
  obtain as1 w1 as2 where "make_node_replicas n (nat (nco_Count n)) w = (as1, w1)" "make_nodes nodes w1 = (as2, w')"
    using Cons.prems by (auto simp: Let_def split: prod.splits)
  then show ?case using Cons.IH make_node_replicas_drawn drawn_trans by blast
qed simp

lemma NewCluster_drawn:
  assumes "NewCluster te cfg w = Returns (c, w')"
  shows "drawn w w'"
proof -
  obtain nodes w1 where n: "make_nodes (cc_Nodes cfg) w = (nodes, w1)" by fastforce
  then obtain nss where "make_namespaces te cfg nodes 0 (cc_Namespaces cfg) w1 = Returns (nss, w')"
    using assms by (auto simp: NewCluster_def Let_def obind_Returns_iff split: if_splits)
  then show ?thesis using n make_nodes_drawn make_namespaces_drawn drawn_trans by blast
qed

lemma cluster_command_drawn:
  "cmd_Build (cluster_command um b i rd te f) ag w = Returns (ag1, y, w') \<Longrightarrow> drawn w w'"
  by (auto simp: cluster_command_def Build_def Let_def obind_Returns_iff split: sum.splits dest!: NewCluster_drawn)

section \<open>The cluster command\<close>

lemma RunE_cases:
  assumes "RunE lib e fl built marshal until_done run cleanup w = Returns (err, w')"
  obtains "w' = w" | ag y w1 ag1 where "cmd_Build built ag w = Returns (ag1, y, w1)" "w' = w1"
    | ag ag1 sim w1 s where "cmd_Build built ag w = Returns (ag1, Inr sim, w1)"
      "ExecuteSimulations (until_done ag1) (run ag1) (cleanup ag1) sim w1 = Returns (s, w', err)"
proof -
  obtain fl1 x where g: "GetArgs lib e fl = Returns (fl1, x)" using assms by (auto simp: RunE_def obind_Returns_iff)
  show thesis
  proof (cases x)
    case (Inl er)
    then have "w' = w" using assms g by (simp add: RunE_def)
    then show thesis by (rule that(1))
  next
    case (Inr p)
    obtain ag cl where p: "p = (ag, cl)" by fastforce
    obtain ag1 y w1 where b: "cmd_Build built ag w = Returns (ag1, y, w1)"
      using assms g Inr p by (auto simp: RunE_def obind_Returns_iff)
    show thesis
    proof (cases y)
      case (Inl er)
      then have "w' = w1" using assms g Inr p b by (simp add: RunE_def)
      then show thesis by (rule that(2) [OF b])
    next
      case (Inr sim)
      then obtain s where "ExecuteSimulations (until_done ag1) (run ag1) (cleanup ag1) sim w1 = Returns (s, w', err)"
        using assms g \<open>x = Inr p\<close> p b by (auto simp: RunE_def obind_Returns_iff)
      then show thesis using that(3) b Inr by blast
    qed
  qed
qed

text \<open>The run and the cleanup of a cluster with the arguments of its command.\<close>

definition with_args :: "'s simenv \<Rightarrow> args \<Rightarrow> 's simenv" where
  "with_args E ag = E\<lparr>sim_args := ag\<rparr>"

lemma with_args_simps [simp]: "kube (with_args E ag) = kube E" "env_documented (with_args E ag) = env_documented E"
  by (simp_all add: with_args_def env_documented_def)

definition cluster_RunE :: "('f, 'k) clientlib \<Rightarrow> environ \<Rightarrow> flags \<Rightarrow> (Cluster, 's world) Command \<Rightarrow> (Cluster \<Rightarrow> gerror + string) \<Rightarrow>
    (args \<Rightarrow> (Cluster, 's world) waiting) \<Rightarrow> 's simenv \<Rightarrow> 's world \<Rightarrow> (gerror option \<times> 's world) outcome" where
  "cluster_RunE lib e fl built marshal until_done E w =
     RunE lib e fl built marshal until_done (\<lambda>ag. Cluster_Run (with_args E ag)) (\<lambda>ag. Cluster_Cleanup (with_args E ag)) w"

text \<open>What other goroutines do until the context ends is background work of the cluster.\<close>

definition only_background :: "'s simenv \<Rightarrow> (args \<Rightarrow> (Cluster, 's world) waiting) \<Rightarrow> bool" where
  "only_background E until_done \<longleftrightarrow>
     (\<forall>ag s s'. until_done ag s = Some s' \<longrightarrow> (background (with_args E ag))\<^sup>*\<^sup>* s s')"


section \<open>A small cluster from the command line\<close>

text \<open>A client inside a cluster, an empty file (one default node), and a run that ends after one renewal of a lease.\<close>

definition small_lib :: "(unit, unit) clientlib" where
  "small_lib = \<lparr>os_Stat = (\<lambda>f. False), RawConfig = (\<lambda>f. Inr ([], Map.empty)), DefaultRestConfig = (\<lambda>k c f. Inl (ErrText ''no file'')),
     InClusterConfig = Inr \<lparr>rc_QPS = (), rc_Burst = 0\<rparr>, NewKubeClient = (\<lambda>rc n. Inr ()), float32 = (\<lambda>n. ())\<rparr>"

abbreviation small_command :: "(Cluster, store world) Command" where
  "small_command \<equiv> cluster_command (\<lambda>s. Inr zero_config) Map.empty (Inr []) (\<lambda>f. Inr []) (engine memory_sim) ''cluster.yaml''"

definition default_node :: NodeConfig where
  "default_node = \<lparr>nco_Name = ''default'', nco_Ztunnel = False, nco_Count = 1\<rparr>"

lemma memory_plain_Node_Run:
  assumes "n_xds n = None" and "\<not> no_Ztunnel (n_Spec n)"
  shows "\<exists>n1 w1. Node_Run ag memory_env n w = Returns (n1, w1, None) \<and> n_xds n1 = None"
  using assms
  by (cases "srv_state w (''Node'', [], no_Name (n_Spec n))")
    (simp_all add: Node_Run_def ApplyRes_def internalApply_def exec_def memory_env_def not_found_def
      hasStatus_def hasStatusInternal_def getNode_def update_def update_fn_def updateStatus_def updateStatus_fn_def
      refresh_version_def obj_key_def numeral_3_eq_3 Let_def next_version_def new_object_def)

lemma small_only_background: "only_background memory_sim (\<lambda>ag. one_renewal)"
  unfolding only_background_def
proof (intro allI impI)
  fix ag and s s' :: "Cluster \<times> store world"
  assume r: "one_renewal s = Some s'"
  obtain c w where s: "s = (c, w)" by fastforce
  have "background (with_args memory_sim ag) (c, w) (c, snd (lease_tick memory_env (hd (clu_nodes c)) w))" if "clu_nodes c \<noteq> []"
    using background.lease [of "hd (clu_nodes c)" c "with_args memory_sim ag" w] that by (simp add: memory_sim_def)
  then show "(background (with_args memory_sim ag))\<^sup>*\<^sup>* s s'"
    using r by (auto simp: one_renewal_def s split: if_splits)
qed

lemma small_build:
  "\<exists>n w1. cmd_Build small_command ag memory_world = Returns (ag, Inr \<lparr>clu_Name = ''primary'', clu_Spec = zero_config\<lparr>cc_Nodes := [default_node]\<rparr>,
      clu_namespaces = [], clu_nodes = [n], clu_running = False\<rparr>, w1) \<and> n_xds n = None \<and> \<not> no_Ztunnel (n_Spec n)"
proof -
  obtain uid r1 where u: "GenUID (rnd memory_world) = (uid, r1)" by fastforce
  have c: "ReadConfigFile (\<lambda>s. Inr zero_config) Map.empty (Inr []) (\<lambda>f. Inr []) ''cluster.yaml'' = Inr (zero_config\<lparr>cc_Nodes := [default_node]\<rparr>)"
    by (simp add: ReadConfigFile_def ReadConfig_def ApplyDefaults_def zero_config_def default_node_def)
  show ?thesis
    using u by (simp add: cluster_command_def c Build_def NewCluster_def PodCount_def NodeCount_def quot_def default_node_def NewNode_def)
      (simp add: zero_config_def)
qed

lemma small_cleanup:
  assumes "clu_namespaces c = []" and "\<forall>n \<in> set (clu_nodes c). n_xds n = None"
  shows "\<exists>c' w'. Cluster_Cleanup memory_sim c w = Returns (c', w', None)"
proof -
  have "\<forall>s \<in> set (rev (clu_getSims c)). bare_sim s"
    using assms by (auto simp: clu_getSims_def getIstioResources_def)
  then have "\<exists>ss w'. run_par ''failed cleaning simulation '' cluster_sim_type (cluster_sim_cleanup memory_sim) (\<lambda>w. w)
      (one_by_one (length (clu_getSims c))) (rev (clu_getSims c)) w None = Returns (ss, w', None) \<and> (\<forall>s \<in> set ss. bare_sim s)"
    by (intro run_par_total [OF memory_cluster_sim_cleanup]) (simp_all add: execs_one_by_one)
  then show ?thesis by (auto simp: Cluster_Cleanup_def agg_CleanupParallel_def)
qed

definition small_flags :: flags where
  "small_flags = \<lparr>fl_pilotAddress = ag_PilotAddress small_args, fl_xdsMetadata = ag_Metadata small_args, fl_auth = ag_Auth small_args,
     fl_delta = ag_DeltaXDS small_args, fl_kubeconfig = ''config'', fl_qps = 100\<rparr>"

lemma small_GetArgs: "GetArgs small_lib e small_flags = Returns (small_flags, Inr (small_args, \<lparr>cl_Client = (), cl_ClusterName = []\<rparr>))"
  by (simp add: GetArgs_def small_flags_def set_kubeconfig_def NewClient_def rest_config_def small_lib_def small_args_def auth_type_defs)

lemma small_run:
  assumes "n_xds n = None" and "\<not> no_Ztunnel (n_Spec n)" and c: "clu_namespaces c = []" "clu_nodes c = [n]" "\<not> clu_running c"
  shows "\<exists>c1 w1. Cluster_Run memory_sim c w = Returns (c1, w1, None) \<and> clu_namespaces c1 = [] \<and> (\<exists>n1. clu_nodes c1 = [n1] \<and> n_xds n1 = None)"
proof -
  have alive: "\<not> IsDone (kruntime memory_env) v" for v by (simp add: IsDone_def memory_env_def)
  obtain n1 w1 where "Node_Run small_args memory_env n w = Returns (n1, w1, None)" "n_xds n1 = None"
    using memory_plain_Node_Run [OF assms(1,2)] by blast
  then show ?thesis using c alive
    by (simp add: Cluster_Run_def agg_Run_def lift_sim_def memory_sim_def nodes_of_def getIstioResources_def Let_def)
qed


end
