(* ===== verification/Spec2Isabelle.thy ===== *)
theory Spec2Isabelle
  imports Reader Kube_Laws App_Laws Cluster_Laws Cluster_Scaler Cluster_Build Cluster_Kubelet Execution Dump Impersonate Reproduce Victoria Model_Codecs Xds_Latency Pod_Startup Adsc_Dial Rpc_Auth Command_Runs
begin

text \<open>
  pilot-load: a model of the load generator for Istio's control plane, with the theorems that make its
  parts correct.

  The program. A command (cmd, sims) builds a simulation, an object with Run and Cleanup
  (pkg/simulation/model), and the runner (pkg/simulation/simulations.go) runs it, waits for the context
  and cleans it up. A cluster simulation (sims/cluster) is made of nodes, namespaces and applications
  (pkg/simulation/app), whose parts write Kubernetes objects through pkg/kube and connect clients
  (pkg/simulation/xds) to the control plane. A client is adsc: a state-of-the-world or a delta ADS client
  over a gRPC stream that subscribes, follows references and acknowledges.

  How it is modelled. A Go call is a function of the state it reads into an \<open>outcome\<close>: a value, a panic,
  or a goroutine that blocks for ever. A method with an effect is an \<open>action\<close>: it returns the object, the
  world and the error. The world has the API server (a parameter of type \<open>kenv\<close>), the log of the
  requests that reached it, the streams of the XDS clients, the clock and the random source. Concurrency is a schedule:
  either an explicit list of events that a predicate admits, or a step relation (\<open>inductive\<close>). Libraries
  (client-go, gRPC, protobuf, YAML, text/template, x509, the work queue) are records of functions, and
  what is relied on is a predicate named \<open>..._documented\<close>; Kube_Memory and the witnesses instantiate
  all of them.

  Theories, in the order of the program's layers:
    - Go_Prelude, Util: outcomes, errors, formatting; util.go (errors, identifiers, IP allocation on bytes). The locale
      \<open>step_invariant\<close> carries an invariant along the runs of a step relation; the state machines interpret it.
    - Xds_Messages, Adsc_Sotw (adsc/adsc.go), Adsc_Delta (adsc/delta.go), Adsc_Load (adsc/load.go): the clients.
      Adsc_Sotw proves that requests carry the last nonce and version received for their type, that a
      response is acknowledged, and what it subscribes to. Adsc_Delta_Tree and Adsc_Delta_Client prove
      the invariant of the resource tree, that deletion ends and removes what has become unreachable, that
      every message is answered by one ACK, and which names are subscribed. Adsc_Load proves what Fetch returns, and that
      Connect stops with its context having closed its connections, with its backoff.
    - Security, Certificates, Rpc_Auth (pkg/simulation/security): auth options, token cache, certificates; the credentials
      of calls that run at once, each with a token of its own client however they interleave.
    - Kube_Objects, Kube, Kube_Laws, Kube_Memory (pkg/kube): objects, Apply, Create, Delete, patches, status
      writes; upsert, bounded retries, idempotence; an API server in memory on which the rest is evaluated.
    - Sim_Model (pkg/simulation/model): aggregates, in sequence and in parallel. The locale \<open>simulation\<close> is
      the contract of Run and Cleanup: Run only makes what it owns, a Cleanup without error removes
      it. Its lemmas carry the contract from the members to the aggregate; every simulation that writes objects
      interprets it; its half about Cleanup alone is the locale \<open>cleanable\<close>. The locale \<open>stoppable_simulation\<close> is the contract of the clients, interpreted by
      Xds_Simulation (pkg/simulation/xds).
    - Config_Sims, App_Sims, Application, App_Laws (pkg/simulation/config, pkg/simulation/app): the objects, the
      applications, scaling and refreshing without losing a pod.
    - Cluster_Config, Cluster_Parts, Cluster_Namespace, Cluster, Cluster_Laws, Cluster_Scaler, Cluster_Build, Cluster_Queue,
      Cluster_Kubelet (sims/cluster): reading the configuration, building the cluster (sizes, places,
      names), running it, the lease goroutines, kubelet and scaler as steps beside it, the work queue with its bounded
      attempts; and the main theorem, that a Cleanup without error leaves nothing that was not there before, whatever
      was renewed, reconciled or refreshed in between. Cluster_Scaler shows what is outside of it: a failed refresh leaves one pod
      at most, a refresh after the Cleanup may leave one, and so may a template that names its objects at random.
    - Execution (pkg/simulation/simulations.go): the runner; its theorems are those of an executed cluster and of the
      fleet of clients.
    - Impersonate (sims/adscimpersonate, pkg/simulation/impersonate): groups of clients that follow the pods.
    - Dump_Paths, Dump_Messages, Dump (pkg/simulation/dump): the configuration dump, and that its files refer
      only to files it has written.
    - Reader (pkg/reader): the YAML stream.
    - Adsc_Dial (adsc/adsc.go, adsc/delta.go): opening a client in detail, with the proof that what Connect and Fetch see of
      Dial is an abstraction of it; Wait; closing.
    - Kube_Requests, Reproduce (sims/reproducecluster): what Create and Delete send and when they succeed; the
      reproduction of a dumped cluster, which removes what it has created.
    - Victoria (pkg/victoria, sims/victoriapush): the batching reporter and its flusher as steps; every entry is
      posted exactly once and in order when the command has ended.
    - Go_Duration, Model_Codecs (pkg/simulation/model/model.go): Go's text form of durations and its parser, with the
      round trip, and the JSON codecs of durations and templates over it.
    - Xds_Latency (sims/xdslatency): the latency benchmark, never more than one configuration in the cluster.
    - Pod_Startup (sims/podstartup): workers that create, poll and delete pods, what they leave, and the statistics.
    - Kube_Client (pkg/kube/kube.go): construction of the client, raw objects, root certificates and tokens.
    - Commands (cmd, pkg/flag, templates, sims/inmemoryistiod): arguments, flags, builds, profiles, exit status, embedded
      templates. Command_Runs: the cluster command from its configuration file to its cleanup.

  Bounds and fuel. deleteNode has the number of heap nodes plus one as fuel, enough because each call removes a
  node (deleteNode_removes_orphans states that it returns); dumpNode has seven, the depth of the types;
  RetryOnConflict makes the program's three attempts, a pod ten, a namespace a hundred, the queue its maxAttempts (five
  by default): these are bounds of the code. Other recursions are structural. Counts that are 64 bit
  in Go are \<open>int\<close> or \<open>nat\<close>; addresses are bytes that wrap.

  Not modelled: the parsing of flags (pflag, cobra) and logging, the endpoint of metrics and profiles
  (pkg/simulation/monitoring: HTTP servers of the library), blank imports (adsc/imports.go). pkg/simulation/impersonate has the same
  code as sims/adscimpersonate and is used by nothing; it has no definitions of its own.
\<close>

end
